(* ===== verification/Prelude.thy ===== *)
theory Prelude
  imports Main "HOL-Library.AList" "HOL-Library.Char_ord" "HOL-Library.List_Lexorder"
begin

text \<open>
  What every component shares: Go's error values, results of fallible operations, Go maps as
  association lists, and the generic lemmas and rule collections the component proofs use.

  Conventions.  A Go \<^verbatim>\<open>(T, error)\<close> result is a value of \<open>'a result\<close>, \<open>Inl\<close> for a
  non-nil error and \<open>Inr\<close> for the value.  An operation on shared state has a type that ends in
  \<open>'s \<Rightarrow> 'a result \<times> 's\<close>: it returns its result and the state it leaves.  Go strings are byte
  strings; \<open>string\<close> is a list of 8-bit characters, so \<open>length\<close> is Go's \<open>len\<close>.
\<close>

named_theorems string_consts "distinctness facts of the string constants of the program"
named_theorems inv_rules "preservation of the store invariant, one rule per operation"
named_theorems frame_rules "state components an operation leaves unchanged"

section \<open>Error values\<close>

text \<open>
  Errors are kept symbolic: the constructor says which call of the source made the value and
  with which arguments.  \<open>Errorf\<close> is \<^verbatim>\<open>fmt.Errorf\<close>; its pieces are the literal text and the
  operands with their verbs (\<open>Wrapped\<close> is the wrapping verb, \<open>Quoted\<close> the quoting one, \<open>Num\<close>
  the decimal one, \<open>Str\<close> the plain one).  \<open>FromResultCode\<close> and \<open>NewProblem\<close> are the two
  constructors of the platform kit's errors package, whose code is not part of the repository;
  \<open>LibError\<close> is an error returned by a library call, named by the call.  \<open>GoPanic\<close> is a run-time
  panic.
\<close>

datatype gerror =
    ErrorsNew string
  | Errorf "piece list"
  | FromResultCode string
  | NewProblem string "popt list"
  | UnauthorizedError
  | LibError string
  | GoPanic string
and piece = Txt string | Wrapped gerror | Quoted string | Num nat | Str string
and popt = WithDetail "piece list" | WithPublicDetail "piece list"

type_synonym 'a result = "gerror + 'a"

text \<open>\<^verbatim>\<open>errors.Is\<close>: the value itself or, recursively, an operand of a wrapping verb.\<close>

primrec wraps :: "gerror \<Rightarrow> gerror set" and wraps_piece :: "piece \<Rightarrow> gerror set" where
  "wraps (ErrorsNew m) = {ErrorsNew m}"
| "wraps (Errorf ps) = insert (Errorf ps) (\<Union> (set (map wraps_piece ps)))"
| "wraps (FromResultCode c) = {FromResultCode c}"
| "wraps (NewProblem c os) = {NewProblem c os}"
| "wraps UnauthorizedError = {UnauthorizedError}"
| "wraps (LibError m) = {LibError m}"
| "wraps (GoPanic m) = {GoPanic m}"
| "wraps_piece (Txt t) = {}"
| "wraps_piece (Wrapped e) = wraps e"
| "wraps_piece (Quoted s) = {}"
| "wraps_piece (Num n) = {}"
| "wraps_piece (Str s) = {}"

definition errors_Is :: "gerror \<Rightarrow> gerror \<Rightarrow> bool" where
  "errors_Is e target \<longleftrightarrow> target \<in> wraps e"

lemma errors_Is_refl [simp]: "errors_Is e e"
  by (cases e) (auto simp: errors_Is_def)

lemma errors_Is_ErrorsNew [simp]: "errors_Is (ErrorsNew m) t \<longleftrightarrow> t = ErrorsNew m"
  by (auto simp: errors_Is_def)

lemma errors_Is_Errorf [simp]:
  "errors_Is (Errorf ps) t \<longleftrightarrow> t = Errorf ps \<or> (\<exists>e. Wrapped e \<in> set ps \<and> errors_Is e t)"
proof -
  have "t \<in> wraps_piece p \<longleftrightarrow> (\<exists>e. p = Wrapped e \<and> t \<in> wraps e)" for p
    by (cases p) auto
  then show ?thesis
    by (auto simp: errors_Is_def)
qed

section \<open>Results\<close>

definition is_ok :: "'a result \<Rightarrow> bool" where
  "is_ok r = (case r of Inl _ \<Rightarrow> False | Inr _ \<Rightarrow> True)"

lemma is_ok_simps [simp]: "is_ok (Inr v)" "\<not> is_ok (Inl e)"
  by (simp_all add: is_ok_def)

lemma is_ok_iff: "is_ok r \<longleftrightarrow> (\<exists>v. r = Inr v)"
  by (cases r) auto

text \<open>A sequence of fallible conversions that stops at the first error, with the element's index
  passed to the conversion: the loops \<^verbatim>\<open>for i, x := range xs\<close> with an early return.\<close>

fun mapM_from :: "nat \<Rightarrow> (nat \<Rightarrow> 'a \<Rightarrow> 'b result) \<Rightarrow> 'a list \<Rightarrow> 'b list result" where
  "mapM_from i f [] = Inr []"
| "mapM_from i f (x # xs) =
     (case f i x of
        Inl e \<Rightarrow> Inl e
      | Inr y \<Rightarrow> (case mapM_from (Suc i) f xs of Inl e \<Rightarrow> Inl e | Inr ys \<Rightarrow> Inr (y # ys)))"

lemma mapM_from_Inr:
  "mapM_from i f xs = Inr ys \<longleftrightarrow>
     length ys = length xs \<and> (\<forall>k < length xs. f (i + k) (xs ! k) = Inr (ys ! k))"
proof (induction xs arbitrary: i ys)
  case Nil
  then show ?case by auto
next
  case (Cons x xs)
  have split: "(\<forall>k < length (x # xs). f (i + k) ((x # xs) ! k) = Inr ((y # zs) ! k)) \<longleftrightarrow>
      f i x = Inr y \<and> (\<forall>k < length xs. f (Suc i + k) (xs ! k) = Inr (zs ! k))" for y zs
    by (auto simp: less_Suc_eq_0_disj)
  show ?case
  proof (cases ys)
    case Nil
    then show ?thesis by (auto split: sum.splits)
  next
    case (Cons y zs)
    then show ?thesis
      using Cons.IH [of "Suc i" zs] split [of y zs] by (auto split: sum.splits)
  qed
qed

lemma mapM_from_Inl:
  "mapM_from i f xs = Inl e \<Longrightarrow> \<exists>k < length xs. f (i + k) (xs ! k) = Inl e"
proof (induction xs arbitrary: i)
  case Nil
  then show ?case by simp
next
  case (Cons x xs)
  show ?case
  proof (cases "f i x")
    case (Inl e')
    with Cons.prems show ?thesis by (intro exI [of _ 0]) simp
  next
    case (Inr y)
    with Cons.prems have "mapM_from (Suc i) f xs = Inl e"
      by (auto split: sum.splits)
    from Cons.IH [OF this] obtain k where "k < length xs" "f (Suc i + k) (xs ! k) = Inl e"
      by blast
    then show ?thesis by (intro exI [of _ "Suc k"]) simp
  qed
qed

lemma mapM_from_is_ok:
  "is_ok (mapM_from i f xs) \<longleftrightarrow> (\<forall>k < length xs. is_ok (f (i + k) (xs ! k)))"
proof
  assume "is_ok (mapM_from i f xs)"
  then show "\<forall>k < length xs. is_ok (f (i + k) (xs ! k))"
    by (auto simp: is_ok_iff mapM_from_Inr)
next
  assume ok: "\<forall>k < length xs. is_ok (f (i + k) (xs ! k))"
  show "is_ok (mapM_from i f xs)"
  proof (cases "mapM_from i f xs")
    case (Inl e)
    from mapM_from_Inl [OF this] ok show ?thesis by (auto simp: is_ok_iff)
  qed simp
qed

lemma mapM_from_length: "mapM_from i f xs = Inr ys \<Longrightarrow> length ys = length xs"
  by (simp add: mapM_from_Inr)

section \<open>Go maps\<close>

text \<open>
  A Go map is an association list with distinct keys: \<open>map_of\<close> is the lookup, \<open>AList.update\<close>
  the assignment.  The order of the list stands for one iteration order; what the program computes
  from a whole map must not depend on it.
\<close>

type_synonym 'v gomap = "(string \<times> 'v) list"

lemmas gomap_lookup [simp] = update_conv'

lemma gomap_keys_update [simp]:
  "fst ` set (AList.update k v m) = insert k (fst ` set m)"
  by (simp add: dom_update)

lemma map_of_mem_key: "map_of m k = Some v \<Longrightarrow> k \<in> fst ` set m"
  by (force dest: map_of_SomeD)

lemma map_of_mapk:
  "map_of (map (\<lambda>(k, v). (k, f k v)) m) k = map_option (f k) (map_of m k)"
  by (induction m) auto

lemma fst_mapk [simp]: "map fst (map (\<lambda>(k, v). (k, f k v)) m) = map fst m"
  by (induction m) auto

section \<open>Lists\<close>

lemma list_all_nth_conv: "(\<forall>k < length xs. P (xs ! k)) \<longleftrightarrow> (\<forall>x \<in> set xs. P x)"
  by (metis in_set_conv_nth)

lemma takeWhile_append_stop:
  "(\<And>x. x \<in> set xs \<Longrightarrow> P x) \<Longrightarrow> \<not> P y \<Longrightarrow> takeWhile P (xs @ y # ys) = xs"
  by (induction xs) auto

lemma dropWhile_append_stop:
  "(\<And>x. x \<in> set xs \<Longrightarrow> P x) \<Longrightarrow> \<not> P y \<Longrightarrow> dropWhile P (xs @ y # ys) = y # ys"
  by (induction xs) auto

end
