(* ===== verification/GoStrings.thy ===== *)
theory GoStrings
  imports Prelude
begin

text \<open>
  The string functions of Go's standard library the program calls, on byte strings: character
  classes, \<^verbatim>\<open>strings.Cut\<close> and \<^verbatim>\<open>strings.LastIndex\<close> for one-byte separators,
  \<^verbatim>\<open>strings.ToLower\<close>, \<^verbatim>\<open>strings.TrimSpace\<close>, decimal formatting with and without zero padding, and
  the two date layouts.  None of these definitions models a line of the repository.
\<close>

section \<open>Bytes and character classes\<close>

definition byte_of :: "char \<Rightarrow> nat" where
  "byte_of c = of_char c"

definition chr_of :: "nat \<Rightarrow> char" where
  "chr_of n = char_of n"

lemma byte_of_less [simp]: "byte_of c < 256"
  by (simp add: byte_of_def)

lemma byte_of_chr_of: "n < 256 \<Longrightarrow> byte_of (chr_of n) = n"
  by (simp add: byte_of_def chr_of_def)

lemma byte_of_inject: "byte_of c = byte_of d \<longleftrightarrow> c = d"
  by (simp add: byte_of_def)

definition is_digit :: "char \<Rightarrow> bool" where
  "is_digit c \<longleftrightarrow> 48 \<le> byte_of c \<and> byte_of c \<le> 57"

definition is_upper :: "char \<Rightarrow> bool" where
  "is_upper c \<longleftrightarrow> 65 \<le> byte_of c \<and> byte_of c \<le> 90"

definition is_lower :: "char \<Rightarrow> bool" where
  "is_lower c \<longleftrightarrow> 97 \<le> byte_of c \<and> byte_of c \<le> 122"

definition is_alnum :: "char \<Rightarrow> bool" where
  "is_alnum c \<longleftrightarrow> is_digit c \<or> is_upper c \<or> is_lower c"

definition is_hex :: "char \<Rightarrow> bool" where
  "is_hex c \<longleftrightarrow> is_digit c \<or> (65 \<le> byte_of c \<and> byte_of c \<le> 70) \<or> (97 \<le> byte_of c \<and> byte_of c \<le> 102)"

definition unhex :: "char \<Rightarrow> nat" where
  "unhex c = (if is_digit c then byte_of c - 48
              else if is_lower c then byte_of c - 87 else byte_of c - 55)"

lemmas char_class_defs = is_digit_def is_upper_def is_lower_def is_alnum_def is_hex_def byte_of_def

text \<open>The whitespace class \<^verbatim>\<open>\s\<close> of Go's regular expressions (ASCII only).\<close>

definition re_space :: "char \<Rightarrow> bool" where
  "re_space c \<longleftrightarrow> byte_of c \<in> {9, 10, 12, 13, 32}"

section \<open>Cutting\<close>

definition has_prefix :: "string \<Rightarrow> string \<Rightarrow> bool" where
  "has_prefix p s \<longleftrightarrow> take (length p) s = p"

lemma has_prefix_iff: "has_prefix p s \<longleftrightarrow> (\<exists>r. s = p @ r)"
  unfolding has_prefix_def by (metis append_eq_conv_conj append_take_drop_id)

lemma has_prefix_append [simp]: "has_prefix p (p @ r)"
  by (simp add: has_prefix_def)

definition before :: "char \<Rightarrow> string \<Rightarrow> string" where
  "before c s = takeWhile (\<lambda>x. x \<noteq> c) s"

definition after :: "char \<Rightarrow> string \<Rightarrow> string" where
  "after c s = drop 1 (dropWhile (\<lambda>x. x \<noteq> c) s)"

definition from_char :: "char \<Rightarrow> string \<Rightarrow> string" where
  "from_char c s = dropWhile (\<lambda>x. x \<noteq> c) s"

definition before_last :: "char \<Rightarrow> string \<Rightarrow> string" where
  "before_last c s = rev (after c (rev s))"

definition after_last :: "char \<Rightarrow> string \<Rightarrow> string" where
  "after_last c s = rev (before c (rev s))"

lemma before_absent [simp]: "c \<notin> set s \<Longrightarrow> before c s = s"
  unfolding before_def by (rule takeWhile_eq_all_conv [THEN iffD2]) auto

lemma after_absent [simp]: "c \<notin> set s \<Longrightarrow> after c s = []"
proof -
  assume "c \<notin> set s"
  then have "\<forall>x \<in> set s. x \<noteq> c" by auto
  then have "dropWhile (\<lambda>x. x \<noteq> c) s = []"
    by (subst dropWhile_eq_Nil_conv)
  then show "after c s = []" unfolding after_def by (simp only: drop_Nil)
qed

lemma from_char_absent [simp]: "c \<notin> set s \<Longrightarrow> from_char c s = []"
  unfolding from_char_def by (subst dropWhile_eq_Nil_conv) auto

lemma before_from_char: "before c s @ from_char c s = s"
  by (simp add: before_def from_char_def)

lemma hd_from_char: "from_char c s = [] \<or> hd (from_char c s) = c"
  unfolding from_char_def using hd_dropWhile [of "\<lambda>x. x \<noteq> c" s] by blast

lemma set_from_char: "set (from_char c s) \<subseteq> set s"
  by (auto simp: from_char_def dest: set_dropWhileD)

lemma cut_present: "c \<in> set s \<Longrightarrow> s = before c s @ c # after c s"
proof (induction s)
  case Nil
  then show ?case by simp
next
  case (Cons x xs)
  then show ?case by (cases "x = c") (auto simp: before_def after_def)
qed

lemma notin_before [simp]: "c \<notin> set (before c s)"
  by (auto simp: before_def dest: set_takeWhileD)

lemma set_before: "set (before c s) \<subseteq> set s"
  by (auto simp: before_def dest: set_takeWhileD)

lemma before_append_sep: "c \<notin> set p \<Longrightarrow> before c (p @ c # r) = p"
  unfolding before_def by (rule takeWhile_append_stop) auto

lemma after_append_sep: "c \<notin> set p \<Longrightarrow> after c (p @ c # r) = r"
  unfolding after_def by (subst dropWhile_append_stop) auto

lemma cut_last_present: "c \<in> set s \<Longrightarrow> s = before_last c s @ c # after_last c s"
  using cut_present [of c "rev s"] by (simp add: before_last_def after_last_def) (metis append_assoc append_Cons append_Nil rev.simps(2) rev_append rev_rev_ident)

section \<open>strings.ToLower and strings.TrimSpace\<close>

text \<open>
  \<^verbatim>\<open>strings.ToLower\<close> maps every rune of the UTF-8 text.  Two runes outside ASCII have a lower case
  inside it, U+0130 (bytes C4 B0, to \<^verbatim>\<open>i\<close>) and U+212A (bytes E2 84 AA, to \<^verbatim>\<open>k\<close>); both are mapped
  here.  Every other rune outside ASCII maps to one outside ASCII, and is left as it is: the only
  text the program lowers is then reduced to \<^verbatim>\<open>[a-z0-9]\<close>, where all runs of other bytes are equal.
\<close>

definition ascii_lower :: "char \<Rightarrow> char" where
  "ascii_lower c = (if is_upper c then chr_of (byte_of c + 32) else c)"

fun to_lower :: "string \<Rightarrow> string" where
  "to_lower [] = []"
| "to_lower (c # cs) =
     (if byte_of c = 196 \<and> take 1 (map byte_of cs) = [176] then CHR ''i'' # to_lower (drop 1 cs)
      else if byte_of c = 226 \<and> take 2 (map byte_of cs) = [132, 170]
      then CHR ''k'' # to_lower (drop 2 cs)
      else ascii_lower c # to_lower cs)"

text \<open>Code equations on the bits of a character, which avoid its number.\<close>

lemma chr_of_byte_of: "chr_of (byte_of c) = c"
  by (simp add: byte_of_def chr_of_def)

lemma is_upper_code [code]:
  "is_upper (Char b0 b1 b2 b3 b4 b5 b6 b7) \<longleftrightarrow>
     \<not> b7 \<and> b6 \<and> \<not> b5 \<and> (b0 \<or> b1 \<or> b2 \<or> b3 \<or> b4) \<and> \<not> (b4 \<and> b3 \<and> (b2 \<or> b1 \<and> b0))"
  by (cases b7; cases b6; cases b5; cases b4; cases b3; cases b2; cases b1; cases b0)
     (simp_all add: is_upper_def byte_of_def)

lemma ascii_lower_code [code]:
  "ascii_lower (Char b0 b1 b2 b3 b4 b5 b6 b7) =
     (if is_upper (Char b0 b1 b2 b3 b4 b5 b6 b7) then Char b0 b1 b2 b3 b4 True b6 b7
      else Char b0 b1 b2 b3 b4 b5 b6 b7)"
proof (cases "is_upper (Char b0 b1 b2 b3 b4 b5 b6 b7)")
  case True
  then have "\<not> b5" by (simp add: is_upper_code)
  then have "byte_of (Char b0 b1 b2 b3 b4 b5 b6 b7) + 32 = byte_of (Char b0 b1 b2 b3 b4 True b6 b7)"
    by (simp add: byte_of_def)
  then have "chr_of (byte_of (Char b0 b1 b2 b3 b4 b5 b6 b7) + 32) = Char b0 b1 b2 b3 b4 True b6 b7"
    by (simp only: chr_of_byte_of)
  with True show ?thesis by (simp add: ascii_lower_def)
qed (simp add: ascii_lower_def)

lemma is_upper_ascii_lower [simp]: "\<not> is_upper (ascii_lower c)"
  by (auto simp: ascii_lower_def is_upper_def byte_of_chr_of)

lemma ascii_lower_idem [simp]: "ascii_lower (ascii_lower c) = ascii_lower c"
  by (simp add: ascii_lower_def [of "ascii_lower c"])

lemma to_lower_ascii: "(\<And>c. c \<in> set s \<Longrightarrow> byte_of c < 128) \<Longrightarrow> to_lower s = map ascii_lower s"
proof (induction s)
  case (Cons c cs)
  then have "byte_of c < 128" by simp
  then have "byte_of c \<noteq> 196" "byte_of c \<noteq> 226" by linarith+
  moreover have "to_lower cs = map ascii_lower cs" using Cons by simp
  ultimately show ?case by simp
qed simp

lemma is_lower_not_upper: "is_lower c \<Longrightarrow> \<not> is_upper c"
  by (auto simp: is_lower_def is_upper_def)

lemma to_lower_id: "(\<And>c. c \<in> set s \<Longrightarrow> byte_of c < 128 \<and> \<not> is_upper c) \<Longrightarrow> to_lower s = s"
  by (simp add: to_lower_ascii ascii_lower_def cong: map_cong)

text \<open>The UTF-8 encodings of the runes \<^verbatim>\<open>unicode.IsSpace\<close> accepts.\<close>

definition space_seqs :: "nat list list" where
  "space_seqs = [[9], [10], [11], [12], [13], [32], [194, 133], [194, 160], [225, 154, 128]]
     @ map (\<lambda>b. [226, 128, b]) [128 ..< 139]
     @ [[226, 128, 168], [226, 128, 169], [226, 128, 175], [226, 129, 159], [227, 128, 128]]"

fun drop_seq :: "nat list list \<Rightarrow> string \<Rightarrow> string option" where
  "drop_seq [] s = None"
| "drop_seq (q # qs) s =
     (if q \<noteq> [] \<and> take (length q) (map byte_of s) = q then Some (drop (length q) s) else drop_seq qs s)"

lemma drop_seq_shorter: "drop_seq qs s = Some s' \<Longrightarrow> length s' < length s"
proof (induction qs)
  case (Cons q qs)
  show ?case
  proof (cases "q \<noteq> [] \<and> take (length q) (map byte_of s) = q")
    case True
    then have "0 < length q" "s \<noteq> []" by auto
    with True Cons.prems show ?thesis by (auto intro: diff_less)
  qed (use Cons in auto)
qed simp

function trim_left_seqs :: "nat list list \<Rightarrow> string \<Rightarrow> string" where
  "trim_left_seqs qs s =
     (case drop_seq qs s of None \<Rightarrow> s | Some s' \<Rightarrow> trim_left_seqs qs s')"
  by pat_completeness auto
termination
  by (relation "measure (\<lambda>(qs, s). length s)") (auto dest: drop_seq_shorter)

declare trim_left_seqs.simps [simp del]

definition trim_space :: "string \<Rightarrow> string" where
  "trim_space s =
     rev (trim_left_seqs (map rev space_seqs) (rev (trim_left_seqs space_seqs s)))"

text \<open>\<^verbatim>\<open>strings.TrimRight(s, c)\<close> and \<^verbatim>\<open>strings.Trim(s, c)\<close> for a one-byte cutset.\<close>

definition trim_right_char :: "char \<Rightarrow> string \<Rightarrow> string" where
  "trim_right_char c s = rev (dropWhile (\<lambda>x. x = c) (rev s))"

definition trim_char :: "char \<Rightarrow> string \<Rightarrow> string" where
  "trim_char c s = trim_right_char c (dropWhile (\<lambda>x. x = c) s)"

lemma trim_right_char_prefix: "\<exists>n. s = trim_right_char c s @ replicate n c"
proof -
  have "rev s = takeWhile (\<lambda>x. x = c) (rev s) @ dropWhile (\<lambda>x. x = c) (rev s)" by simp
  moreover have "takeWhile (\<lambda>x. x = c) xs = replicate (length (takeWhile (\<lambda>x. x = c) xs)) c" for xs
    by (induction xs) auto
  ultimately have "rev s = replicate (length (takeWhile (\<lambda>x. x = c) (rev s))) c
      @ dropWhile (\<lambda>x. x = c) (rev s)" by metis
  then have "s = rev (replicate (length (takeWhile (\<lambda>x. x = c) (rev s))) c
      @ dropWhile (\<lambda>x. x = c) (rev s))" by (metis rev_rev_ident)
  then show ?thesis unfolding trim_right_char_def by (metis rev_append rev_replicate)
qed

lemma last_trim_right_char: "trim_right_char c s \<noteq> [] \<Longrightarrow> last (trim_right_char c s) \<noteq> c"
  unfolding trim_right_char_def by (metis (mono_tags, lifting) hd_dropWhile last_rev rev_is_Nil_conv)

lemma trim_right_char_Nil: "trim_right_char c s = [] \<Longrightarrow> set s \<subseteq> {c}"
  by (auto simp: trim_right_char_def)

lemma hd_trim_right_char:
  assumes "s \<noteq> []" "hd s \<noteq> c"
  shows "trim_right_char c s \<noteq> [] \<and> hd (trim_right_char c s) = hd s"
proof -
  obtain n where s: "s = trim_right_char c s @ replicate n c"
    using trim_right_char_prefix by blast
  have ne: "trim_right_char c s \<noteq> []"
    using trim_right_char_Nil [of c s] assms hd_in_set [OF assms(1)] by blast
  then have "hd s = hd (trim_right_char c s)"
    using s by (metis hd_append2)
  with ne show ?thesis by simp
qed

lemma set_trim_right_char: "set (trim_right_char c s) \<subseteq> set s"
  by (auto simp: trim_right_char_def dest: set_dropWhileD)

lemma set_trim_char: "set (trim_char c s) \<subseteq> set s"
  unfolding trim_char_def
  by (rule subset_trans [OF set_trim_right_char]) (rule subsetI, erule set_dropWhileD)

lemma length_trim_right_char: "length (trim_right_char c s) \<le> length s"
  unfolding trim_right_char_def using length_dropWhile_le [of _ "rev s"] by simp

lemma hd_trim_char: "trim_char c s \<noteq> [] \<Longrightarrow> hd (trim_char c s) \<noteq> c"
proof -
  assume ne: "trim_char c s \<noteq> []"
  let ?d = "dropWhile (\<lambda>x. x = c) s"
  from ne have d: "?d \<noteq> []" unfolding trim_char_def trim_right_char_def by fastforce
  then have "hd ?d \<noteq> c" by (rule hd_dropWhile)
  with d hd_trim_right_char [of ?d c] show "hd (trim_char c s) \<noteq> c"
    by (simp add: trim_char_def)
qed

section \<open>Decimal numbers\<close>

fun nat_dec :: "nat \<Rightarrow> string" where
  "nat_dec n = (if n < 10 then [chr_of (48 + n)] else nat_dec (n div 10) @ [chr_of (48 + n mod 10)])"

declare nat_dec.simps [simp del]

definition pad0 :: "nat \<Rightarrow> string \<Rightarrow> string" where
  "pad0 w s = replicate (w - length s) (CHR ''0'') @ s"

definition dec_val :: "string \<Rightarrow> nat" where
  "dec_val s = foldl (\<lambda>a c. 10 * a + (byte_of c - 48)) 0 s"

lemma dec_val_snoc: "dec_val (s @ [c]) = 10 * dec_val s + (byte_of c - 48)"
  by (simp add: dec_val_def)

lemma dec_val_nat_dec [simp]: "dec_val (nat_dec n) = n"
proof (induction n rule: nat_dec.induct)
  case (1 n)
  show ?case
  proof (cases "n < 10")
    case True
    then show ?thesis
      by (subst nat_dec.simps) (simp add: dec_val_def byte_of_chr_of)
  next
    case False
    with 1 have "dec_val (nat_dec (n div 10)) = n div 10" by simp
    then show ?thesis using False
      by (subst nat_dec.simps) (simp add: dec_val_snoc byte_of_chr_of)
  qed
qed

lemma dec_val_replicate0: "dec_val (replicate k (CHR ''0'') @ s) = dec_val s"
  by (induction k) (simp_all add: dec_val_def byte_of_def)

lemma dec_val_pad0 [simp]: "dec_val (pad0 w s) = dec_val s"
  by (simp add: pad0_def dec_val_replicate0)

lemma digits_nat_dec: "c \<in> set (nat_dec n) \<Longrightarrow> is_digit c"
proof (induction n rule: nat_dec.induct)
  case (1 n)
  show ?case
  proof (cases "n < 10")
    case True
    with "1.prems" show ?thesis
      by (subst (asm) nat_dec.simps) (auto simp: is_digit_def byte_of_chr_of)
  next
    case False
    with "1.prems" have "c \<in> set (nat_dec (n div 10)) \<or> c = chr_of (48 + n mod 10)"
      by (subst (asm) nat_dec.simps) auto
    moreover have "is_digit (chr_of (48 + n mod 10))"
      by (auto simp: is_digit_def byte_of_chr_of)
    ultimately show ?thesis using "1.IH" False by blast
  qed
qed

lemma digits_pad0: "(\<And>c. c \<in> set s \<Longrightarrow> is_digit c) \<Longrightarrow> c \<in> set (pad0 w s) \<Longrightarrow> is_digit c"
  by (auto simp: pad0_def is_digit_def byte_of_def)

lemma length_nat_dec: "0 < k \<Longrightarrow> n < 10 ^ k \<Longrightarrow> length (nat_dec n) \<le> k"
proof (induction n arbitrary: k rule: nat_dec.induct)
  case (1 n)
  show ?case
  proof (cases "n < 10")
    case True
    with "1.prems" show ?thesis by (subst nat_dec.simps) simp
  next
    case False
    from "1.prems" obtain j where k: "k = Suc j" by (cases k) auto
    with False "1.prems" have j: "0 < j" by (cases j) auto
    from k "1.prems" have "n div 10 < 10 ^ j" by auto
    with 1 False j have "length (nat_dec (n div 10)) \<le> j" by simp
    with False k show ?thesis by (subst nat_dec.simps) simp
  qed
qed

lemma length_pad0: "length s \<le> w \<Longrightarrow> length (pad0 w s) = w"
  by (simp add: pad0_def)

text \<open>The last \<open>k\<close> digits of a number written in at least \<open>k\<close> digits determine it modulo \<open>10 ^ k\<close>.\<close>

lemma dec_val_bound: "(\<And>c. c \<in> set s \<Longrightarrow> is_digit c) \<Longrightarrow> dec_val s < 10 ^ length s"
proof (induction s rule: rev_induct)
  case Nil
  then show ?case by (simp add: dec_val_def)
next
  case (snoc c s)
  then have "dec_val s < 10 ^ length s" by simp
  moreover from snoc.prems have "is_digit c" by simp
  then have "byte_of c - 48 < 10" unfolding is_digit_def by arith
  ultimately show ?case by (simp add: dec_val_snoc)
qed

lemma dec_val_append: "dec_val (s @ t) = dec_val s * 10 ^ length t + dec_val t"
proof (induction t rule: rev_induct)
  case Nil
  then show ?case by (simp add: dec_val_def)
next
  case (snoc c t)
  have "dec_val (s @ t @ [c]) = 10 * dec_val (s @ t) + (byte_of c - 48)"
    using dec_val_snoc [of "s @ t" c] by simp
  then show ?case using snoc by (simp add: dec_val_snoc algebra_simps)
qed

end
