(* ===== verification/GoJson.thy ===== *)
theory GoJson
  imports GoStrings
begin

text \<open>
  The part of \<^verbatim>\<open>encoding/json\<close> the program relies on, over JSON values instead of JSON text.

  A \<^verbatim>\<open>json.RawMessage\<close> or a request body is a value of \<open>raw\<close>: no bytes at all, bytes that are not
  JSON text, or the text of a JSON value.  A number stands for the value it decodes to.  Decoding
  into a struct field follows the package: keys are matched without regard to case, the last entry
  for a field wins, \<^verbatim>\<open>null\<close> leaves a non-pointer field alone and makes a pointer or slice nil, a value
  of the wrong kind is an error.  Nil and empty slices are both \<open>[]\<close>.  None of these definitions
  models a line of the repository.
\<close>

datatype json = JNull | JBool bool | JNum int | JStr string | JArr "json list"
  | JObj "(string \<times> json) list"

datatype raw = RawNil | RawBad string | RawJSON json

section \<open>Decoding\<close>

text \<open>Field names are compared after folding.  Two runes outside ASCII fold to ASCII letters: U+017F
  (bytes C5 BF) to \<^verbatim>\<open>s\<close> and U+212A (bytes E2 84 AA) to \<^verbatim>\<open>k\<close>.\<close>

fun fold_name :: "string \<Rightarrow> string" where
  "fold_name [] = []"
| "fold_name (c # cs) =
     (if c = CHR 0xC5 \<and> take 1 cs = [CHR 0xBF] then CHR ''s'' # fold_name (drop 1 cs)
      else if c = CHR 0xE2 \<and> take 2 cs = [CHR 0x84, CHR 0xAA]
      then CHR ''k'' # fold_name (drop 2 cs)
      else ascii_lower c # fold_name cs)"

text \<open>A decoder takes the value already in the destination and a JSON value; \<open>None\<close> is an error.\<close>

type_synonym 'a decoder = "'a \<Rightarrow> json \<Rightarrow> 'a option"

fun dec_string :: "string decoder" where
  "dec_string a JNull = Some a"
| "dec_string a (JStr s) = Some s"
| "dec_string a _ = None"

fun dec_bool :: "bool decoder" where
  "dec_bool a JNull = Some a"
| "dec_bool a (JBool b) = Some b"
| "dec_bool a _ = None"

fun dec_list :: "'a \<Rightarrow> 'a decoder \<Rightarrow> 'a list decoder" where
  "dec_list z f a JNull = Some []"
| "dec_list z f a (JArr xs) = those (map (f z) xs)"
| "dec_list z f a _ = None"

fun dec_ptr :: "'a \<Rightarrow> 'a decoder \<Rightarrow> 'a option decoder" where
  "dec_ptr z f a JNull = Some None"
| "dec_ptr z f a v = map_option Some (f (case a of None \<Rightarrow> z | Some x \<Rightarrow> x) v)"

fun dec_struct :: "('a \<Rightarrow> (string \<times> json) list \<Rightarrow> 'a option) \<Rightarrow> 'a decoder" where
  "dec_struct f a JNull = Some a"
| "dec_struct f a (JObj kvs) = f a kvs"
| "dec_struct f a _ = None"

definition field_values :: "string \<Rightarrow> (string \<times> json) list \<Rightarrow> json list" where
  "field_values name kvs =
     (let n = fold_name name in map snd (filter (\<lambda>(k, v). fold_name k = n) kvs))"

definition dec_field :: "string \<Rightarrow> 'a decoder \<Rightarrow> 'a \<Rightarrow> (string \<times> json) list \<Rightarrow> 'a option" where
  "dec_field name f a kvs =
     foldl (\<lambda>acc v. Option.bind acc (\<lambda>x. f x v)) (Some a) (field_values name kvs)"

lemma dec_field_absent: "field_values name kvs = [] \<Longrightarrow> dec_field name f a kvs = Some a"
  by (simp add: dec_field_def)

lemma dec_field_single: "field_values name kvs = [v] \<Longrightarrow> dec_field name f a kvs = f a v"
  by (simp add: dec_field_def)

text \<open>A struct field decoded in place: the decoder of a struct tries its fields one after the other.\<close>

definition member :: "string \<Rightarrow> 'a decoder \<Rightarrow> ('r \<Rightarrow> 'a) \<Rightarrow> ('a \<Rightarrow> 'r \<Rightarrow> 'r) \<Rightarrow> (string \<times> json) list \<Rightarrow> 'r \<Rightarrow> 'r option" where
  "member name dec get put kvs r = map_option (\<lambda>v. put v r) (dec_field name dec (get r) kvs)"

definition dec_members :: "((string \<times> json) list \<Rightarrow> 'r \<Rightarrow> 'r option) list \<Rightarrow> 'r decoder" where
  "dec_members fs = dec_struct (\<lambda>r kvs. foldl (\<lambda>acc f. Option.bind acc (f kvs)) (Some r) fs)"

text \<open>\<^verbatim>\<open>json.Unmarshal(bytes, &v)\<close> with \<open>v\<close> at its zero value.\<close>

definition unmarshal :: "'a decoder \<Rightarrow> 'a \<Rightarrow> raw \<Rightarrow> 'a option" where
  "unmarshal f z r = (case r of RawJSON j \<Rightarrow> f z j | _ \<Rightarrow> None)"

section \<open>Objects decoded into maps, and encoding\<close>

text \<open>Encoding a map writes its entries in key order.\<close>

definition marshal_map :: "(string \<times> json) list \<Rightarrow> json" where
  "marshal_map m = JObj (sort_key fst m)"

lemma set_marshal_map: "marshal_map m = JObj kvs \<Longrightarrow> set kvs = set m"
  by (auto simp: marshal_map_def)

text \<open>Decoding an object into \<^verbatim>\<open>map[string]any\<close> and encoding it again.\<close>

function remarshal :: "json \<Rightarrow> json" where
  "remarshal JNull = JNull"
| "remarshal (JBool b) = JBool b"
| "remarshal (JNum n) = JNum n"
| "remarshal (JStr s) = JStr s"
| "remarshal (JArr xs) = JArr (map remarshal xs)"
| "remarshal (JObj kvs) =
     marshal_map (AList.clearjunk (rev (map (\<lambda>kv. (fst kv, remarshal (snd kv))) kvs)))"
  by pat_completeness auto
termination
proof (relation "measure size")
  fix xs :: "json list" and x
  assume "x \<in> set xs"
  then show "(x, JArr xs) \<in> measure size"
    by (simp add: less_Suc_eq_le size_list_estimation' [OF _ order_refl])
next
  fix kvs :: "(string \<times> json) list" and kv
  assume "kv \<in> set kvs"
  then have "size_prod (\<lambda>_. 0) size kv \<le> size_list (size_prod (\<lambda>_. 0) size) kvs"
    by (rule size_list_estimation') simp
  then show "(snd kv, JObj kvs) \<in> measure size"
    by (cases kv) simp
qed simp

definition map_any :: "(string \<times> json) list \<Rightarrow> (string \<times> json) list" where
  "map_any kvs = AList.clearjunk (rev (map (\<lambda>kv. (fst kv, remarshal (snd kv))) kvs))"

lemma map_of_map_any: "map_of (map_any kvs) k = map_option remarshal (map_of (rev kvs) k)"
proof -
  have "map_of (map (\<lambda>kv. (fst kv, remarshal (snd kv))) m) k = map_option remarshal (map_of m k)" for m
    by (induction m) auto
  from this [of "rev kvs"] show ?thesis
    by (simp add: map_any_def map_of_clearjunk rev_map)
qed

lemma distinct_map_any: "distinct (map fst (map_any kvs))"
  by (simp add: map_any_def distinct_clearjunk)

lemma map_of_sort_key:
  assumes "distinct (map fst m)"
  shows "map_of (sort_key fst m) = map_of m"
proof (rule map_of_inject_set [THEN iffD2])
  show "distinct (map fst (sort_key fst m))"
    using assms by (simp add: distinct_map)
qed (use assms in simp_all)

text \<open>A field of a struct that is encoded with \<^verbatim>\<open>omitempty\<close>.\<close>

definition omitempty_str :: "string \<Rightarrow> string \<Rightarrow> (string \<times> json) list" where
  "omitempty_str name s = (if s = [] then [] else [(name, JStr s)])"

text \<open>A \<^verbatim>\<open>json.RawMessage\<close> field: nil is written as \<^verbatim>\<open>null\<close>, JSON text is written as it is, and
  anything else makes encoding fail.\<close>

definition marshal_raw :: "raw \<Rightarrow> json option" where
  "marshal_raw r = (case r of RawNil \<Rightarrow> Some JNull | RawJSON j \<Rightarrow> Some j | RawBad _ \<Rightarrow> None)"

section \<open>More decoders and encoders\<close>

text \<open>A \<^verbatim>\<open>json.RawMessage\<close> field takes the text of any value, \<^verbatim>\<open>null\<close> included; an \<^verbatim>\<open>int64\<close> field a
  number in range; a field of type \<^verbatim>\<open>any\<close> the value itself.\<close>

definition dec_raw :: "raw decoder" where
  "dec_raw a j = Some (RawJSON j)"

fun dec_int64 :: "int decoder" where
  "dec_int64 a JNull = Some a"
| "dec_int64 a (JNum n) = (if - (2 ^ 63) \<le> n \<and> n < 2 ^ 63 then Some n else None)"
| "dec_int64 a _ = None"

definition dec_any :: "json decoder" where
  "dec_any a j = Some (remarshal j)"

text \<open>\<^verbatim>\<open>json.Marshal\<close> of a map whose values may fail to encode.\<close>

definition marshal_entries :: "(string \<times> json option) list \<Rightarrow> json option" where
  "marshal_entries kvs = map_option marshal_map
     (those (map (\<lambda>(k, v). map_option (\<lambda>j. (k, j)) v) kvs))"

definition marshal_strings :: "(string \<times> string) list \<Rightarrow> json option" where
  "marshal_strings kvs = Some (marshal_map (map (\<lambda>(k, v). (k, JStr v)) kvs))"

end
