(* ===== verification/Registry.thy ===== *)
theory Registry
  imports GoJson
begin

text \<open>
  Package \<^verbatim>\<open>internal/registrydb\<close>, the part both stores share: the row types of
  \<^verbatim>\<open>internal/registrydb/repo.go\<close>, the error mapping of \<^verbatim>\<open>internal/registrydb/db.go\<close> and the \<open>Store\<close>
  interface.  A Go interface value is a record of functions over an abstract state \<open>'s\<close>; the
  \<^verbatim>\<open>context.Context\<close> arguments are left out.  A time is a number of nanoseconds since the Unix epoch.
\<close>

type_synonym time = int
type_synonym bytes = string

text \<open>The zero value of \<^verbatim>\<open>time.Time\<close>, the start of year 1.\<close>

definition zero_time :: time where
  "zero_time = - 62135596800 * 10 ^ 9"

section \<open>Row types\<close>

record ClientFull =
  cf_ID :: string
  cf_Name :: string
  cf_Status :: string
  cf_RegistryURI :: string
  cf_ClientIdentifier :: string
  cf_DefaultWebhook :: string
  cf_AllowedOrigins :: "string list"
  cf_Policy :: raw
  cf_Slug :: string
  cf_WRPDocument :: raw
  cf_ContactEmails :: "string list"

record ClientSummary =
  cs_ID :: string
  cs_Name :: string
  cs_Status :: string
  cs_Slug :: string
  cs_UpdatedAt :: time

record RegisteredCredentialJSON =
  rc_Format :: string
  rc_DoctypesOrVCTs :: "string list"
  rc_AllClaims :: bool
  rc_Claims :: "json list list"

record IntendedUse =
  iu_ID :: string
  iu_IntendedUseID :: string
  iu_Purpose :: raw
  iu_Credentials :: "RegisteredCredentialJSON list"
  iu_RevokedAt :: string

record Evidence =
  ev_ID :: string
  ev_Filename :: string
  ev_Mime :: string
  ev_SHA256 :: string
  ev_SizeBytes :: int
  ev_CreatedAt :: time

record AuditEntry =
  ae_ID :: string
  ae_At :: time
  ae_Actor :: string
  ae_ClientID :: string
  ae_Action :: string
  ae_Detail :: raw

record DeletionRequest =
  dr_ID :: string
  dr_ClientID :: string
  dr_SessionID :: string
  dr_AttributeNames :: "string list"
  dr_RequestedAt :: time

section \<open>Error codes\<close>

text \<open>\<open>resultError\<close> is nil on the empty code; \<open>fail\<close> is a return of it with a code that is not empty.\<close>

definition resultError :: "string \<Rightarrow> gerror option" where
  "resultError code = (if code = [] then None else Some (FromResultCode (''err:'' @ code)))"

definition fail :: "string \<Rightarrow> 'a result" where
  "fail code = Inl (FromResultCode (''err:'' @ code))"

lemma fail_resultError: "code \<noteq> [] \<Longrightarrow> resultError code = Some e \<longleftrightarrow> fail code = (Inl e :: 'a result)"
  by (auto simp: resultError_def fail_def)

lemma fail_not_Inr [simp]: "fail code \<noteq> Inr v" "Inr v \<noteq> fail code"
  by (simp_all add: fail_def)

lemma fail_inject [simp]: "fail c = fail d \<longleftrightarrow> c = d"
  by (simp add: fail_def)

lemma case_fail [simp]:
  "(case fail code of Inl e \<Rightarrow> l e | Inr v \<Rightarrow> r v) = l (FromResultCode (''err:'' @ code))"
  by (simp add: fail_def)

lemma not_ok_fail [simp]: "\<not> is_ok (fail code)"
  by (simp add: fail_def)

section \<open>The Store interface\<close>

record 's Store =
  TransitionClient :: "string \<Rightarrow> string \<Rightarrow> string \<Rightarrow> string \<Rightarrow> string \<Rightarrow> 's \<Rightarrow> unit result \<times> 's"
  GetClientFull :: "string \<Rightarrow> 's \<Rightarrow> ClientFull result \<times> 's"
  ListClientsByState :: "'s \<Rightarrow> ClientSummary list gomap result \<times> 's"
  CreateDraftClient :: "string \<Rightarrow> string \<Rightarrow> string \<Rightarrow> 's \<Rightarrow> string result \<times> 's"
  SetClientRegistrarIdentity :: "string \<Rightarrow> string \<Rightarrow> string \<Rightarrow> string \<Rightarrow> 's \<Rightarrow> unit result \<times> 's"
  SetClientWebhook :: "string \<Rightarrow> string \<Rightarrow> string \<Rightarrow> 's \<Rightarrow> unit result \<times> 's"
  SetClientAllowedOrigins :: "string \<Rightarrow> string list \<Rightarrow> string \<Rightarrow> 's \<Rightarrow> unit result \<times> 's"
  SetClientDCAPIMode :: "string \<Rightarrow> string \<Rightarrow> string \<Rightarrow> 's \<Rightarrow> unit result \<times> 's"
  CreateAPIKey :: "string \<Rightarrow> string \<Rightarrow> string \<Rightarrow> 's \<Rightarrow> unit result \<times> 's"
  SaveWRPDocument :: "string \<Rightarrow> raw \<Rightarrow> IntendedUse list \<Rightarrow> string \<Rightarrow> 's \<Rightarrow> unit result \<times> 's"
  ListIntendedUses :: "string \<Rightarrow> 's \<Rightarrow> IntendedUse list result \<times> 's"
  SetIntendedUses :: "string \<Rightarrow> IntendedUse list \<Rightarrow> string \<Rightarrow> 's \<Rightarrow> unit result \<times> 's"
  AddEvidence :: "string \<Rightarrow> Evidence \<Rightarrow> bytes \<Rightarrow> string \<Rightarrow> 's \<Rightarrow> (string \<times> Evidence) result \<times> 's"
  ListEvidence :: "string \<Rightarrow> 's \<Rightarrow> Evidence list result \<times> 's"
  GetEvidenceContent :: "string \<Rightarrow> string \<Rightarrow> 's \<Rightarrow> (bytes \<times> string) result \<times> 's"
  AppendAudit :: "string \<Rightarrow> string \<Rightarrow> string \<Rightarrow> raw \<Rightarrow> 's \<Rightarrow> unit result \<times> 's"
  ListAuditEntries :: "string \<Rightarrow> int \<Rightarrow> 's \<Rightarrow> AuditEntry list result \<times> 's"
  LogDeletionRequest :: "string \<Rightarrow> string \<Rightarrow> string list \<Rightarrow> 's \<Rightarrow> string result \<times> 's"
  ListDeletionRequests :: "string \<Rightarrow> int \<Rightarrow> 's \<Rightarrow> DeletionRequest list result \<times> 's"
  PurgeOffboarded :: "string \<Rightarrow> string \<Rightarrow> 's \<Rightarrow> unit result \<times> 's"

text \<open>Grouping a flat list of summaries by status, as both stores do:
  \<^verbatim>\<open>grouped[c.Status] = append(grouped[c.Status], c)\<close>.\<close>

definition group_into :: "ClientSummary list gomap \<Rightarrow> ClientSummary \<Rightarrow> ClientSummary list gomap" where
  "group_into g c =
     AList.update (cs_Status c)
       ((case map_of g (cs_Status c) of None \<Rightarrow> [] | Some l \<Rightarrow> l) @ [c]) g"

definition group_by_status :: "ClientSummary list \<Rightarrow> ClientSummary list gomap" where
  "group_by_status cs = foldl group_into [] cs"

lemma group_by_status_snoc:
  "group_by_status (cs @ [c]) = group_into (group_by_status cs) c"
  by (simp add: group_by_status_def)

lemma map_of_group_by_status:
  "map_of (group_by_status cs) st =
     (let l = filter (\<lambda>c. cs_Status c = st) cs in if l = [] then None else Some l)"
proof (induction cs rule: rev_induct)
  case Nil
  then show ?case by (simp add: group_by_status_def)
next
  case (snoc c cs)
  then show ?case
    by (auto simp: group_by_status_snoc group_into_def Let_def)
qed

lemma distinct_group_by_status: "distinct (map fst (group_by_status cs))"
proof (induction cs rule: rev_induct)
  case Nil
  then show ?case by (simp add: group_by_status_def)
next
  case (snoc c cs)
  then show ?case by (simp add: group_by_status_snoc group_into_def distinct_update)
qed

end
