(* ===== verification/PgCall.thy ===== *)
theory PgCall
  imports Registry
begin

text \<open>
  \<^verbatim>\<open>internal/registrydb/db.go\<close>: calling a procedure and reading its envelope.  The database is not part
  of the repository: it is a parameter, a function from the text of the statement, the value of its
  argument and the state of the database to a reply and a new state.  A reply is the value scanned
  from the one row, or an error of the driver; \<open>Some (code, message)\<close> is what \<^verbatim>\<open>errors.As\<close> finds of type
  \<^verbatim>\<open>pgconn.PgError\<close> in it.
\<close>

datatype db_reply = Scanned raw | QueryError gerror "(string \<times> raw) option"

type_synonym 's db = "string \<Rightarrow> json \<Rightarrow> 's \<Rightarrow> db_reply \<times> 's"

record envelope =
  en_Result :: string
  en_Code :: string
  en_Message :: string
  en_Data :: raw

definition dec_envelope :: "envelope decoder" where
  "dec_envelope = dec_members
     [member ''result'' dec_string en_Result (\<lambda>v. en_Result_update (\<lambda>_. v)),
      member ''code'' dec_string en_Code (\<lambda>v. en_Code_update (\<lambda>_. v)),
      member ''message'' dec_string en_Message (\<lambda>v. en_Message_update (\<lambda>_. v)),
      member ''data'' dec_raw en_Data (\<lambda>v. en_Data_update (\<lambda>_. v))]"

definition zero_envelope :: envelope where
  "zero_envelope = \<lparr>en_Result = [], en_Code = [], en_Message = [], en_Data = RawNil\<rparr>"

text \<open>The data and the error code of an envelope.\<close>

definition parseEnvelope :: "raw \<Rightarrow> (raw \<times> string) result" where
  "parseEnvelope b =
     (case unmarshal dec_envelope zero_envelope b of
        None \<Rightarrow> Inl (Errorf [Txt ''registrydb: malformed envelope: '', Wrapped (LibError ''json.Unmarshal'')])
      | Some e \<Rightarrow>
          if en_Result e = ''success'' then Inr (en_Data e, [])
          else if en_Result e = ''error'' then Inr (RawNil, en_Code e)
          else Inl (Errorf [Txt ''registrydb: unknown envelope result '', Quoted (en_Result e)]))"

text \<open>\<^verbatim>\<open>return nil, resultError(code)\<close>: no data, and no error when the code is empty.\<close>

definition coded :: "string \<Rightarrow> raw result" where
  "coded code = (case resultError code of None \<Rightarrow> Inr RawNil | Some e \<Rightarrow> Inl e)"

definition statement :: "string \<Rightarrow> string" where
  "statement proc = ''call '' @ proc @ ''($1, $2)''"

definition call :: "'s db \<Rightarrow> string \<Rightarrow> json option \<Rightarrow> 's \<Rightarrow> raw result \<times> 's" where
  "call db proc inp s =
     (case inp of
        None \<Rightarrow> (Inl (Errorf [Txt ''registrydb: marshal pi_data: '', Wrapped (LibError ''json.Marshal'')]), s)
      | Some pi \<Rightarrow>
     (case db (statement proc) pi s of
        (QueryError err pg, s) \<Rightarrow>
          (case pg of
             Some (sqlstate, msg) \<Rightarrow>
               if sqlstate = ''P0001'' then
                 (case parseEnvelope msg of
                    Inl perr \<Rightarrow> (Inl perr, s)
                  | Inr (_, code) \<Rightarrow> (coded code, s))
               else (Inl (Errorf [Txt ''registrydb: '', Str proc, Txt '': '', Wrapped err]), s)
           | None \<Rightarrow> (Inl (Errorf [Txt ''registrydb: '', Str proc, Txt '': '', Wrapped err]), s))
      | (Scanned out, s) \<Rightarrow>
          (case parseEnvelope out of
             Inl err \<Rightarrow> (Inl err, s)
           | Inr (data, code) \<Rightarrow> if code \<noteq> [] then (coded code, s) else (Inr data, s))))"

section \<open>What a call reports\<close>

lemma coded_code [simp]: "code \<noteq> [] \<Longrightarrow> coded code = fail code" "coded [] = Inr RawNil"
  by (simp_all add: coded_def resultError_def fail_def)

text \<open>The envelope a reply carries, if it carries one: the row, or the message of an exception the
  procedure raised itself.\<close>

fun reply_text :: "db_reply \<Rightarrow> raw option" where
  "reply_text (Scanned out) = Some out"
| "reply_text (QueryError err (Some (sqlstate, msg))) = (if sqlstate = ''P0001'' then Some msg else None)"
| "reply_text (QueryError err None) = None"

definition reply_envelope :: "db_reply \<Rightarrow> (raw \<times> string) option" where
  "reply_envelope r = Option.bind (reply_text r) (\<lambda>b. case parseEnvelope b of Inl _ \<Rightarrow> None | Inr e \<Rightarrow> Some e)"

lemma call_reply:
  assumes "db (statement proc) pi s = (r, s')"
  shows "call db proc (Some pi) s =
    ((case r of
        Scanned out \<Rightarrow> (case parseEnvelope out of Inl e \<Rightarrow> Inl e | Inr (d, code) \<Rightarrow> if code = [] then Inr d else fail code)
      | QueryError err pg \<Rightarrow>
          (case reply_text r of
             None \<Rightarrow> Inl (Errorf [Txt ''registrydb: '', Str proc, Txt '': '', Wrapped err])
           | Some b \<Rightarrow> (case parseEnvelope b of Inl e \<Rightarrow> Inl e | Inr (_, code) \<Rightarrow> if code = [] then Inr RawNil else fail code))), s')"
  using assms
  by (cases r rule: reply_text.cases)
     (auto simp: call_def split: sum.split prod.split option.split)

lemma call_frame: "snd (call db proc inp s) = (case inp of None \<Rightarrow> s | Some pi \<Rightarrow> snd (db (statement proc) pi s))"
proof (cases inp)
  case (Some pi)
  obtain r s' where "db (statement proc) pi s = (r, s')" by fastforce
  with Some call_reply [of db proc pi s r s', OF this] show ?thesis by simp
qed (simp add: call_def)

text \<open>
  C24 (when a procedure call succeeds): a call reports success exactly when its argument could be
  encoded and the reply carries an envelope, as the row or as the message of a raised exception, that
  has no error code; it then gives the data of a success envelope that came as the row, and no data
  otherwise.  So a raised exception whose envelope names no code, and an error envelope with an empty
  code, both count as success.
\<close>

theorem call_success:
  assumes "db (statement proc) pi s = (r, s')"
  shows "(\<exists>d. call db proc (Some pi) s = (Inr d, s')) = (\<exists>d. reply_envelope r = Some (d, [])) \<and>
    (\<forall>d. call db proc (Some pi) s = (Inr d, s') \<longrightarrow>
       (\<exists>b. r = Scanned b \<and> parseEnvelope b = Inr (d, [])) \<or> (\<exists>err pg. r = QueryError err pg) \<and> d = RawNil) \<and>
    (\<forall>d code. reply_envelope r = Some (d, code) \<longrightarrow> code \<noteq> [] \<longrightarrow>
       call db proc (Some pi) s = (Inl (FromResultCode (''err:'' @ code)), s'))"
  unfolding call_reply [of db proc pi s r s', OF assms]
  by (cases r rule: reply_text.cases)
     (auto simp: reply_envelope_def fail_def split: sum.split prod.split if_splits)

theorem call_success_witness:
  "call (\<lambda>_ _ s. (QueryError (LibError ''pgx'') (Some (''P0001'', RawJSON (JObj [(''result'', JStr ''error'')]))), s))
     ''registry.purge_offboarded'' (Some JNull) () = (Inr RawNil, ())"
proof -
  let ?r = "QueryError (LibError ''pgx'') (Some (''P0001'', RawJSON (JObj [(''result'', JStr ''error'')])))"
  have "parseEnvelope (RawJSON (JObj [(''result'', JStr ''error'')])) = Inr (RawNil, [])" by code_simp
  then have e: "reply_envelope ?r = Some (RawNil, [])" by (simp add: reply_envelope_def)
  have "(\<lambda>_ _ s. (?r, s)) (statement ''registry.purge_offboarded'') JNull () = (?r, ())" by simp
  from call_success [of "\<lambda>_ _ s. (?r, s)" "''registry.purge_offboarded''" JNull "()" ?r "()", OF this] e
  show ?thesis by auto
qed

end
