(* ===== verification/GoTime.thy ===== *)
theory GoTime
  imports Registry
begin

text \<open>
  The two formats in which the program writes a time, \<^verbatim>\<open>2006-01-02\<close> and \<^verbatim>\<open>time.RFC3339Nano\<close> (the JSON
  form), of a UTC time given in nanoseconds since the Unix epoch, and the reading of the JSON form.
  None of these definitions models a line of the repository.
\<close>

definition leap :: "int \<Rightarrow> bool" where
  "leap y \<longleftrightarrow> y mod 4 = 0 \<and> (y mod 100 \<noteq> 0 \<or> y mod 400 = 0)"

definition year_days :: "int \<Rightarrow> nat" where
  "year_days y = (if leap y then 366 else 365)"

definition month_days :: "int \<Rightarrow> nat list" where
  "month_days y = [31, if leap y then 29 else 28, 31, 30, 31, 30, 31, 31, 30, 31, 30, 31]"

text \<open>The year and the day in it, counted from the start of year \<open>y\<close>; the month and the day in it.\<close>

function split_years :: "int \<Rightarrow> nat \<Rightarrow> int \<times> nat" where
  "split_years y d = (if d < year_days y then (y, d) else split_years (y + 1) (d - year_days y))"
  by pat_completeness auto
termination
  by (relation "measure (\<lambda>(y, d). d)") (auto simp: year_days_def)

declare split_years.simps [simp del]

fun split_months :: "nat \<Rightarrow> nat list \<Rightarrow> nat \<Rightarrow> nat \<times> nat" where
  "split_months m [] d = (m, d)"
| "split_months m (l # ls) d = (if d < l then (m, d) else split_months (Suc m) ls (d - l))"

text \<open>Day 0 is the start of year 1970, which is day 719528 from the start of year 0; a period of 400
  years has 146097 days.\<close>

definition civil :: "int \<Rightarrow> int \<times> nat \<times> nat" where
  "civil days =
     (let z = days + 719528;
          (y, d) = split_years (400 * (z div 146097)) (nat (z mod 146097));
          (m, d) = split_months 1 (month_days y) d
      in (y, m, d + 1))"

definition year_text :: "int \<Rightarrow> string" where
  "year_text y = (if y < 0 then ''-'' @ pad0 4 (nat_dec (nat (- y))) else pad0 4 (nat_dec (nat y)))"

definition format_date :: "time \<Rightarrow> string" where
  "format_date t =
     (case civil (t div (86400 * 10 ^ 9)) of
        (y, m, d) \<Rightarrow> year_text y @ ''-'' @ pad0 2 (nat_dec m) @ ''-'' @ pad0 2 (nat_dec d))"

definition fraction_text :: "nat \<Rightarrow> string" where
  "fraction_text ns = (if ns = 0 then [] else CHR ''.'' # trim_right_char (CHR ''0'') (pad0 9 (nat_dec ns)))"

definition format_rfc3339nano :: "time \<Rightarrow> string" where
  "format_rfc3339nano t =
     (let s = nat (t div 10 ^ 9 mod 86400) in
      format_date t @ ''T'' @ pad0 2 (nat_dec (s div 3600)) @ '':'' @
        pad0 2 (nat_dec (s div 60 mod 60)) @ '':'' @ pad0 2 (nat_dec (s mod 60)) @
        fraction_text (nat (t mod 10 ^ 9)) @ ''Z'')"

section \<open>Reading a time\<close>

text \<open>
  \<^verbatim>\<open>time.Time.UnmarshalJSON\<close>: date, time of day, an optional fraction (digits after the ninth are
  dropped) and a zone, \<^verbatim>\<open>Z\<close> or a numeric offset.  Go falls back to the general parser for texts this one
  rejects, which admits a comma before the fraction and an hour of one digit; no such text is read
  here.
\<close>

definition parse_uint :: "string \<Rightarrow> nat \<Rightarrow> nat \<Rightarrow> nat option" where
  "parse_uint s lo hi = (if list_all is_digit s \<and> lo \<le> dec_val s \<and> dec_val s \<le> hi then Some (dec_val s) else None)"

definition days_from_civil :: "nat \<Rightarrow> nat \<Rightarrow> nat \<Rightarrow> int" where
  "days_from_civil y m d =
     (let c = y div 400 in
      146097 * int c + int (sum_list (map (\<lambda>k. year_days (int k)) [400 * c..<y])) +
      int (sum_list (take (m - 1) (month_days (int y)))) + int d - 1 - 719528)"

definition parse_date :: "string \<Rightarrow> int option" where
  "parse_date s =
     (case (parse_uint (take 4 s) 0 9999, parse_uint (take 2 (drop 5 s)) 1 12) of
        (Some y, Some m) \<Rightarrow>
          map_option (days_from_civil y m) (parse_uint (take 2 (drop 8 s)) 1 (month_days (int y) ! (m - 1)))
      | _ \<Rightarrow> None)"

definition parse_clock :: "string \<Rightarrow> nat option" where
  "parse_clock s =
     (case (parse_uint (take 2 s) 0 23, parse_uint (take 2 (drop 3 s)) 0 59, parse_uint (take 2 (drop 6 s)) 0 59) of
        (Some h, Some m, Some sec) \<Rightarrow> Some (3600 * h + 60 * m + sec)
      | _ \<Rightarrow> None)"

definition parse_fraction :: "string \<Rightarrow> nat \<times> string" where
  "parse_fraction s =
     (if 2 \<le> length s \<and> hd s = CHR ''.'' \<and> is_digit (s ! 1) then
        (let ds = take 9 (takeWhile is_digit (tl s)) in
         (dec_val ds * 10 ^ (9 - length ds), dropWhile is_digit (tl s)))
      else (0, s))"

definition parse_zone :: "string \<Rightarrow> int option" where
  "parse_zone s =
     (if s = ''Z'' then Some 0
      else if length s = 6 \<and> s ! 0 \<in> set ''+-'' \<and> s ! 3 = CHR '':'' then
        (case (parse_uint (take 2 (drop 1 s)) 0 23, parse_uint (take 2 (drop 4 s)) 0 59) of
           (Some h, Some m) \<Rightarrow> Some ((if s ! 0 = CHR ''-'' then -1 else 1) * 60 * int (60 * h + m))
         | _ \<Rightarrow> None)
      else None)"

definition parse_rfc3339 :: "string \<Rightarrow> time option" where
  "parse_rfc3339 s =
     (if length s < 19 \<or> \<not> (s ! 4 = CHR ''-'' \<and> s ! 7 = CHR ''-'' \<and> s ! 10 = CHR ''T'' \<and> s ! 13 = CHR '':'' \<and> s ! 16 = CHR '':'')
      then None
      else
        (case (parse_date (take 10 s), parse_clock (take 8 (drop 11 s)), parse_fraction (drop 19 s)) of
           (Some days, Some secs, ns, zone) \<Rightarrow>
             map_option (\<lambda>off. (days * 86400 + int secs - off) * 10 ^ 9 + int ns) (parse_zone zone)
         | _ \<Rightarrow> None))"

fun dec_time :: "time decoder" where
  "dec_time a JNull = Some a"
| "dec_time a (JStr s) = parse_rfc3339 s"
| "dec_time a _ = None"

end
