(* ===== verification/GoEncoding.thy ===== *)
theory GoEncoding
  imports GoStrings
begin

text \<open>
  \<^verbatim>\<open>encoding/base32\<close> and \<^verbatim>\<open>encoding/base64\<close> without padding: the bits of the bytes, most significant
  first, are cut into groups of \<open>w\<close> bits, the last one filled with zeros, and each group selects a
  character of the alphabet.  \<^verbatim>\<open>io.ReadFull\<close> reads from a source that ends.  None of these definitions
  models a line of the repository.
\<close>

section \<open>Bits\<close>

definition byte_bits :: "char \<Rightarrow> bool list" where
  "byte_bits c = map (\<lambda>i. odd (byte_of c div 2 ^ i)) [7, 6, 5, 4, 3, 2, 1, 0]"

definition bits_val :: "bool list \<Rightarrow> nat" where
  "bits_val bs = foldl (\<lambda>a b. 2 * a + of_bool b) 0 bs"

definition bits :: "string \<Rightarrow> bool list" where
  "bits s = concat (map byte_bits s)"

lemma length_byte_bits [simp]: "length (byte_bits c) = 8"
  by (simp add: byte_bits_def)

lemma length_bits [simp]: "length (bits s) = 8 * length s"
  by (induction s) (simp_all add: bits_def)

lemma bits_val_snoc: "bits_val (bs @ [b]) = 2 * bits_val bs + of_bool b"
  by (simp add: bits_val_def)

lemma bits_val_bound: "bits_val bs < 2 ^ length bs"
  by (induction bs rule: rev_induct) (auto simp: bits_val_snoc bits_val_def)

lemma bits_val_inject: "length bs = length cs \<Longrightarrow> bits_val bs = bits_val cs \<Longrightarrow> bs = cs"
proof (induction bs arbitrary: cs rule: rev_induct)
  case (snoc b bs)
  then obtain ds d where cs: "cs = ds @ [d]" by (cases cs rule: rev_cases) auto
  have "2 * bits_val bs + of_bool b = 2 * bits_val ds + of_bool d"
    using snoc.prems(2) cs by (simp add: bits_val_snoc)
  then have "bits_val bs = bits_val ds \<and> b = d" by (cases b; cases d; simp; presburger)
  with snoc cs show ?case by auto
qed (simp add: bits_val_def)

lemma byte_bits_inject: "byte_bits c = byte_bits d \<Longrightarrow> c = d"
proof -
  have v: "byte_of x = bits_val (byte_bits x)" for x
  proof -
    define n where "n = byte_of x"
    have "n < 256" by (simp add: n_def)
    then have top: "n div 128 mod 2 = n div 128" by (simp add: less_mult_imp_div_less)
    have step: "n div k = 2 * (n div (k * 2)) + n div k mod 2" for k
      by (metis div_mult2_eq mult_div_mod_eq)
    have "n = 128 * (n div 128 mod 2) + 64 * (n div 64 mod 2) + 32 * (n div 32 mod 2) + 16 * (n div 16 mod 2) +
        8 * (n div 8 mod 2) + 4 * (n div 4 mod 2) + 2 * (n div 2 mod 2) + n mod 2"
      using div_mult_mod_eq [of n 2] step [of 2, simplified] step [of 4, simplified] step [of 8, simplified]
        step [of 16, simplified] step [of 32, simplified] step [of 64, simplified] top by linarith
    then show ?thesis
      by (simp add: byte_bits_def bits_val_def of_bool_odd_eq_mod_2 n_def [symmetric])
  qed
  assume "byte_bits c = byte_bits d"
  then have "byte_of c = byte_of d" by (simp add: v)
  then show "c = d" by (simp add: byte_of_inject)
qed

lemma bits_inject: "length s = length t \<Longrightarrow> bits s = bits t \<Longrightarrow> s = t"
  by (induction s t rule: list_induct2) (auto simp: bits_def dest: byte_bits_inject)

section \<open>Groups\<close>

fun groups :: "nat \<Rightarrow> nat \<Rightarrow> bool list \<Rightarrow> bool list list" where
  "groups w 0 bs = []"
| "groups w (Suc n) bs = (take w bs @ replicate (w - length bs) False) # groups w n (drop w bs)"

lemma length_groups [simp]: "length (groups w n bs) = n"
  by (induction n arbitrary: bs) auto

lemma group_length: "g \<in> set (groups w n bs) \<Longrightarrow> length g = w"
  by (induction n arbitrary: bs) auto

lemma groups_inject:
  "length bs = length cs \<Longrightarrow> length bs \<le> w * n \<Longrightarrow> groups w n bs = groups w n cs \<Longrightarrow> bs = cs"
proof (induction n arbitrary: bs cs)
  case (Suc n)
  from Suc.prems have "take w bs = take w cs" by (auto simp: append_eq_append_conv)
  moreover from Suc.prems have "drop w bs = drop w cs" by (intro Suc.IH) auto
  ultimately show ?case by (metis append_take_drop_id)
qed simp

text \<open>The number of groups is the number of bits over \<open>w\<close>, rounded up.\<close>

definition encode_raw :: "string \<Rightarrow> nat \<Rightarrow> string \<Rightarrow> string" where
  "encode_raw alphabet w s =
     map (\<lambda>g. alphabet ! bits_val g) (groups w ((8 * length s + w - 1) div w) (bits s))"

lemma length_encode_raw: "length (encode_raw al w s) = (8 * length s + w - 1) div w"
  by (simp add: encode_raw_def)

lemma set_encode_raw:
  assumes "length al = 2 ^ w" shows "set (encode_raw al w s) \<subseteq> set al"
proof
  fix c assume "c \<in> set (encode_raw al w s)"
  then obtain g where "c = al ! bits_val g" "length g = w"
    by (auto simp: encode_raw_def dest: group_length)
  with bits_val_bound [of g] assms show "c \<in> set al" by simp
qed

lemma encode_raw_inject:
  assumes "distinct al" "length al = 2 ^ w" "0 < w" "length s = length t"
    "encode_raw al w s = encode_raw al w t"
  shows "s = t"
proof -
  let ?n = "(8 * length s + w - 1) div w"
  have "groups w ?n (bits s) = groups w ?n (bits t)"
  proof (rule nth_equalityI)
    fix k assume k: "k < length (groups w ?n (bits s))"
    let ?a = "groups w ?n (bits s) ! k" and ?b = "groups w ?n (bits t) ! k"
    have len: "length ?a = w" "length ?b = w" using k assms(4) by (simp_all add: group_length [OF nth_mem])
    have "al ! bits_val ?a = al ! bits_val ?b"
      using arg_cong [OF assms(5), of "\<lambda>l. l ! k"] k assms(4) by (simp add: encode_raw_def)
    then have "bits_val ?a = bits_val ?b"
      using assms(1,2) len bits_val_bound [of ?a] bits_val_bound [of ?b] by (simp add: nth_eq_iff_index_eq)
    with len show "?a = ?b" by (metis bits_val_inject)
  qed simp
  moreover have "8 * length s \<le> w * ?n"
  proof -
    have "8 * length s + w - 1 < w + w * ?n"
      by (rule dividend_less_times_div [OF assms(3)])
    then show ?thesis using assms(3) by linarith
  qed
  ultimately have "bits s = bits t" using assms(4) by (intro groups_inject) simp_all
  with assms(4) show ?thesis by (rule bits_inject)
qed

section \<open>Alphabets\<close>

definition base64_std :: string where
  "base64_std = ''ABCDEFGHIJKLMNOPQRSTUVWXYZabcdefghijklmnopqrstuvwxyz0123456789+/''"

definition base64_url :: string where
  "base64_url = ''ABCDEFGHIJKLMNOPQRSTUVWXYZabcdefghijklmnopqrstuvwxyz0123456789-_''"

lemma base64_alphabets:
  "length base64_std = 2 ^ 6" "distinct base64_std" "length base64_url = 2 ^ 6" "distinct base64_url"
  by (simp_all add: base64_std_def base64_url_def)

section \<open>Padded base64\<close>

text \<open>
  \<^verbatim>\<open>base64.StdEncoding\<close>: three bytes make four characters, a short last group is padded with equals
  signs.  Decoding skips line breaks, wants whole groups of four and padding at the very end only, and
  ignores the unused bits before padding.
\<close>

definition b64_char :: "nat \<Rightarrow> char" where
  "b64_char n = base64_std ! (n mod 64)"

fun std_encode :: "string \<Rightarrow> string" where
  "std_encode [] = []"
| "std_encode [a] =
     (let v = byte_of a * 65536 in [b64_char (v div 262144), b64_char (v div 4096), CHR ''='', CHR ''=''])"
| "std_encode [a, b] =
     (let v = byte_of a * 65536 + byte_of b * 256 in
      [b64_char (v div 262144), b64_char (v div 4096), b64_char (v div 64), CHR ''=''])"
| "std_encode (a # b # c # r) =
     (let v = byte_of a * 65536 + byte_of b * 256 + byte_of c in
      [b64_char (v div 262144), b64_char (v div 4096), b64_char (v div 64), b64_char v] @ std_encode r)"

definition b64_index :: "char \<Rightarrow> nat option" where
  "b64_index c = (let n = length (takeWhile (\<lambda>x. x \<noteq> c) base64_std) in if n < 64 then Some n else None)"

fun std_groups :: "string \<Rightarrow> string option" where
  "std_groups [] = Some []"
| "std_groups (a # b # c # d # r) =
     (case (b64_index a, b64_index b) of
        (Some x, Some y) \<Rightarrow>
          (if c = CHR ''='' then
             (if d = CHR ''='' \<and> r = [] then Some [chr_of ((x * 262144 + y * 4096) div 65536)] else None)
           else
             (case b64_index c of
                None \<Rightarrow> None
              | Some z \<Rightarrow>
                  let v = x * 262144 + y * 4096 + z * 64 in
                  if d = CHR ''='' then
                    (if r = [] then Some [chr_of (v div 65536), chr_of (v div 256 mod 256)] else None)
                  else
                    (case b64_index d of
                       None \<Rightarrow> None
                     | Some w \<Rightarrow>
                         map_option (\<lambda>t. [chr_of ((v + w) div 65536), chr_of ((v + w) div 256 mod 256),
                           chr_of ((v + w) mod 256)] @ t) (std_groups r))))
      | _ \<Rightarrow> None)"
| "std_groups _ = None"

definition std_decode :: "string \<Rightarrow> string option" where
  "std_decode s = std_groups (filter (\<lambda>c. c \<noteq> CHR 0x0A \<and> c \<noteq> CHR 0x0D) s)"

lemma b64_index_char: "n < 64 \<Longrightarrow> b64_index (b64_char n) = Some n"
proof -
  assume n: "n < 64"
  have d: "length base64_std = 64" "distinct base64_std" using base64_alphabets(1,2) by simp_all
  let ?xs = "base64_std"
  have "?xs = take n ?xs @ ?xs ! n # drop (Suc n) ?xs" using n d(1) by (simp add: id_take_nth_drop)
  moreover have "\<forall>x \<in> set (take n ?xs). x \<noteq> ?xs ! n"
    using n d by (auto simp: in_set_conv_nth nth_eq_iff_index_eq)
  ultimately have "takeWhile (\<lambda>x. x \<noteq> ?xs ! n) ?xs = take n ?xs"
    by (metis (mono_tags, lifting) takeWhile_append_stop)
  with n d(1) show ?thesis by (simp add: b64_index_def b64_char_def)
qed

lemma b64_char_mem: "b64_char n \<in> set base64_std"
  using base64_alphabets(1) by (simp add: b64_char_def)

lemma b64_char_plain [simp]: "b64_char n \<noteq> CHR ''=''" "b64_char n \<noteq> CHR 0x0A" "b64_char n \<noteq> CHR 0x0D"
  using b64_char_mem [of n] by (auto simp: base64_std_def)

lemma b64_index_mod [simp]: "b64_index (b64_char n) = Some (n mod 64)"
proof -
  have "b64_char n = b64_char (n mod 64)" by (simp add: b64_char_def)
  then show ?thesis by (simp only: b64_index_char mod_less_divisor zero_less_numeral)
qed

lemma sextets:
  fixes v :: nat
  shows "v div 262144 * 262144 + v div 4096 mod 64 * 4096 + v div 64 mod 64 * 64 + v mod 64 = v"
proof -
  have d: "v div 4096 = v div 64 div 64" "v div 262144 = v div 64 div 64 div 64"
    by (simp_all flip: div_mult2_eq)
  have "v = v div 64 * 64 + v mod 64" "v div 64 = v div 64 div 64 * 64 + v div 64 mod 64"
    "v div 64 div 64 = v div 64 div 64 div 64 * 64 + v div 64 div 64 mod 64" by simp_all
  then show ?thesis unfolding d by linarith
qed

lemma octets:
  assumes "v = byte_of a * 65536 + byte_of b * 256 + byte_of c"
  shows "chr_of (v div 65536) = a" "chr_of (v div 256 mod 256) = b" "chr_of (v mod 256) = c"
proof -
  have l: "byte_of a < 256" "byte_of b < 256" "byte_of c < 256" by simp_all
  then have "v div 65536 = byte_of a" "v div 256 = byte_of a * 256 + byte_of b" using l assms by linarith+
  moreover have "v = byte_of c + (byte_of a * 256 + byte_of b) * 256" using assms by simp
  then have "v mod 256 = byte_of c" by (simp only: mod_mult_self1) simp
  ultimately
  show "chr_of (v div 65536) = a" "chr_of (v div 256 mod 256) = b" "chr_of (v mod 256) = c"
    by (simp_all add: chr_of_byte_of)
qed

lemma byte_of_NUL [simp]: "byte_of (CHR 0x00) = 0"
  by (simp add: byte_of_def)

lemma std_groups_encode: "std_groups (std_encode s) = Some s"
proof (induction s rule: std_encode.induct)
  case (2 a)
  let ?v = "byte_of a * 65536"
  have v: "?v = byte_of a * 65536 + byte_of (CHR 0x00) * 256 + byte_of (CHR 0x00)" by simp
  have e: "?v = 64 * (64 * (16 * byte_of a))" by simp
  have "?v div 64 mod 64 = 0" "?v mod 64 = 0"
    unfolding e by (simp_all only: nonzero_mult_div_cancel_left mod_mult_self1_is_0 numeral_neq_zero not_False_eq_True)
  with sextets [of ?v] have "?v div 262144 * 262144 + ?v div 4096 mod 64 * 4096 = ?v" by linarith
  moreover have "byte_of a div 4 < 64" using byte_of_less [of a] by linarith
  then have "byte_of a div 4 mod 64 = byte_of a div 4" by simp
  ultimately show ?case using octets(1) [OF v] by (simp add: Let_def)
next
  case (3 a b)
  let ?v = "byte_of a * 65536 + byte_of b * 256"
  have v: "?v = byte_of a * 65536 + byte_of b * 256 + byte_of (CHR 0x00)" by simp
  have e: "?v = 64 * (1024 * byte_of a + 4 * byte_of b)" by simp
  have "?v mod 64 = 0" unfolding e by (simp only: mod_mult_self1_is_0)
  with sextets [of ?v]
  have "?v div 262144 * 262144 + ?v div 4096 mod 64 * 4096 + ?v div 64 mod 64 * 64 = ?v" by linarith
  moreover have "?v div 262144 < 64" using byte_of_less [of a] byte_of_less [of b] by linarith
  then have "?v div 262144 mod 64 = ?v div 262144" by simp
  ultimately show ?case using octets(1,2) [OF v] by (simp add: Let_def)
next
  case (4 a b c r)
  obtain v where v: "v = byte_of a * 65536 + byte_of b * 256 + byte_of c" by blast
  then have e: "std_encode (a # b # c # r) =
      [b64_char (v div 262144), b64_char (v div 4096), b64_char (v div 64), b64_char v] @ std_encode r"
    by (simp only: std_encode.simps Let_def)
  have "v div 262144 < 64" using v byte_of_less [of a] byte_of_less [of b] byte_of_less [of c] by linarith
  then have "v div 262144 mod 64 = v div 262144" by simp
  with sextets [of v] octets [OF v] 4 show ?case unfolding e by (simp add: Let_def)
qed simp

lemma std_encode_plain: "filter (\<lambda>c. c \<noteq> CHR 0x0A \<and> c \<noteq> CHR 0x0D) (std_encode s) = std_encode s"
  by (induction s rule: std_encode.induct) (simp_all add: Let_def)

lemma std_decode_encode: "std_decode (std_encode s) = Some s"
  by (simp add: std_decode_def std_encode_plain std_groups_encode)

section \<open>Reading\<close>

definition read_full :: "nat \<Rightarrow> string \<Rightarrow> string result \<times> string" where
  "read_full n r =
     (if n \<le> length r then (Inr (take n r), drop n r)
      else (Inl (LibError (if r = [] then ''EOF'' else ''unexpected EOF'')), []))"

end
