(* ===== verification/PgStore.thy ===== *)
theory PgStore
  imports PgCall GoTime GoEncoding
begin

text \<open>
  The production store of \<^verbatim>\<open>internal/registrydb/repo.go\<close>: each method encodes its arguments, makes its
  procedure call and decodes the data.  A decoder starts from the zero value of the Go type.
\<close>

section \<open>Decoding rows\<close>

definition zero_ClientFull :: ClientFull where
  "zero_ClientFull = \<lparr>cf_ID = [], cf_Name = [], cf_Status = [], cf_RegistryURI = [], cf_ClientIdentifier = [],
     cf_DefaultWebhook = [], cf_AllowedOrigins = [], cf_Policy = RawNil, cf_Slug = [], cf_WRPDocument = RawNil,
     cf_ContactEmails = []\<rparr>"

definition dec_ClientFull :: "ClientFull decoder" where
  "dec_ClientFull = dec_members
     [member ''id'' dec_string cf_ID (\<lambda>v. cf_ID_update (\<lambda>_. v)),
      member ''name'' dec_string cf_Name (\<lambda>v. cf_Name_update (\<lambda>_. v)),
      member ''status'' dec_string cf_Status (\<lambda>v. cf_Status_update (\<lambda>_. v)),
      member ''registry_uri'' dec_string cf_RegistryURI (\<lambda>v. cf_RegistryURI_update (\<lambda>_. v)),
      member ''client_identifier'' dec_string cf_ClientIdentifier (\<lambda>v. cf_ClientIdentifier_update (\<lambda>_. v)),
      member ''default_webhook_url'' dec_string cf_DefaultWebhook (\<lambda>v. cf_DefaultWebhook_update (\<lambda>_. v)),
      member ''allowed_origins'' (dec_list [] dec_string) cf_AllowedOrigins (\<lambda>v. cf_AllowedOrigins_update (\<lambda>_. v)),
      member ''policy'' dec_raw cf_Policy (\<lambda>v. cf_Policy_update (\<lambda>_. v)),
      member ''slug'' dec_string cf_Slug (\<lambda>v. cf_Slug_update (\<lambda>_. v)),
      member ''wrp_document'' dec_raw cf_WRPDocument (\<lambda>v. cf_WRPDocument_update (\<lambda>_. v)),
      member ''contact_emails'' (dec_list [] dec_string) cf_ContactEmails (\<lambda>v. cf_ContactEmails_update (\<lambda>_. v))]"

definition zero_ClientSummary :: ClientSummary where
  "zero_ClientSummary = \<lparr>cs_ID = [], cs_Name = [], cs_Status = [], cs_Slug = [], cs_UpdatedAt = zero_time\<rparr>"

definition dec_ClientSummary :: "ClientSummary decoder" where
  "dec_ClientSummary = dec_members
     [member ''id'' dec_string cs_ID (\<lambda>v. cs_ID_update (\<lambda>_. v)),
      member ''name'' dec_string cs_Name (\<lambda>v. cs_Name_update (\<lambda>_. v)),
      member ''status'' dec_string cs_Status (\<lambda>v. cs_Status_update (\<lambda>_. v)),
      member ''slug'' dec_string cs_Slug (\<lambda>v. cs_Slug_update (\<lambda>_. v)),
      member ''updated_at'' dec_time cs_UpdatedAt (\<lambda>v. cs_UpdatedAt_update (\<lambda>_. v))]"

definition zero_RegisteredCredentialJSON :: RegisteredCredentialJSON where
  "zero_RegisteredCredentialJSON =
     \<lparr>rc_Format = [], rc_DoctypesOrVCTs = [], rc_AllClaims = False, rc_Claims = []\<rparr>"

definition dec_RegisteredCredentialJSON :: "RegisteredCredentialJSON decoder" where
  "dec_RegisteredCredentialJSON = dec_members
     [member ''format'' dec_string rc_Format (\<lambda>v. rc_Format_update (\<lambda>_. v)),
      member ''doctypes_or_vcts'' (dec_list [] dec_string) rc_DoctypesOrVCTs (\<lambda>v. rc_DoctypesOrVCTs_update (\<lambda>_. v)),
      member ''all_claims'' dec_bool rc_AllClaims (\<lambda>v. rc_AllClaims_update (\<lambda>_. v)),
      member ''claims'' (dec_list [] (dec_list JNull dec_any)) rc_Claims (\<lambda>v. rc_Claims_update (\<lambda>_. v))]"

definition zero_IntendedUse :: IntendedUse where
  "zero_IntendedUse = \<lparr>iu_ID = [], iu_IntendedUseID = [], iu_Purpose = RawNil, iu_Credentials = [], iu_RevokedAt = []\<rparr>"

definition dec_IntendedUse :: "IntendedUse decoder" where
  "dec_IntendedUse = dec_members
     [member ''id'' dec_string iu_ID (\<lambda>v. iu_ID_update (\<lambda>_. v)),
      member ''intended_use_id'' dec_string iu_IntendedUseID (\<lambda>v. iu_IntendedUseID_update (\<lambda>_. v)),
      member ''purpose'' dec_raw iu_Purpose (\<lambda>v. iu_Purpose_update (\<lambda>_. v)),
      member ''credentials'' (dec_list zero_RegisteredCredentialJSON dec_RegisteredCredentialJSON) iu_Credentials
        (\<lambda>v. iu_Credentials_update (\<lambda>_. v)),
      member ''revoked_at'' dec_string iu_RevokedAt (\<lambda>v. iu_RevokedAt_update (\<lambda>_. v))]"

definition zero_Evidence :: Evidence where
  "zero_Evidence = \<lparr>ev_ID = [], ev_Filename = [], ev_Mime = [], ev_SHA256 = [], ev_SizeBytes = 0, ev_CreatedAt = zero_time\<rparr>"

definition dec_Evidence :: "Evidence decoder" where
  "dec_Evidence = dec_members
     [member ''id'' dec_string ev_ID (\<lambda>v. ev_ID_update (\<lambda>_. v)),
      member ''filename'' dec_string ev_Filename (\<lambda>v. ev_Filename_update (\<lambda>_. v)),
      member ''mime'' dec_string ev_Mime (\<lambda>v. ev_Mime_update (\<lambda>_. v)),
      member ''sha256'' dec_string ev_SHA256 (\<lambda>v. ev_SHA256_update (\<lambda>_. v)),
      member ''size_bytes'' dec_int64 ev_SizeBytes (\<lambda>v. ev_SizeBytes_update (\<lambda>_. v)),
      member ''created_at'' dec_time ev_CreatedAt (\<lambda>v. ev_CreatedAt_update (\<lambda>_. v))]"

definition zero_AuditEntry :: AuditEntry where
  "zero_AuditEntry = \<lparr>ae_ID = [], ae_At = zero_time, ae_Actor = [], ae_ClientID = [], ae_Action = [], ae_Detail = RawNil\<rparr>"

definition dec_AuditEntry :: "AuditEntry decoder" where
  "dec_AuditEntry = dec_members
     [member ''id'' dec_string ae_ID (\<lambda>v. ae_ID_update (\<lambda>_. v)),
      member ''at'' dec_time ae_At (\<lambda>v. ae_At_update (\<lambda>_. v)),
      member ''actor'' dec_string ae_Actor (\<lambda>v. ae_Actor_update (\<lambda>_. v)),
      member ''client_id'' dec_string ae_ClientID (\<lambda>v. ae_ClientID_update (\<lambda>_. v)),
      member ''action'' dec_string ae_Action (\<lambda>v. ae_Action_update (\<lambda>_. v)),
      member ''detail'' dec_raw ae_Detail (\<lambda>v. ae_Detail_update (\<lambda>_. v))]"

definition zero_DeletionRequest :: DeletionRequest where
  "zero_DeletionRequest = \<lparr>dr_ID = [], dr_ClientID = [], dr_SessionID = [], dr_AttributeNames = [], dr_RequestedAt = zero_time\<rparr>"

definition dec_DeletionRequest :: "DeletionRequest decoder" where
  "dec_DeletionRequest = dec_members
     [member ''id'' dec_string dr_ID (\<lambda>v. dr_ID_update (\<lambda>_. v)),
      member ''client_id'' dec_string dr_ClientID (\<lambda>v. dr_ClientID_update (\<lambda>_. v)),
      member ''session_id'' dec_string dr_SessionID (\<lambda>v. dr_SessionID_update (\<lambda>_. v)),
      member ''attribute_names'' (dec_list [] dec_string) dr_AttributeNames (\<lambda>v. dr_AttributeNames_update (\<lambda>_. v)),
      member ''requested_at'' dec_time dr_RequestedAt (\<lambda>v. dr_RequestedAt_update (\<lambda>_. v))]"

section \<open>Encoding rows\<close>

definition strings_json :: "string list \<Rightarrow> json" where
  "strings_json ss = JArr (map JStr ss)"

definition enc_RegisteredCredentialJSON :: "RegisteredCredentialJSON \<Rightarrow> json" where
  "enc_RegisteredCredentialJSON c = JObj
     ([(''format'', JStr (rc_Format c)), (''doctypes_or_vcts'', strings_json (rc_DoctypesOrVCTs c)),
       (''all_claims'', JBool (rc_AllClaims c))] @
      (if rc_Claims c = [] then [] else [(''claims'', JArr (map JArr (rc_Claims c)))]))"

definition enc_IntendedUse :: "IntendedUse \<Rightarrow> json option" where
  "enc_IntendedUse iu = map_option (\<lambda>purpose. JObj
     ([(''id'', JStr (iu_ID iu)), (''intended_use_id'', JStr (iu_IntendedUseID iu)), (''purpose'', purpose),
       (''credentials'', JArr (map enc_RegisteredCredentialJSON (iu_Credentials iu)))] @
      omitempty_str ''revoked_at'' (iu_RevokedAt iu))) (marshal_raw (iu_Purpose iu))"

definition enc_IntendedUses :: "IntendedUse list \<Rightarrow> json option" where
  "enc_IntendedUses ius = map_option JArr (those (map enc_IntendedUse ius))"

section \<open>Results\<close>

text \<open>\<^verbatim>\<open>_, err := call(...); return err\<close>, and \<^verbatim>\<open>json.Unmarshal(data, &out)\<close> after a call.\<close>

definition only_error :: "raw result \<times> 's \<Rightarrow> unit result \<times> 's" where
  "only_error p = (case p of (Inl e, s) \<Rightarrow> (Inl e, s) | (Inr _, s) \<Rightarrow> (Inr (), s))"

definition decoded :: "'a decoder \<Rightarrow> 'a \<Rightarrow> raw result \<times> 's \<Rightarrow> 'a result \<times> 's" where
  "decoded dec z p =
     (case p of
        (Inl e, s) \<Rightarrow> (Inl e, s)
      | (Inr data, s) \<Rightarrow>
          (case unmarshal dec z data of
             None \<Rightarrow> (Inl (LibError ''json.Unmarshal''), s)
           | Some v \<Rightarrow> (Inr v, s)))"

text \<open>An anonymous struct with one field.\<close>

definition dec_one :: "string \<Rightarrow> 'a decoder \<Rightarrow> 'a decoder" where
  "dec_one name dec = dec_members [member name dec (\<lambda>u. u) (\<lambda>v _. v)]"

section \<open>The methods\<close>

definition PG_TransitionClient ::
  "'s db \<Rightarrow> string \<Rightarrow> string \<Rightarrow> string \<Rightarrow> string \<Rightarrow> string \<Rightarrow> 's \<Rightarrow> unit result \<times> 's" where
  "PG_TransitionClient db clientID toState actor evidenceRef reason s =
     only_error (call db ''registry.transition_client''
       (marshal_strings [(''client_id'', clientID), (''to_state'', toState), (''actor'', actor),
          (''evidence_ref'', evidenceRef), (''reason'', reason)]) s)"

definition PG_GetClientFull :: "'s db \<Rightarrow> string \<Rightarrow> 's \<Rightarrow> ClientFull result \<times> 's" where
  "PG_GetClientFull db clientID s =
     decoded dec_ClientFull zero_ClientFull
       (call db ''registry.get_client_full'' (marshal_strings [(''client_id'', clientID)]) s)"

definition PG_ListClientsByState :: "'s db \<Rightarrow> 's \<Rightarrow> ClientSummary list gomap result \<times> 's" where
  "PG_ListClientsByState db s =
     (case decoded (dec_one ''clients'' (dec_list zero_ClientSummary dec_ClientSummary)) []
             (call db ''registry.list_clients_by_state'' (marshal_strings []) s) of
        (Inl e, s) \<Rightarrow> (Inl e, s)
      | (Inr cs, s) \<Rightarrow> (Inr (group_by_status cs), s))"

definition PG_CreateDraftClient :: "'s db \<Rightarrow> string \<Rightarrow> string \<Rightarrow> string \<Rightarrow> 's \<Rightarrow> string result \<times> 's" where
  "PG_CreateDraftClient db name email actor s =
     (let inp = [(''name'', name), (''actor'', actor)];
          inp = (if email \<noteq> [] then inp @ [(''email'', email)] else inp)
      in decoded (dec_one ''id'' dec_string) []
           (call db ''registry.create_draft_client'' (marshal_strings inp) s))"

definition PG_SetClientRegistrarIdentity ::
  "'s db \<Rightarrow> string \<Rightarrow> string \<Rightarrow> string \<Rightarrow> string \<Rightarrow> 's \<Rightarrow> unit result \<times> 's" where
  "PG_SetClientRegistrarIdentity db clientID registryURI clientIdentifier actor s =
     only_error (call db ''registry.set_client_registrar_identity''
       (marshal_strings [(''client_id'', clientID), (''registry_uri'', registryURI),
          (''client_identifier'', clientIdentifier), (''actor'', actor)]) s)"

definition PG_SetClientWebhook :: "'s db \<Rightarrow> string \<Rightarrow> string \<Rightarrow> string \<Rightarrow> 's \<Rightarrow> unit result \<times> 's" where
  "PG_SetClientWebhook db clientID webhookURL actor s =
     only_error (call db ''registry.set_client_webhook''
       (marshal_strings [(''client_id'', clientID), (''webhook_url'', webhookURL), (''actor'', actor)]) s)"

definition PG_SetClientAllowedOrigins :: "'s db \<Rightarrow> string \<Rightarrow> string list \<Rightarrow> string \<Rightarrow> 's \<Rightarrow> unit result \<times> 's" where
  "PG_SetClientAllowedOrigins db clientID origins actor s =
     only_error (call db ''registry.set_client_allowed_origins''
       (marshal_entries [(''client_id'', Some (JStr clientID)),
          (''allowed_origins'', Some (strings_json origins)), (''actor'', Some (JStr actor))]) s)"

definition PG_SetClientDCAPIMode :: "'s db \<Rightarrow> string \<Rightarrow> string \<Rightarrow> string \<Rightarrow> 's \<Rightarrow> unit result \<times> 's" where
  "PG_SetClientDCAPIMode db clientID mode actor s =
     only_error (call db ''registry.set_client_dcapi_mode''
       (marshal_strings [(''client_id'', clientID), (''mode'', mode), (''actor'', actor)]) s)"

definition PG_CreateAPIKey :: "'s db \<Rightarrow> string \<Rightarrow> string \<Rightarrow> string \<Rightarrow> 's \<Rightarrow> unit result \<times> 's" where
  "PG_CreateAPIKey db clientID prefix secretHash s =
     only_error (call db ''registry.create_api_key''
       (marshal_strings [(''client_id'', clientID), (''prefix'', prefix), (''secret_hash'', secretHash)]) s)"

definition PG_SaveWRPDocument ::
  "'s db \<Rightarrow> string \<Rightarrow> raw \<Rightarrow> IntendedUse list \<Rightarrow> string \<Rightarrow> 's \<Rightarrow> unit result \<times> 's" where
  "PG_SaveWRPDocument db clientID doc ius actor s =
     only_error (call db ''registry.save_wrp_document''
       (marshal_entries [(''client_id'', Some (JStr clientID)), (''doc'', marshal_raw doc),
          (''intended_uses'', enc_IntendedUses ius), (''actor'', Some (JStr actor))]) s)"

definition PG_ListIntendedUses :: "'s db \<Rightarrow> string \<Rightarrow> 's \<Rightarrow> IntendedUse list result \<times> 's" where
  "PG_ListIntendedUses db clientID s =
     decoded (dec_one ''intended_uses'' (dec_list zero_IntendedUse dec_IntendedUse)) []
       (call db ''registry.list_intended_uses'' (marshal_strings [(''client_id'', clientID)]) s)"

definition PG_AppendAudit :: "'s db \<Rightarrow> string \<Rightarrow> string \<Rightarrow> string \<Rightarrow> raw \<Rightarrow> 's \<Rightarrow> unit result \<times> 's" where
  "PG_AppendAudit db actor clientID action detail s =
     (let detail = (if detail = RawNil then RawJSON (JObj []) else detail);
          inp = [(''actor'', Some (JStr actor)), (''action'', Some (JStr action)), (''detail'', marshal_raw detail)];
          inp = (if clientID \<noteq> [] then inp @ [(''client_id'', Some (JStr clientID))] else inp)
      in only_error (call db ''audit.append'' (marshal_entries inp) s))"

definition PG_SetIntendedUses :: "'s db \<Rightarrow> string \<Rightarrow> IntendedUse list \<Rightarrow> string \<Rightarrow> 's \<Rightarrow> unit result \<times> 's" where
  "PG_SetIntendedUses db clientID ius actor s =
     (case call db ''registry.set_intended_uses''
             (marshal_entries [(''client_id'', Some (JStr clientID)), (''intended_uses'', enc_IntendedUses ius)]) s of
        (Inl e, s) \<Rightarrow> (Inl e, s)
      | (Inr _, s) \<Rightarrow>
          PG_AppendAudit db actor clientID ''client.set_intended_uses''
            (RawJSON (marshal_map [(''intended_use_count'', JNum (int (length ius)))])) s)"

definition PG_AddEvidence ::
  "'s db \<Rightarrow> string \<Rightarrow> Evidence \<Rightarrow> bytes \<Rightarrow> string \<Rightarrow> 's \<Rightarrow> (string \<times> Evidence) result \<times> 's" where
  "PG_AddEvidence db clientID e content actor s =
     (case decoded (dec_members [member ''id'' dec_string fst (\<lambda>v p. (v, snd p)),
                                 member ''created_at'' dec_time snd (\<lambda>v p. (fst p, v))]) ([], zero_time)
             (call db ''registry.add_evidence''
                (marshal_entries [(''client_id'', Some (JStr clientID)), (''filename'', Some (JStr (ev_Filename e))),
                   (''mime'', Some (JStr (ev_Mime e))), (''sha256'', Some (JStr (ev_SHA256 e))),
                   (''size_bytes'', Some (JNum (ev_SizeBytes e))), (''content'', Some (JStr (std_encode content))),
                   (''uploaded_by'', Some (JStr actor)), (''actor'', Some (JStr actor))]) s) of
        (Inl err, s) \<Rightarrow> (Inl err, s)
      | (Inr (i, t), s) \<Rightarrow> (Inr (i, e\<lparr>ev_ID := i, ev_CreatedAt := t\<rparr>), s))"

definition PG_ListEvidence :: "'s db \<Rightarrow> string \<Rightarrow> 's \<Rightarrow> Evidence list result \<times> 's" where
  "PG_ListEvidence db clientID s =
     decoded (dec_one ''evidence'' (dec_list zero_Evidence dec_Evidence)) []
       (call db ''registry.list_evidence'' (marshal_strings [(''client_id'', clientID)]) s)"

definition PG_GetEvidenceContent :: "'s db \<Rightarrow> string \<Rightarrow> string \<Rightarrow> 's \<Rightarrow> (bytes \<times> string) result \<times> 's" where
  "PG_GetEvidenceContent db clientID evidenceID s =
     (case decoded (dec_members [member ''content'' dec_string fst (\<lambda>v p. (v, snd p)),
                                 member ''mime'' dec_string snd (\<lambda>v p. (fst p, v))]) ([], [])
             (call db ''registry.get_evidence_content''
                (marshal_strings [(''client_id'', clientID), (''evidence_id'', evidenceID)]) s) of
        (Inl err, s) \<Rightarrow> (Inl err, s)
      | (Inr (content, mime), s) \<Rightarrow>
          (case std_decode content of
             None \<Rightarrow> (Inl (Errorf [Txt ''registrydb: decode evidence content: '', Wrapped (LibError ''base64.DecodeString'')]), s)
           | Some rawContent \<Rightarrow> (Inr (rawContent, mime), s)))"

definition PG_ListAuditEntries :: "'s db \<Rightarrow> string \<Rightarrow> int \<Rightarrow> 's \<Rightarrow> AuditEntry list result \<times> 's" where
  "PG_ListAuditEntries db clientID limit s =
     decoded (dec_one ''entries'' (dec_list zero_AuditEntry dec_AuditEntry)) []
       (call db ''audit.list_entries''
          (marshal_entries [(''client_id'', Some (JStr clientID)), (''limit'', Some (JNum limit))]) s)"

definition PG_LogDeletionRequest :: "'s db \<Rightarrow> string \<Rightarrow> string \<Rightarrow> string list \<Rightarrow> 's \<Rightarrow> string result \<times> 's" where
  "PG_LogDeletionRequest db clientID sessionID attributeNames s =
     decoded (dec_one ''id'' dec_string) []
       (call db ''audit.log_deletion_request''
          (marshal_entries [(''client_id'', Some (JStr clientID)), (''session_id'', Some (JStr sessionID)),
             (''attribute_names'', Some (strings_json attributeNames))]) s)"

definition PG_ListDeletionRequests :: "'s db \<Rightarrow> string \<Rightarrow> int \<Rightarrow> 's \<Rightarrow> DeletionRequest list result \<times> 's" where
  "PG_ListDeletionRequests db clientID limit s =
     decoded (dec_one ''requests'' (dec_list zero_DeletionRequest dec_DeletionRequest)) []
       (call db ''audit.list_deletion_requests''
          (marshal_entries [(''client_id'', Some (JStr clientID)), (''limit'', Some (JNum limit))]) s)"

definition PG_PurgeOffboarded :: "'s db \<Rightarrow> string \<Rightarrow> string \<Rightarrow> 's \<Rightarrow> unit result \<times> 's" where
  "PG_PurgeOffboarded db clientID actor s =
     only_error (call db ''registry.purge_offboarded''
       (marshal_strings [(''client_id'', clientID), (''actor'', actor)]) s)"

text \<open>\<^verbatim>\<open>NewPG(pool)\<close> as a \<open>Store\<close>.\<close>

definition PGStore :: "'s db \<Rightarrow> 's Store" where
  "PGStore db =
     \<lparr>TransitionClient = PG_TransitionClient db, GetClientFull = PG_GetClientFull db,
      ListClientsByState = PG_ListClientsByState db, CreateDraftClient = PG_CreateDraftClient db,
      SetClientRegistrarIdentity = PG_SetClientRegistrarIdentity db,
      SetClientWebhook = PG_SetClientWebhook db,
      SetClientAllowedOrigins = PG_SetClientAllowedOrigins db,
      SetClientDCAPIMode = PG_SetClientDCAPIMode db, CreateAPIKey = PG_CreateAPIKey db,
      SaveWRPDocument = PG_SaveWRPDocument db, ListIntendedUses = PG_ListIntendedUses db,
      SetIntendedUses = PG_SetIntendedUses db, AddEvidence = PG_AddEvidence db,
      ListEvidence = PG_ListEvidence db, GetEvidenceContent = PG_GetEvidenceContent db,
      AppendAudit = PG_AppendAudit db, ListAuditEntries = PG_ListAuditEntries db,
      LogDeletionRequest = PG_LogDeletionRequest db,
      ListDeletionRequests = PG_ListDeletionRequests db, PurgeOffboarded = PG_PurgeOffboarded db\<rparr>"

lemmas pg_defs =
  PG_TransitionClient_def PG_GetClientFull_def PG_ListClientsByState_def PG_CreateDraftClient_def
  PG_SetClientRegistrarIdentity_def PG_SetClientWebhook_def PG_SetClientAllowedOrigins_def
  PG_SetClientDCAPIMode_def PG_CreateAPIKey_def PG_SaveWRPDocument_def PG_ListIntendedUses_def
  PG_AppendAudit_def PG_SetIntendedUses_def PG_AddEvidence_def PG_ListEvidence_def
  PG_GetEvidenceContent_def PG_ListAuditEntries_def PG_LogDeletionRequest_def
  PG_ListDeletionRequests_def PG_PurgeOffboarded_def

lemma PGStore_sel [simp]:
  "TransitionClient (PGStore db) = PG_TransitionClient db"
  "GetClientFull (PGStore db) = PG_GetClientFull db"
  "ListIntendedUses (PGStore db) = PG_ListIntendedUses db"
  "PurgeOffboarded (PGStore db) = PG_PurgeOffboarded db"
  by (simp_all add: PGStore_def)

end
