(* ===== verification/Fake.thy ===== *)
theory Fake
  imports Registry "HOL-Library.Product_Lexorder"
begin

text \<open>
  \<^verbatim>\<open>internal/registrydb/fake.go\<close>: the in-memory store.  The state record has the fields of the Go
  struct (the mutex apart: every method holds it from its first access to its return, so a method
  is one atomic step), and the process clock the methods read: \<open>fk_clock n\<close> is the \<open>n\<close>-th reading of
  \<^verbatim>\<open>time.Now().UTC()\<close> and \<open>fk_ticks\<close> the number of readings so far.  A method the Go code declares
  on \<^verbatim>\<open>*Fake\<close> is the definition of the same name with the prefix \<open>Fake_\<close>.
\<close>

section \<open>State\<close>

record fakeEvidence =
  fe_Evidence :: Evidence
  fe_ClientID :: string
  fe_Content :: bytes

record FakeAPIKey =
  ak_Prefix :: string
  ak_SecretHash :: string

type_synonym AuditLogEntry = AuditEntry

record fake =
  clients :: "ClientFull gomap"
  clientUpdatedAt :: "time gomap"
  intendedUses :: "IntendedUse gomap gomap"
  intendedUseOrder :: "string list gomap"
  evidence :: "fakeEvidence gomap"
  auditLog :: "AuditLogEntry list"
  deletionRequests :: "DeletionRequest list gomap"
  apiKeys :: "FakeAPIKey list gomap"
  seq :: nat
  fk_clock :: "nat \<Rightarrow> time"
  fk_ticks :: nat

definition NewFake :: "(nat \<Rightarrow> time) \<Rightarrow> fake" where
  "NewFake clk = \<lparr>clients = [], clientUpdatedAt = [], intendedUses = [], intendedUseOrder = [],
     evidence = [], auditLog = [], deletionRequests = [], apiKeys = [], seq = 0,
     fk_clock = clk, fk_ticks = 0\<rparr>"

definition now_utc :: "fake \<Rightarrow> time \<times> fake" where
  "now_utc f = (fk_clock f (fk_ticks f), f\<lparr>fk_ticks := Suc (fk_ticks f)\<rparr>)"

definition fakeID :: "nat \<Rightarrow> string" where
  "fakeID n = ''01JZXREGDBFAKE'' @ pad0 12 (nat_dec n)"

definition nextID :: "fake \<Rightarrow> string \<times> fake" where
  "nextID f = (let f = f\<lparr>seq := seq f + 1\<rparr> in (fakeID (seq f), f))"

definition emptyDetail :: "raw \<Rightarrow> raw" where
  "emptyDetail d = (case d of RawNil \<Rightarrow> RawJSON (JObj []) | _ \<Rightarrow> d)"

definition audit :: "string \<Rightarrow> string \<Rightarrow> string \<Rightarrow> raw \<Rightarrow> fake \<Rightarrow> fake" where
  "audit actor clientID action detail f =
     (let (i, f) = nextID f; (t, f) = now_utc f in
      f\<lparr>auditLog := auditLog f @
          [\<lparr>ae_ID = i, ae_At = t, ae_Actor = actor, ae_ClientID = clientID, ae_Action = action,
            ae_Detail = emptyDetail detail\<rparr>]\<rparr>)"

definition touch :: "string \<Rightarrow> fake \<Rightarrow> fake" where
  "touch clientID f =
     (let (t, f) = now_utc f in f\<lparr>clientUpdatedAt := AList.update clientID t (clientUpdatedAt f)\<rparr>)"

definition put_client :: "string \<Rightarrow> ClientFull \<Rightarrow> fake \<Rightarrow> fake" where
  "put_client clientID c f = f\<lparr>clients := AList.update clientID c (clients f)\<rparr>"

section \<open>Slugs\<close>

definition slug_alnum :: "char \<Rightarrow> bool" where
  "slug_alnum c \<longleftrightarrow> is_lower c \<or> is_digit c"

text \<open>\<^verbatim>\<open>slugNonAlnum.ReplaceAllString(base, "-")\<close>: every maximal run of other bytes becomes one dash.\<close>

function replace_runs :: "string \<Rightarrow> string" where
  "replace_runs [] = []"
| "replace_runs (c # cs) =
     (if slug_alnum c then c # replace_runs cs
      else CHR ''-'' # replace_runs (dropWhile (\<lambda>x. \<not> slug_alnum x) cs))"
  by pat_completeness auto
termination
  by (relation "measure length") (auto simp: less_Suc_eq_le length_dropWhile_le)

definition slugify :: "string \<Rightarrow> string \<Rightarrow> string" where
  "slugify name i =
     (let base = to_lower (trim_space name);
          base = replace_runs base;
          base = trim_char (CHR ''-'') base;
          base = (if base = [] then ''client'' else base);
          base = (if 40 < length base then take 40 base else base);
          base = trim_right_char (CHR ''-'') base;
          suffix = (if 7 < length i then drop (length i - 7) i else i)
      in base @ ''-'' @ to_lower suffix)"

section \<open>Clients\<close>

definition legalTransitions :: "(string \<times> string) list" where
  "legalTransitions =
     [(''draft'', ''evidence_submitted''),
      (''evidence_submitted'', ''filed_with_registrar''),
      (''filed_with_registrar'', ''registered''),
      (''registered'', ''active''),
      (''active'', ''suspended''),
      (''suspended'', ''active''),
      (''suspended'', ''offboarded''),
      (''active'', ''offboarded'')]"

definition transition_detail :: "string \<Rightarrow> string \<Rightarrow> string \<Rightarrow> string \<Rightarrow> raw" where
  "transition_detail from to evidenceRef reason =
     RawJSON (marshal_map [(''from'', JStr from), (''to'', JStr to),
       (''evidence_ref'', JStr evidenceRef), (''reason'', JStr reason)])"

definition Fake_TransitionClient ::
  "string \<Rightarrow> string \<Rightarrow> string \<Rightarrow> string \<Rightarrow> string \<Rightarrow> fake \<Rightarrow> unit result \<times> fake" where
  "Fake_TransitionClient clientID toState actor evidenceRef reason f =
     (case map_of (clients f) clientID of
        None \<Rightarrow> (fail ''registry:not_found'', f)
      | Some c \<Rightarrow>
          let from = cf_Status c in
          if (from, toState) \<notin> set legalTransitions then (fail ''registry:illegal_transition'', f)
          else
            let f = put_client clientID (c\<lparr>cf_Status := toState\<rparr>) f;
                f = touch clientID f;
                f = audit actor clientID ''client.transition''
                      (transition_detail from toState evidenceRef reason) f
            in (Inr (), f))"

definition Fake_GetClientFull :: "string \<Rightarrow> fake \<Rightarrow> ClientFull result \<times> fake" where
  "Fake_GetClientFull clientID f =
     (case map_of (clients f) clientID of
        None \<Rightarrow> (fail ''registry:not_found'', f)
      | Some c \<Rightarrow> (Inr c, f))"

definition summary_of :: "fake \<Rightarrow> ClientFull \<Rightarrow> ClientSummary" where
  "summary_of f c = \<lparr>cs_ID = cf_ID c, cs_Name = cf_Name c, cs_Status = cf_Status c, cs_Slug = cf_Slug c,
     cs_UpdatedAt = (case map_of (clientUpdatedAt f) (cf_ID c) of None \<Rightarrow> zero_time | Some t \<Rightarrow> t)\<rparr>"

definition Fake_ListClientsByState :: "fake \<Rightarrow> ClientSummary list gomap result \<times> fake" where
  "Fake_ListClientsByState f =
     (let grouped = group_by_status (map (summary_of f) (map snd (clients f))) in
      (Inr (map (\<lambda>(st, cs). (st, sort_key cs_ID cs)) grouped), f))"

definition Fake_CreateDraftClient ::
  "string \<Rightarrow> string \<Rightarrow> string \<Rightarrow> fake \<Rightarrow> string result \<times> fake" where
  "Fake_CreateDraftClient name email actor f =
     (let (i, f) = nextID f;
          emails = (if email \<noteq> [] then [email] else []);
          f = put_client i \<lparr>cf_ID = i, cf_Name = name, cf_Status = ''draft'', cf_RegistryURI = [],
                cf_ClientIdentifier = [], cf_DefaultWebhook = [], cf_AllowedOrigins = [],
                cf_Policy = RawJSON (JObj []), cf_Slug = slugify name i, cf_WRPDocument = RawNil,
                cf_ContactEmails = emails\<rparr> f;
          f = touch i f;
          f = audit actor i ''client.create'' (RawJSON (marshal_map [(''name'', JStr name)])) f
      in (Inr i, f))"

definition Fake_SetClientRegistrarIdentity ::
  "string \<Rightarrow> string \<Rightarrow> string \<Rightarrow> string \<Rightarrow> fake \<Rightarrow> unit result \<times> fake" where
  "Fake_SetClientRegistrarIdentity clientID registryURI clientIdentifier actor f =
     (case map_of (clients f) clientID of
        None \<Rightarrow> (fail ''registry:not_found'', f)
      | Some c \<Rightarrow>
          let f = put_client clientID
                    (c\<lparr>cf_RegistryURI := registryURI, cf_ClientIdentifier := clientIdentifier\<rparr>) f;
              f = touch clientID f;
              f = audit actor clientID ''client.set_registrar_identity''
                    (RawJSON (marshal_map [(''registry_uri'', JStr registryURI),
                       (''client_identifier'', JStr clientIdentifier)])) f
          in (Inr (), f))"

text \<open>\<^verbatim>\<open>^https://\S+$\<close> and \<^verbatim>\<open>^https://[^\s/?#@]+$\<close>.\<close>

definition webhookURLPattern :: "string \<Rightarrow> bool" where
  "webhookURLPattern s \<longleftrightarrow>
     has_prefix ''https://'' s \<and> drop 8 s \<noteq> [] \<and> list_all (\<lambda>c. \<not> re_space c) (drop 8 s)"

definition webOriginPattern :: "string \<Rightarrow> bool" where
  "webOriginPattern s \<longleftrightarrow>
     has_prefix ''https://'' s \<and> drop 8 s \<noteq> [] \<and>
     list_all (\<lambda>c. \<not> re_space c \<and> c \<notin> set ''/?#@'') (drop 8 s)"

definition Fake_SetClientWebhook :: "string \<Rightarrow> string \<Rightarrow> string \<Rightarrow> fake \<Rightarrow> unit result \<times> fake" where
  "Fake_SetClientWebhook clientID webhookURL actor f =
     (if webhookURL = [] \<or> \<not> webhookURLPattern webhookURL then (fail ''registry:invalid'', f)
      else
        (case map_of (clients f) clientID of
           None \<Rightarrow> (fail ''registry:not_found'', f)
         | Some c \<Rightarrow>
             let f = put_client clientID (c\<lparr>cf_DefaultWebhook := webhookURL\<rparr>) f;
                 f = touch clientID f;
                 f = audit actor clientID ''client.set_webhook''
                       (RawJSON (marshal_map [(''webhook_url'', JStr webhookURL)])) f
             in (Inr (), f)))"

definition Fake_SetClientAllowedOrigins ::
  "string \<Rightarrow> string list \<Rightarrow> string \<Rightarrow> fake \<Rightarrow> unit result \<times> fake" where
  "Fake_SetClientAllowedOrigins clientID origins actor f =
     (if 20 < length origins then (fail ''registry:invalid'', f)
      else if \<not> list_all webOriginPattern origins then (fail ''registry:invalid'', f)
      else
        (case map_of (clients f) clientID of
           None \<Rightarrow> (fail ''registry:not_found'', f)
         | Some c \<Rightarrow>
             let f = put_client clientID (c\<lparr>cf_AllowedOrigins := origins\<rparr>) f;
                 f = touch clientID f;
                 f = audit actor clientID ''client.set_allowed_origins''
                       (RawJSON (marshal_map [(''allowed_origins'', JArr (map JStr origins))])) f
             in (Inr (), f)))"

text \<open>
  The stored policy is decoded into a \<^verbatim>\<open>map[string]any\<close> that starts empty.  Decoding \<^verbatim>\<open>null\<close> makes
  that map nil, and the assignment that follows panics.
\<close>

definition merge_policy :: "raw \<Rightarrow> string \<Rightarrow> raw result" where
  "merge_policy policy mode =
     (let set_flag = (\<lambda>m. Inr (RawJSON (marshal_map
            (AList.update ''require_signed_dcapi'' (JBool (mode = ''signed'')) m)))) in
      case policy of
        RawNil \<Rightarrow> set_flag []
      | RawBad _ \<Rightarrow> fail ''registry:error''
      | RawJSON JNull \<Rightarrow> Inl (GoPanic ''assignment to entry in nil map'')
      | RawJSON (JObj kvs) \<Rightarrow> set_flag (map_any kvs)
      | RawJSON _ \<Rightarrow> fail ''registry:error'')"

definition Fake_SetClientDCAPIMode :: "string \<Rightarrow> string \<Rightarrow> string \<Rightarrow> fake \<Rightarrow> unit result \<times> fake" where
  "Fake_SetClientDCAPIMode clientID mode actor f =
     (if mode \<noteq> ''signed'' \<and> mode \<noteq> ''unsigned'' then (fail ''registry:invalid'', f)
      else
        (case map_of (clients f) clientID of
           None \<Rightarrow> (fail ''registry:not_found'', f)
         | Some c \<Rightarrow>
             (case merge_policy (cf_Policy c) mode of
                Inl e \<Rightarrow> (Inl e, f)
              | Inr merged \<Rightarrow>
                  let f = put_client clientID (c\<lparr>cf_Policy := merged\<rparr>) f;
                      f = touch clientID f;
                      f = audit actor clientID ''client.set_dcapi_mode''
                            (RawJSON (marshal_map [(''mode'', JStr mode)])) f
                  in (Inr (), f))))"

definition gomap_list :: "'a list gomap \<Rightarrow> string \<Rightarrow> 'a list" where
  "gomap_list m k = (case map_of m k of None \<Rightarrow> [] | Some l \<Rightarrow> l)"

definition Fake_CreateAPIKey :: "string \<Rightarrow> string \<Rightarrow> string \<Rightarrow> fake \<Rightarrow> unit result \<times> fake" where
  "Fake_CreateAPIKey clientID prefix secretHash f =
     (case map_of (clients f) clientID of
        None \<Rightarrow> (fail ''registry:not_found'', f)
      | Some _ \<Rightarrow>
          (Inr (), f\<lparr>apiKeys := AList.update clientID
             (gomap_list (apiKeys f) clientID @ [\<lparr>ak_Prefix = prefix, ak_SecretHash = secretHash\<rparr>])
             (apiKeys f)\<rparr>))"

section \<open>Intended uses\<close>

text \<open>The loop that builds the new map: a row without an internal id keeps the one of the existing
  row with the same intended-use id, or gets a fresh one.\<close>

definition row_with_id ::
  "IntendedUse gomap \<Rightarrow> IntendedUse \<Rightarrow> fake \<Rightarrow> IntendedUse \<times> fake" where
  "row_with_id existing iu f =
     (if iu_ID iu = [] then
        (case map_of existing (iu_IntendedUseID iu) of
           Some old \<Rightarrow> (iu\<lparr>iu_ID := iu_ID old\<rparr>, f)
         | None \<Rightarrow> let (i, f) = nextID f in (iu\<lparr>iu_ID := i\<rparr>, f))
      else (iu, f))"

fun replace_rows ::
  "IntendedUse gomap \<Rightarrow> IntendedUse list \<Rightarrow> IntendedUse gomap \<Rightarrow> fake \<Rightarrow> IntendedUse gomap \<times> fake" where
  "replace_rows existing [] m f = (m, f)"
| "replace_rows existing (iu # ius) m f =
     (case row_with_id existing iu f of
        (iu, f) \<Rightarrow> replace_rows existing ius (AList.update (iu_IntendedUseID iu) iu m) f)"

text \<open>\<open>order\<close> also plays the part of the \<^verbatim>\<open>seen\<close> set, which holds exactly its elements.\<close>

fun append_unseen :: "string list \<Rightarrow> string list \<Rightarrow> string list" where
  "append_unseen order [] = order"
| "append_unseen order (i # is) =
     append_unseen (if i \<in> set order then order else order @ [i]) is"

definition replaceIntendedUsesLocked :: "string \<Rightarrow> IntendedUse list \<Rightarrow> fake \<Rightarrow> fake" where
  "replaceIntendedUsesLocked clientID ius f =
     (let existing = gomap_list (intendedUses f) clientID;
          (m, f) = replace_rows existing ius [] f;
          f = f\<lparr>intendedUses := AList.update clientID m (intendedUses f)\<rparr>;
          order = filter (\<lambda>i. map_of m i \<noteq> None) (gomap_list (intendedUseOrder f) clientID);
          order = append_unseen order (map iu_IntendedUseID ius)
      in f\<lparr>intendedUseOrder := AList.update clientID order (intendedUseOrder f)\<rparr>)"

definition count_detail :: "IntendedUse list \<Rightarrow> raw" where
  "count_detail ius = RawJSON (marshal_map [(''intended_use_count'', JNum (int (length ius)))])"

definition Fake_SaveWRPDocument ::
  "string \<Rightarrow> raw \<Rightarrow> IntendedUse list \<Rightarrow> string \<Rightarrow> fake \<Rightarrow> unit result \<times> fake" where
  "Fake_SaveWRPDocument clientID doc ius actor f =
     (case map_of (clients f) clientID of
        None \<Rightarrow> (fail ''registry:not_found'', f)
      | Some c \<Rightarrow>
          if list_ex (\<lambda>iu. iu_IntendedUseID iu = []) ius then (fail ''registry:invalid'', f)
          else
            let f = put_client clientID (c\<lparr>cf_WRPDocument := doc\<rparr>) f;
                f = touch clientID f;
                f = replaceIntendedUsesLocked clientID ius f;
                f = audit actor clientID ''client.save_wrp_document'' (count_detail ius) f
            in (Inr (), f))"

definition Fake_SetIntendedUses ::
  "string \<Rightarrow> IntendedUse list \<Rightarrow> string \<Rightarrow> fake \<Rightarrow> unit result \<times> fake" where
  "Fake_SetIntendedUses clientID ius actor f =
     (case map_of (clients f) clientID of
        None \<Rightarrow> (fail ''registry:not_found'', f)
      | Some _ \<Rightarrow>
          if list_ex (\<lambda>iu. iu_IntendedUseID iu = []) ius then (fail ''registry:invalid'', f)
          else
            let f = replaceIntendedUsesLocked clientID ius f;
                f = audit actor clientID ''client.set_intended_uses'' (count_detail ius) f
            in (Inr (), f))"

definition listed_uses :: "string \<Rightarrow> fake \<Rightarrow> IntendedUse list" where
  "listed_uses clientID f =
     List.map_filter (map_of (gomap_list (intendedUses f) clientID))
       (gomap_list (intendedUseOrder f) clientID)"

definition Fake_ListIntendedUses :: "string \<Rightarrow> fake \<Rightarrow> IntendedUse list result \<times> fake" where
  "Fake_ListIntendedUses clientID f = (Inr (listed_uses clientID f), f)"

section \<open>Evidence\<close>

definition Fake_AddEvidence ::
  "string \<Rightarrow> Evidence \<Rightarrow> bytes \<Rightarrow> string \<Rightarrow> fake \<Rightarrow> (string \<times> Evidence) result \<times> fake" where
  "Fake_AddEvidence clientID e content actor f =
     (case map_of (clients f) clientID of
        None \<Rightarrow> (fail ''registry:not_found'', f)
      | Some _ \<Rightarrow>
          let (i, f) = nextID f; (t, f) = now_utc f;
              cp = e\<lparr>ev_ID := i, ev_CreatedAt := t\<rparr>;
              f = f\<lparr>evidence := AList.update i
                    \<lparr>fe_Evidence = cp, fe_ClientID = clientID, fe_Content = content\<rparr> (evidence f)\<rparr>;
              f = audit actor clientID ''evidence.add''
                    (RawJSON (marshal_map [(''evidence_id'', JStr i), (''filename'', JStr (ev_Filename e))])) f
          in (Inr (i, cp), f))"

definition Fake_ListEvidence :: "string \<Rightarrow> fake \<Rightarrow> Evidence list result \<times> fake" where
  "Fake_ListEvidence clientID f =
     (Inr (sort_key (\<lambda>e. (ev_CreatedAt e, ev_ID e))
        (map fe_Evidence (filter (\<lambda>r. fe_ClientID r = clientID) (map snd (evidence f))))), f)"

definition Fake_GetEvidenceContent ::
  "string \<Rightarrow> string \<Rightarrow> fake \<Rightarrow> (bytes \<times> string) result \<times> fake" where
  "Fake_GetEvidenceContent clientID evidenceID f =
     (case map_of (evidence f) evidenceID of
        None \<Rightarrow> (fail ''registry:not_found'', f)
      | Some r \<Rightarrow>
          if fe_ClientID r \<noteq> clientID then (fail ''registry:not_found'', f)
          else (Inr (fe_Content r, ev_Mime (fe_Evidence r)), f))"

section \<open>Audit log and deletion requests\<close>

definition Fake_AppendAudit :: "string \<Rightarrow> string \<Rightarrow> string \<Rightarrow> raw \<Rightarrow> fake \<Rightarrow> unit result \<times> fake" where
  "Fake_AppendAudit actor clientID action detail f =
     (if actor = [] \<or> action = [] then (fail ''audit:invalid'', f)
      else (Inr (), audit actor clientID action detail f))"

text \<open>The newest entries first, at most \<open>limit\<close> of them: the loop counts an index down and stops when
  the output has \<open>limit\<close> elements, so a limit below one gives none.\<close>

definition newest :: "int \<Rightarrow> 'a list \<Rightarrow> 'a list" where
  "newest limit rows = take (nat limit) (rev rows)"

definition Fake_ListAuditEntries :: "string \<Rightarrow> int \<Rightarrow> fake \<Rightarrow> AuditEntry list result \<times> fake" where
  "Fake_ListAuditEntries clientID limit f =
     (Inr (newest limit (filter (\<lambda>e. ae_ClientID e = clientID) (auditLog f))), f)"

definition Fake_LogDeletionRequest ::
  "string \<Rightarrow> string \<Rightarrow> string list \<Rightarrow> fake \<Rightarrow> string result \<times> fake" where
  "Fake_LogDeletionRequest clientID sessionID attributeNames f =
     (if clientID = [] \<or> sessionID = [] then (fail ''audit:invalid'', f)
      else
        let (i, f) = nextID f; (t, f) = now_utc f in
        (Inr i, f\<lparr>deletionRequests := AList.update clientID
           (gomap_list (deletionRequests f) clientID @
              [\<lparr>dr_ID = i, dr_ClientID = clientID, dr_SessionID = sessionID,
                dr_AttributeNames = attributeNames, dr_RequestedAt = t\<rparr>])
           (deletionRequests f)\<rparr>))"

definition Fake_ListDeletionRequests :: "string \<Rightarrow> int \<Rightarrow> fake \<Rightarrow> DeletionRequest list result \<times> fake" where
  "Fake_ListDeletionRequests clientID limit f =
     (Inr (newest limit (gomap_list (deletionRequests f) clientID)), f)"

definition purge_rows :: "string \<Rightarrow> fakeEvidence gomap \<Rightarrow> fakeEvidence gomap" where
  "purge_rows clientID rows =
     map (\<lambda>(k, r). (k, if fe_ClientID r = clientID then r\<lparr>fe_Content := []\<rparr> else r)) rows"

definition Fake_PurgeOffboarded :: "string \<Rightarrow> string \<Rightarrow> fake \<Rightarrow> unit result \<times> fake" where
  "Fake_PurgeOffboarded clientID actor f =
     (case map_of (clients f) clientID of
        None \<Rightarrow> (fail ''registry:not_found'', f)
      | Some c \<Rightarrow>
          if cf_Status c \<noteq> ''offboarded'' then (fail ''registry:invalid'', f)
          else
            let f = f\<lparr>evidence := purge_rows clientID (evidence f)\<rparr>;
                f = audit actor clientID ''client.purge'' (RawJSON (JObj [])) f
            in (Inr (), f))"

section \<open>The store value\<close>

definition FakeStore :: "fake Store" where
  "FakeStore =
     \<lparr>TransitionClient = Fake_TransitionClient, GetClientFull = Fake_GetClientFull,
      ListClientsByState = Fake_ListClientsByState, CreateDraftClient = Fake_CreateDraftClient,
      SetClientRegistrarIdentity = Fake_SetClientRegistrarIdentity,
      SetClientWebhook = Fake_SetClientWebhook,
      SetClientAllowedOrigins = Fake_SetClientAllowedOrigins,
      SetClientDCAPIMode = Fake_SetClientDCAPIMode, CreateAPIKey = Fake_CreateAPIKey,
      SaveWRPDocument = Fake_SaveWRPDocument, ListIntendedUses = Fake_ListIntendedUses,
      SetIntendedUses = Fake_SetIntendedUses, AddEvidence = Fake_AddEvidence,
      ListEvidence = Fake_ListEvidence, GetEvidenceContent = Fake_GetEvidenceContent,
      AppendAudit = Fake_AppendAudit, ListAuditEntries = Fake_ListAuditEntries,
      LogDeletionRequest = Fake_LogDeletionRequest,
      ListDeletionRequests = Fake_ListDeletionRequests, PurgeOffboarded = Fake_PurgeOffboarded\<rparr>"

lemma FakeStore_sel [simp]:
  "TransitionClient FakeStore = Fake_TransitionClient"
  "GetClientFull FakeStore = Fake_GetClientFull"
  "ListClientsByState FakeStore = Fake_ListClientsByState"
  "CreateDraftClient FakeStore = Fake_CreateDraftClient"
  "SetClientRegistrarIdentity FakeStore = Fake_SetClientRegistrarIdentity"
  "SetClientWebhook FakeStore = Fake_SetClientWebhook"
  "SetClientAllowedOrigins FakeStore = Fake_SetClientAllowedOrigins"
  "SetClientDCAPIMode FakeStore = Fake_SetClientDCAPIMode"
  "CreateAPIKey FakeStore = Fake_CreateAPIKey"
  "SaveWRPDocument FakeStore = Fake_SaveWRPDocument"
  "ListIntendedUses FakeStore = Fake_ListIntendedUses"
  "SetIntendedUses FakeStore = Fake_SetIntendedUses"
  "AddEvidence FakeStore = Fake_AddEvidence"
  "PurgeOffboarded FakeStore = Fake_PurgeOffboarded"
  by (simp_all add: FakeStore_def)

section \<open>Test seams\<close>

text \<open>The methods that are not part of the interface: two read the log and the keys, the others write a
  client row without a check.\<close>

definition AuditLog :: "fake \<Rightarrow> AuditLogEntry list" where
  "AuditLog f = auditLog f"

definition APIKeys :: "string \<Rightarrow> fake \<Rightarrow> FakeAPIKey list" where
  "APIKeys clientID f = gomap_list (apiKeys f) clientID"

definition TestSetClientStatus :: "string \<Rightarrow> string \<Rightarrow> fake \<Rightarrow> fake" where
  "TestSetClientStatus clientID status f =
     (case map_of (clients f) clientID of
        None \<Rightarrow> f | Some c \<Rightarrow> put_client clientID (c\<lparr>cf_Status := status\<rparr>) f)"

definition TestSetClientRegistrarIdentity :: "string \<Rightarrow> string \<Rightarrow> string \<Rightarrow> fake \<Rightarrow> fake" where
  "TestSetClientRegistrarIdentity clientID registryURI clientIdentifier f =
     (case map_of (clients f) clientID of
        None \<Rightarrow> f
      | Some c \<Rightarrow> put_client clientID
          (c\<lparr>cf_RegistryURI := registryURI, cf_ClientIdentifier := clientIdentifier\<rparr>) f)"

definition TestSetClientWebhook :: "string \<Rightarrow> string \<Rightarrow> fake \<Rightarrow> fake" where
  "TestSetClientWebhook clientID webhookURL f =
     (case map_of (clients f) clientID of
        None \<Rightarrow> f | Some c \<Rightarrow> put_client clientID (c\<lparr>cf_DefaultWebhook := webhookURL\<rparr>) f)"

definition TestSetClientPolicy :: "string \<Rightarrow> raw \<Rightarrow> fake \<Rightarrow> fake" where
  "TestSetClientPolicy clientID policy f =
     (case map_of (clients f) clientID of
        None \<Rightarrow> f | Some c \<Rightarrow> put_client clientID (c\<lparr>cf_Policy := policy\<rparr>) f)"

end
