(* ===== verification/FakeFacts.thy ===== *)
theory FakeFacts
  imports Fake
begin

text \<open>
  What the in-memory store guarantees: the frame of each helper, the store invariant and its
  preservation by every method, the audit log as a faithful history of the lifecycle, and the
  functional behaviour of the methods that do more than write one row.
\<close>

section \<open>Frames of the helpers\<close>

lemma now_utc_sel [simp]:
  "fst (now_utc f) = fk_clock f (fk_ticks f)"
  "snd (now_utc f) = f\<lparr>fk_ticks := Suc (fk_ticks f)\<rparr>"
  by (simp_all add: now_utc_def)

lemma nextID_eq: "nextID f = (fakeID (Suc (seq f)), f\<lparr>seq := Suc (seq f)\<rparr>)"
  by (simp add: nextID_def)

definition audit_entry :: "string \<Rightarrow> string \<Rightarrow> string \<Rightarrow> raw \<Rightarrow> fake \<Rightarrow> AuditLogEntry" where
  "audit_entry actor clientID action detail f =
     \<lparr>ae_ID = fakeID (Suc (seq f)), ae_At = fk_clock f (fk_ticks f), ae_Actor = actor,
      ae_ClientID = clientID, ae_Action = action, ae_Detail = emptyDetail detail\<rparr>"

lemma audit_eq:
  "audit actor clientID action detail f =
     f\<lparr>seq := Suc (seq f), fk_ticks := Suc (fk_ticks f),
       auditLog := auditLog f @ [audit_entry actor clientID action detail f]\<rparr>"
  by (simp add: audit_def nextID_eq now_utc_def audit_entry_def)

lemma audit_sel [simp]:
  "clients (audit a i n d f) = clients f"
  "clientUpdatedAt (audit a i n d f) = clientUpdatedAt f"
  "intendedUses (audit a i n d f) = intendedUses f"
  "intendedUseOrder (audit a i n d f) = intendedUseOrder f"
  "evidence (audit a i n d f) = evidence f"
  "deletionRequests (audit a i n d f) = deletionRequests f"
  "apiKeys (audit a i n d f) = apiKeys f"
  "auditLog (audit a i n d f) = auditLog f @ [audit_entry a i n d f]"
  "seq (audit a i n d f) = Suc (seq f)"
  by (simp_all add: audit_eq)

lemma audit_entry_sel [simp]:
  "ae_ID (audit_entry a i n d f) = fakeID (Suc (seq f))"
  "ae_Actor (audit_entry a i n d f) = a"
  "ae_ClientID (audit_entry a i n d f) = i"
  "ae_Action (audit_entry a i n d f) = n"
  "ae_Detail (audit_entry a i n d f) = emptyDetail d"
  by (simp_all add: audit_entry_def)

lemma touch_sel [simp]:
  "clients (touch i f) = clients f"
  "clientUpdatedAt (touch i f) = AList.update i (fk_clock f (fk_ticks f)) (clientUpdatedAt f)"
  "intendedUses (touch i f) = intendedUses f"
  "intendedUseOrder (touch i f) = intendedUseOrder f"
  "evidence (touch i f) = evidence f"
  "deletionRequests (touch i f) = deletionRequests f"
  "apiKeys (touch i f) = apiKeys f"
  "auditLog (touch i f) = auditLog f"
  "seq (touch i f) = seq f"
  by (simp_all add: touch_def now_utc_def)

lemma put_client_sel [simp]:
  "clients (put_client i c f) = AList.update i c (clients f)"
  "clientUpdatedAt (put_client i c f) = clientUpdatedAt f"
  "intendedUses (put_client i c f) = intendedUses f"
  "intendedUseOrder (put_client i c f) = intendedUseOrder f"
  "evidence (put_client i c f) = evidence f"
  "deletionRequests (put_client i c f) = deletionRequests f"
  "apiKeys (put_client i c f) = apiKeys f"
  "auditLog (put_client i c f) = auditLog f"
  "seq (put_client i c f) = seq f"
  by (simp_all add: put_client_def)

lemma gomap_list_update [simp]:
  "gomap_list (AList.update k l m) k' = (if k' = k then l else gomap_list m k')"
  by (simp add: gomap_list_def)

section \<open>Identifiers\<close>

lemma fakeID_inject [simp]: "fakeID m = fakeID n \<longleftrightarrow> m = n"
proof
  assume "fakeID m = fakeID n"
  then have "dec_val (pad0 12 (nat_dec m)) = dec_val (pad0 12 (nat_dec n))"
    by (simp add: fakeID_def)
  then show "m = n" by simp
qed simp

lemma fakeID_not_Nil [simp]: "fakeID n \<noteq> []"
  by (simp add: fakeID_def)

section \<open>Slugs\<close>

lemma replace_runs_set: "set (replace_runs s) \<subseteq> Collect slug_alnum \<union> {CHR ''-''}"
  by (induction s rule: replace_runs.induct) auto

text \<open>No two dashes stand next to each other.\<close>

fun dash_single :: "string \<Rightarrow> bool" where
  "dash_single (a # b # s) = (\<not> (a = CHR ''-'' \<and> b = CHR ''-'') \<and> dash_single (b # s))"
| "dash_single _ = True"

lemma slug_alnum_dash [simp]: "\<not> slug_alnum (CHR ''-'')"
  by (simp add: slug_alnum_def char_class_defs)

lemma replace_runs_hd_dash:
  "s \<noteq> [] \<Longrightarrow> slug_alnum (hd s) \<Longrightarrow> replace_runs s \<noteq> [] \<and> hd (replace_runs s) = hd s"
  by (cases s) auto

lemma dash_single_Cons:
  "dash_single s \<Longrightarrow> (c \<noteq> CHR ''-'' \<or> s = [] \<or> hd s \<noteq> CHR ''-'') \<Longrightarrow> dash_single (c # s)"
  by (cases s) auto

lemma dash_single_replace_runs: "dash_single (replace_runs s)"
proof (induction s rule: replace_runs.induct)
  case (2 c cs)
  show ?case
  proof (cases "slug_alnum c")
    case True
    then have "c \<noteq> CHR ''-''" by auto
    with 2 True show ?thesis by (auto intro: dash_single_Cons)
  next
    case False
    let ?r = "dropWhile (\<lambda>x. \<not> slug_alnum x) cs"
    have "replace_runs ?r = [] \<or> hd (replace_runs ?r) \<noteq> CHR ''-''"
    proof (cases "?r = []")
      case True
      then show ?thesis by (simp only: replace_runs.simps simp_thms)
    next
      case ne: False
      then have "slug_alnum (hd ?r)" using hd_dropWhile [of "\<lambda>x. \<not> slug_alnum x" cs] by blast
      with replace_runs_hd_dash [OF ne] show ?thesis by (metis slug_alnum_dash)
    qed
    with 2 False show ?thesis by (simp add: dash_single_Cons)
  qed
qed simp

lemma dash_single_append1: "dash_single (s @ t) \<Longrightarrow> dash_single s"
  by (induction s rule: dash_single.induct) (auto elim: dash_single.elims)

lemma dash_single_append2: "dash_single (s @ t) \<Longrightarrow> dash_single t"
proof (induction s)
  case (Cons a s)
  then show ?case by (cases "s @ t") auto
qed simp

lemma dash_single_trim_char: "dash_single s \<Longrightarrow> dash_single (trim_char c s)"
proof -
  assume s: "dash_single s"
  have "s = takeWhile (\<lambda>x. x = c) s @ dropWhile (\<lambda>x. x = c) s" by simp
  then have "dash_single (dropWhile (\<lambda>x. x = c) s)" using s by (metis dash_single_append2)
  moreover obtain n where "dropWhile (\<lambda>x. x = c) s = trim_char c s @ replicate n c"
    using trim_right_char_prefix [of "dropWhile (\<lambda>x. x = c) s" c] by (auto simp: trim_char_def)
  ultimately show ?thesis by (metis dash_single_append1)
qed

text \<open>The part of a slug before the last dash.\<close>

definition slug_base :: "string \<Rightarrow> string" where
  "slug_base name =
     (let b = trim_char (CHR ''-'') (replace_runs (to_lower (trim_space name)));
          b = (if b = [] then ''client'' else b)
      in trim_right_char (CHR ''-'') (if 40 < length b then take 40 b else b))"

lemma slugify_base:
  "slugify name i = slug_base name @ ''-'' @ to_lower (if 7 < length i then drop (length i - 7) i else i)"
  by (simp add: slugify_def slug_base_def Let_def)

lemma slug_base_shape:
  "slug_base name \<noteq> [] \<and> length (slug_base name) \<le> 40 \<and>
   set (slug_base name) \<subseteq> Collect slug_alnum \<union> {CHR ''-''} \<and>
   slug_alnum (hd (slug_base name)) \<and> slug_alnum (last (slug_base name)) \<and>
   dash_single (slug_base name)"
proof -
  let ?D = "CHR ''-''"
  let ?r = "replace_runs (to_lower (trim_space name))"
  define b where "b = (if trim_char ?D ?r = [] then ''client'' else trim_char ?D ?r)"
  define t where "t = (if 40 < length b then take 40 b else b)"
  have eq: "slug_base name = trim_right_char ?D t"
    by (simp add: slug_base_def Let_def b_def t_def)
  have client: "slug_alnum x" if "x \<in> set ''client''" for x
    using that by (auto simp: slug_alnum_def char_class_defs)
  have b: "b \<noteq> []" "hd b \<noteq> ?D" "set b \<subseteq> Collect slug_alnum \<union> {?D}" "dash_single b"
    using hd_trim_char [of ?D ?r] set_trim_char [of ?D ?r] replace_runs_set [of "to_lower (trim_space name)"]
      dash_single_trim_char [OF dash_single_replace_runs] client
    by (auto simp: b_def)
  have "b = take 40 b @ drop 40 b" by simp
  then have "dash_single (take 40 b)" using b(4) dash_single_append1 by metis
  then have t: "dash_single t" "length t \<le> 40" "t \<noteq> []" using b(1,4) by (simp_all add: t_def)
  have t: "t \<noteq> []" "hd t \<noteq> ?D" "set t \<subseteq> Collect slug_alnum \<union> {?D}" "dash_single t"
      "length t \<le> 40"
    using t b(2) set_take_subset [of 40 b] b(3) by (auto simp: t_def hd_take)
  from hd_trim_right_char [OF t(1,2)] have
    ne: "trim_right_char ?D t \<noteq> []" and hd: "hd (trim_right_char ?D t) = hd t" by auto
  have sub: "set (trim_right_char ?D t) \<subseteq> Collect slug_alnum \<union> {?D}"
    using set_trim_right_char [of ?D t] t(3) by blast
  have "hd (trim_right_char ?D t) \<in> set (trim_right_char ?D t)"
    "last (trim_right_char ?D t) \<in> set (trim_right_char ?D t)" using ne by auto
  moreover have "hd (trim_right_char ?D t) \<noteq> ?D" using hd t(2) by simp
  moreover have "last (trim_right_char ?D t) \<noteq> ?D" using last_trim_right_char [OF ne] .
  ultimately have "slug_alnum (hd (trim_right_char ?D t))" "slug_alnum (last (trim_right_char ?D t))"
    using sub by blast+
  moreover have "length (trim_right_char ?D t) \<le> 40"
    using length_trim_right_char [of ?D t] t(5) by linarith
  moreover have "dash_single (trim_right_char ?D t)"
    using trim_right_char_prefix [of t ?D] t(4) by (metis dash_single_append1)
  ultimately show ?thesis using ne sub eq by simp
qed

text \<open>The suffix of a store-made identifier is its last seven digits.\<close>

lemma pad0_length_ge: "w \<le> length (pad0 w s)"
  by (simp add: pad0_def)

lemma drop_last_append:
  "n \<le> length s \<Longrightarrow> drop (length (q @ s) - n) (q @ s) = drop (length s - n) s"
  by simp

lemma fakeID_suffix:
  "\<exists>p d. fakeID n = p @ d \<and> length d = 7 \<and> list_all is_digit d \<and> dec_val d = n mod 10 ^ 7 \<and>
     (if 7 < length (fakeID n) then drop (length (fakeID n) - 7) (fakeID n) else fakeID n) = d"
proof -
  let ?s = "pad0 12 (nat_dec n)"
  let ?d = "drop (length ?s - 7) ?s" and ?h = "take (length ?s - 7) ?s"
  have len: "12 \<le> length ?s" by (rule pad0_length_ge)
  have dig: "list_all is_digit ?s" by (auto simp: list_all_iff intro: digits_pad0 digits_nat_dec)
  then have digd: "list_all is_digit ?d" by (auto simp: list_all_iff dest: in_set_dropD)
  have l7: "length ?d = 7" using len by simp
  have "n = dec_val (?h @ ?d)" by simp
  also have "\<dots> = dec_val ?h * 10 ^ 7 + dec_val ?d" by (simp only: dec_val_append l7)
  finally have "n = dec_val ?h * 10 ^ 7 + dec_val ?d" .
  moreover have "dec_val ?d < 10 ^ 7"
    using dec_val_bound [of ?d] digd l7 by (auto simp: list_all_iff)
  ultimately have "dec_val ?d = n mod 10 ^ 7" by (metis mod_less mod_mult_self3)
  moreover have "fakeID n = (''01JZXREGDBFAKE'' @ ?h) @ ?d" by (simp add: fakeID_def)
  moreover have "(if 7 < length (fakeID n) then drop (length (fakeID n) - 7) (fakeID n) else fakeID n) = ?d"
    using len drop_last_append [of 7 ?s "''01JZXREGDBFAKE''"] by (simp add: fakeID_def)
  ultimately show ?thesis using l7 digd by blast
qed

lemma to_lower_digits: "list_all is_digit d \<Longrightarrow> to_lower d = d"
  by (rule to_lower_id) (auto simp: list_all_iff is_digit_def is_upper_def)

lemma slugify_fakeID:
  obtains d where "slugify name (fakeID n) = slug_base name @ CHR ''-'' # d"
    "length d = 7" "list_all is_digit d" "dec_val d = n mod 10 ^ 7"
proof -
  obtain p d where d: "length d = 7" "list_all is_digit d" "dec_val d = n mod 10 ^ 7"
    "(if 7 < length (fakeID n) then drop (length (fakeID n) - 7) (fakeID n) else fakeID n) = d"
    using fakeID_suffix by blast
  then have "slugify name (fakeID n) = slug_base name @ CHR ''-'' # d"
    unfolding slugify_base by (simp add: to_lower_digits)
  with d that show thesis by blast
qed

lemma digits_dec_val_inject:
  "length a = length b \<Longrightarrow> list_all is_digit a \<Longrightarrow> list_all is_digit b \<Longrightarrow> dec_val a = dec_val b \<Longrightarrow> a = b"
proof (induction a arbitrary: b rule: rev_induct)
  case (snoc x xs)
  then obtain y ys where b: "b = ys @ [y]" by (cases b rule: rev_cases) auto
  have d: "is_digit x" "is_digit y" using snoc.prems b by auto
  define p q where "p = byte_of x - 48" and "q = byte_of y - 48"
  have pq: "byte_of x = 48 + p" "byte_of y = 48 + q" "p < 10" "q < 10"
    using d by (auto simp: p_def q_def is_digit_def)
  have "10 * dec_val xs + p = 10 * dec_val ys + q"
    using snoc.prems(4) b pq by (simp add: dec_val_snoc)
  with pq(3,4) have "dec_val xs = dec_val ys \<and> p = q" by presburger
  with pq have "dec_val xs = dec_val ys" "byte_of x = byte_of y" by simp_all
  with snoc b show ?case by (auto simp: byte_of_inject)
qed simp

text \<open>
  Shape of a slug: for every client name, the slug \<^verbatim>\<open>CreateDraftClient\<close> stores is a non-empty base
  of at most 40 characters from a-z, 0-9 and dash, which neither starts nor ends with a dash and has
  no two dashes in a row, then one dash and the seven-digit suffix.
\<close>

theorem slugify_shape:
  "\<exists>b d. slugify name (fakeID n) = b @ ''-'' @ d \<and> b \<noteq> [] \<and> length b \<le> 40 \<and>
     set b \<subseteq> Collect slug_alnum \<union> {CHR ''-''} \<and> slug_alnum (hd b) \<and> slug_alnum (last b) \<and>
     dash_single b \<and> length d = 7 \<and> list_all is_digit d"
proof -
  obtain d where "slugify name (fakeID n) = slug_base name @ CHR ''-'' # d"
    "length d = 7" "list_all is_digit d" by (rule slugify_fakeID)
  with slug_base_shape [of name] show ?thesis
    by (intro exI [of _ "slug_base name"] exI [of _ d]) simp
qed

text \<open>
  When slugs collide: two store-made clients have the same slug exactly when their names have
  the same base and their sequence numbers agree modulo ten million.  So clients of one name get
  distinct slugs as long as fewer than ten million identifiers lie between them, and no longer.
\<close>

theorem slugify_collision:
  "slugify a (fakeID m) = slugify b (fakeID n) \<longleftrightarrow>
     slug_base a = slug_base b \<and> m mod 10 ^ 7 = n mod 10 ^ 7"
proof -
  obtain d where d: "slugify a (fakeID m) = slug_base a @ CHR ''-'' # d"
    "length d = 7" "list_all is_digit d" "dec_val d = m mod 10 ^ 7" by (rule slugify_fakeID)
  obtain e where e: "slugify b (fakeID n) = slug_base b @ CHR ''-'' # e"
    "length e = 7" "list_all is_digit e" "dec_val e = n mod 10 ^ 7" by (rule slugify_fakeID)
  have "d = e \<longleftrightarrow> m mod 10 ^ 7 = n mod 10 ^ 7"
    using digits_dec_val_inject [of d e] d e by auto
  moreover have "slug_base a @ CHR ''-'' # d = slug_base b @ CHR ''-'' # e \<longleftrightarrow>
      slug_base a = slug_base b \<and> d = e"
    using d(2) e(2) by (auto simp: append_eq_append_conv)
  ultimately show ?thesis using d(1) e(1) by simp
qed

end
