(* ===== verification/FakeInv.thy ===== *)
theory FakeInv
  imports FakeFacts
begin

text \<open>
  The invariant of the in-memory store, its preservation by every method, and the audit log as the
  history of each client's lifecycle.
\<close>

section \<open>The invariant\<close>

definition lifecycle_states :: "string list" where
  "lifecycle_states = [''draft'', ''evidence_submitted'', ''filed_with_registrar'', ''registered'',
     ''active'', ''suspended'', ''offboarded'']"

lemma legal_states:
  "(a, b) \<in> set legalTransitions \<Longrightarrow> a \<in> set lifecycle_states \<and> b \<in> set lifecycle_states"
  by (auto simp: legalTransitions_def lifecycle_states_def)

definition status_of :: "fake \<Rightarrow> string \<Rightarrow> string option" where
  "status_of f i = map_option cf_Status (map_of (clients f) i)"

definition minted :: "fake \<Rightarrow> string \<Rightarrow> bool" where
  "minted f i \<longleftrightarrow> (\<exists>n. n \<le> seq f \<and> i = fakeID n)"

text \<open>A client is stored under its own id, which the store minted, and has one of the seven states.\<close>

definition clients_inv :: "fake \<Rightarrow> bool" where
  "clients_inv f \<longleftrightarrow> distinct (map fst (clients f)) \<and>
     (\<forall>i c. map_of (clients f) i = Some c \<longrightarrow>
        cf_ID c = i \<and> cf_Status c \<in> set lifecycle_states \<and> minted f i)"

text \<open>The order list of a client names exactly the rows of its map, each once, and each row is
  stored under its own intended-use id with an internal id.\<close>

definition uses_ok :: "IntendedUse gomap \<Rightarrow> string list \<Rightarrow> bool" where
  "uses_ok m order \<longleftrightarrow> distinct (map fst m) \<and> distinct order \<and> set order = fst ` set m \<and>
     (\<forall>i iu. map_of m i = Some iu \<longrightarrow> iu_IntendedUseID iu = i \<and> i \<noteq> [] \<and> iu_ID iu \<noteq> [])"

definition uses_inv :: "fake \<Rightarrow> bool" where
  "uses_inv f \<longleftrightarrow>
     (\<forall>i. uses_ok (gomap_list (intendedUses f) i) (gomap_list (intendedUseOrder f) i))"

text \<open>Evidence belongs to a client of the store.\<close>

definition evidence_inv :: "fake \<Rightarrow> bool" where
  "evidence_inv f \<longleftrightarrow> distinct (map fst (evidence f)) \<and>
     (\<forall>i r. map_of (evidence f) i = Some r \<longrightarrow>
        ev_ID (fe_Evidence r) = i \<and> minted f i \<and> map_of (clients f) (fe_ClientID r) \<noteq> None)"

text \<open>Audit entries have distinct ids, minted in the order of the log.\<close>

definition log_inv :: "fake \<Rightarrow> bool" where
  "log_inv f \<longleftrightarrow> distinct (map ae_ID (auditLog f)) \<and> (\<forall>e \<in> set (auditLog f). minted f (ae_ID e))"

definition fake_inv :: "fake \<Rightarrow> bool" where
  "fake_inv f \<longleftrightarrow> clients_inv f \<and> uses_inv f \<and> evidence_inv f \<and> log_inv f"

lemmas inv_defs = clients_inv_def uses_inv_def evidence_inv_def log_inv_def

lemma minted_mono: "minted f i \<Longrightarrow> seq f \<le> seq g \<Longrightarrow> minted g i"
  by (auto simp: minted_def intro: exI le_trans)

lemma minted_Suc [simp]: "seq f < seq g \<Longrightarrow> minted g (fakeID (Suc (seq f)))"
  by (auto simp: minted_def)

lemma not_minted_next [simp]: "\<not> minted f (fakeID (Suc (seq f)))"
  by (auto simp: minted_def)

lemma fake_inv_NewFake: "fake_inv (NewFake clk)"
  by (simp add: fake_inv_def inv_defs NewFake_def gomap_list_def uses_ok_def)

lemma fresh_client: "fake_inv f \<Longrightarrow> map_of (clients f) (fakeID (Suc (seq f))) = None"
  unfolding fake_inv_def clients_inv_def by (metis not_minted_next option.exhaust)

lemma fresh_evidence: "fake_inv f \<Longrightarrow> map_of (evidence f) (fakeID (Suc (seq f))) = None"
  unfolding fake_inv_def evidence_inv_def by (metis not_minted_next option.exhaust)

section \<open>Preservation by the helpers\<close>

lemma clients_inv_cong:
  "clients_inv f \<Longrightarrow> clients g = clients f \<Longrightarrow> seq f \<le> seq g \<Longrightarrow> clients_inv g"
  unfolding clients_inv_def by (metis minted_mono)

lemma evidence_inv_cong:
  "evidence_inv f \<Longrightarrow> evidence g = evidence f \<Longrightarrow>
   (\<And>i. map_of (clients f) i \<noteq> None \<Longrightarrow> map_of (clients g) i \<noteq> None) \<Longrightarrow> seq f \<le> seq g \<Longrightarrow> evidence_inv g"
  unfolding evidence_inv_def by (metis minted_mono)

lemma fake_inv_touch [simp]: "fake_inv (touch i f) = fake_inv f"
  by (simp add: fake_inv_def inv_defs minted_def)

lemma fake_inv_audit: "fake_inv f \<Longrightarrow> fake_inv (audit a i n d f)"
proof -
  assume f: "fake_inv f"
  then have "clients_inv (audit a i n d f)" "evidence_inv (audit a i n d f)"
    by (auto simp: fake_inv_def intro: clients_inv_cong evidence_inv_cong)
  moreover have "log_inv (audit a i n d f)"
    using f by (auto simp: fake_inv_def log_inv_def minted_def)
  ultimately show ?thesis using f by (simp add: fake_inv_def uses_inv_def)
qed

lemma fake_inv_put_client:
  assumes "fake_inv f" "minted f i" "cf_ID c = i" "cf_Status c \<in> set lifecycle_states"
  shows "fake_inv (put_client i c f)"
proof -
  have "clients_inv (put_client i c f)"
    using assms by (auto simp: fake_inv_def clients_inv_def distinct_update minted_def split: if_splits)
  moreover have "evidence_inv (put_client i c f)"
    using assms by (auto simp: fake_inv_def intro: evidence_inv_cong)
  ultimately show ?thesis
    using assms by (simp add: fake_inv_def uses_inv_def log_inv_def minted_def)
qed

lemma stored_client:
  "fake_inv f \<Longrightarrow> map_of (clients f) i = Some c \<Longrightarrow>
     cf_ID c = i \<and> cf_Status c \<in> set lifecycle_states \<and> minted f i"
  unfolding fake_inv_def clients_inv_def by blast

lemma fake_inv_update_client:
  assumes "fake_inv f" "map_of (clients f) i = Some c0" "cf_ID c = cf_ID c0"
    "cf_Status c \<in> set lifecycle_states"
  shows "fake_inv (put_client i c f)"
  using stored_client [OF assms(1,2)] assms by (intro fake_inv_put_client) simp_all

section \<open>The replace-all of intended uses\<close>

text \<open>The id a row ends up with, and how many ids the loop has taken.\<close>

lemma row_with_id_cases:
  obtains (keep) "row_with_id ex iu f = (iu, f)" "iu_ID iu \<noteq> []"
  | (reuse) old where "row_with_id ex iu f = (iu\<lparr>iu_ID := iu_ID old\<rparr>, f)" "iu_ID iu = []"
      "map_of ex (iu_IntendedUseID iu) = Some old"
  | (fresh) "row_with_id ex iu f = (iu\<lparr>iu_ID := fakeID (Suc (seq f))\<rparr>, f\<lparr>seq := Suc (seq f)\<rparr>)"
      "iu_ID iu = []" "map_of ex (iu_IntendedUseID iu) = None"
proof (cases "iu_ID iu = []")
  case id: True
  show thesis
  proof (cases "map_of ex (iu_IntendedUseID iu)")
    case None
    with id fresh show thesis by (simp add: row_with_id_def nextID_eq)
  next
    case (Some old)
    with id reuse show thesis by (simp add: row_with_id_def)
  qed
next
  case False
  with keep show thesis by (simp add: row_with_id_def)
qed

lemma replace_rows_frame:
  "replace_rows ex ius m f = (m', f') \<Longrightarrow> f' = f\<lparr>seq := seq f'\<rparr> \<and> seq f \<le> seq f'"
proof (induction ius arbitrary: m f)
  case (Cons iu ius)
  show ?case
  proof (cases rule: row_with_id_cases [of ex iu f])
    case keep
    with Cons.prems have "replace_rows ex ius (AList.update (iu_IntendedUseID iu) iu m) f = (m', f')"
      by simp
    from Cons.IH [OF this] show ?thesis .
  next
    case (reuse old)
    with Cons.prems have
      "replace_rows ex ius (AList.update (iu_IntendedUseID iu) (iu\<lparr>iu_ID := iu_ID old\<rparr>) m) f = (m', f')"
      by simp
    from Cons.IH [OF this] show ?thesis .
  next
    case fresh
    with Cons.prems have
      "replace_rows ex ius (AList.update (iu_IntendedUseID iu)
         (iu\<lparr>iu_ID := fakeID (Suc (seq f))\<rparr>) m) (f\<lparr>seq := Suc (seq f)\<rparr>) = (m', f')"
      by simp
    from Cons.IH [OF this] show ?thesis by simp
  qed
qed simp

lemma row_with_id_use [simp]:
  "iu_IntendedUseID (fst (row_with_id ex iu f)) = iu_IntendedUseID iu"
  by (cases rule: row_with_id_cases [of ex iu f]) simp_all

lemma replace_rows_Cons:
  "replace_rows ex (iu # ius) m f =
     replace_rows ex ius (AList.update (iu_IntendedUseID iu) (fst (row_with_id ex iu f)) m)
       (snd (row_with_id ex iu f))"
  by (cases "row_with_id ex iu f") (use row_with_id_use [of ex iu f] in simp)

declare replace_rows.simps(2) [simp del]

lemma replace_rows_keys:
  "fst ` set (fst (replace_rows ex ius m f)) = fst ` set m \<union> iu_IntendedUseID ` set ius"
  by (induction ius arbitrary: m f) (auto simp: replace_rows_Cons)

lemma replace_rows_distinct:
  "distinct (map fst m) \<Longrightarrow> distinct (map fst (fst (replace_rows ex ius m f)))"
  by (induction ius arbitrary: m f) (auto simp: replace_rows_Cons distinct_update)

text \<open>\<open>resubmits ex iu r\<close>: the row \<open>r\<close> is the submitted row \<open>iu\<close> with its own internal id, or with the
  one the existing rows have for the same use, or with a minted one.\<close>

definition resubmits :: "IntendedUse gomap \<Rightarrow> IntendedUse \<Rightarrow> IntendedUse \<Rightarrow> bool" where
  "resubmits ex iu r \<longleftrightarrow> r = iu\<lparr>iu_ID := iu_ID r\<rparr> \<and>
     (if iu_ID iu \<noteq> [] then iu_ID r = iu_ID iu
      else case map_of ex (iu_IntendedUseID iu) of
             Some old \<Rightarrow> iu_ID r = iu_ID old
           | None \<Rightarrow> \<exists>n. iu_ID r = fakeID n)"

lemma resubmits_row_with_id: "resubmits ex iu (fst (row_with_id ex iu f))"
  by (cases rule: row_with_id_cases [of ex iu f]) (auto simp: resubmits_def)

lemma replace_rows_value:
  "map_of (fst (replace_rows ex ius m f)) i = Some r \<Longrightarrow>
     (map_of m i = Some r \<and> i \<notin> iu_IntendedUseID ` set ius) \<or>
     (\<exists>iu \<in> set ius. iu_IntendedUseID iu = i \<and> resubmits ex iu r)"
proof (induction ius arbitrary: m f)
  case (Cons iu ius)
  from Cons.IH [OF Cons.prems [unfolded replace_rows_Cons]]
  show ?case
    by (auto simp: resubmits_row_with_id split: if_splits)
qed simp

lemma append_unseen_set: "set (append_unseen order is) = set order \<union> set is"
  by (induction order "is" rule: append_unseen.induct) auto

lemma append_unseen_distinct: "distinct order \<Longrightarrow> distinct (append_unseen order is)"
  by (induction order "is" rule: append_unseen.induct) auto

lemma append_unseen_eq:
  "distinct is \<Longrightarrow> append_unseen order is = order @ filter (\<lambda>i. i \<notin> set order) is"
proof (induction order "is" rule: append_unseen.induct)
  case (2 order i "is")
  then have "filter (\<lambda>j. j \<notin> set (order @ [i])) is = filter (\<lambda>j. j \<notin> set order) is"
    by (auto intro: filter_cong)
  with 2 show ?case by simp
qed simp

text \<open>The new map and order of a replace-all, and everything else unchanged.\<close>

definition replaced_map :: "string \<Rightarrow> IntendedUse list \<Rightarrow> fake \<Rightarrow> IntendedUse gomap" where
  "replaced_map i ius f = fst (replace_rows (gomap_list (intendedUses f) i) ius [] f)"

definition replaced_order :: "string \<Rightarrow> IntendedUse list \<Rightarrow> fake \<Rightarrow> string list" where
  "replaced_order i ius f =
     append_unseen (filter (\<lambda>j. j \<in> iu_IntendedUseID ` set ius) (gomap_list (intendedUseOrder f) i))
       (map iu_IntendedUseID ius)"

lemma replaced_map_keys: "fst ` set (replaced_map i ius f) = iu_IntendedUseID ` set ius"
  by (simp add: replaced_map_def replace_rows_keys)

lemma replaceIntendedUsesLocked_sel [simp]:
  "clients (replaceIntendedUsesLocked i ius f) = clients f"
  "clientUpdatedAt (replaceIntendedUsesLocked i ius f) = clientUpdatedAt f"
  "intendedUses (replaceIntendedUsesLocked i ius f) =
     AList.update i (replaced_map i ius f) (intendedUses f)"
  "intendedUseOrder (replaceIntendedUsesLocked i ius f) =
     AList.update i (replaced_order i ius f) (intendedUseOrder f)"
  "evidence (replaceIntendedUsesLocked i ius f) = evidence f"
  "deletionRequests (replaceIntendedUsesLocked i ius f) = deletionRequests f"
  "apiKeys (replaceIntendedUsesLocked i ius f) = apiKeys f"
  "auditLog (replaceIntendedUsesLocked i ius f) = auditLog f"
  "seq f \<le> seq (replaceIntendedUsesLocked i ius f)"
proof -
  obtain m g where mg: "replace_rows (gomap_list (intendedUses f) i) ius [] f = (m, g)"
    by (cases "replace_rows (gomap_list (intendedUses f) i) ius [] f")
  from replace_rows_frame [OF mg] have g: "g = f\<lparr>seq := seq g\<rparr>" "seq f \<le> seq g" by auto
  have m: "m = replaced_map i ius f" using mg by (simp add: replaced_map_def)
  have "map_of m j \<noteq> None \<longleftrightarrow> j \<in> iu_IntendedUseID ` set ius" for j
    unfolding m replaced_map_keys [of i ius f, symmetric] by (auto simp: map_of_eq_None_iff)
  then have order: "filter (\<lambda>j. map_of m j \<noteq> None) (gomap_list (intendedUseOrder g) i) =
      filter (\<lambda>j. j \<in> iu_IntendedUseID ` set ius) (gomap_list (intendedUseOrder f) i)"
    by (subst g) simp
  have eq: "replaceIntendedUsesLocked i ius f =
      g\<lparr>intendedUses := AList.update i m (intendedUses g),
        intendedUseOrder := AList.update i (replaced_order i ius f) (intendedUseOrder g)\<rparr>"
    using mg order by (simp add: replaceIntendedUsesLocked_def replaced_order_def)
  show "clients (replaceIntendedUsesLocked i ius f) = clients f"
    "clientUpdatedAt (replaceIntendedUsesLocked i ius f) = clientUpdatedAt f"
    "intendedUses (replaceIntendedUsesLocked i ius f) =
       AList.update i (replaced_map i ius f) (intendedUses f)"
    "intendedUseOrder (replaceIntendedUsesLocked i ius f) =
       AList.update i (replaced_order i ius f) (intendedUseOrder f)"
    "evidence (replaceIntendedUsesLocked i ius f) = evidence f"
    "deletionRequests (replaceIntendedUsesLocked i ius f) = deletionRequests f"
    "apiKeys (replaceIntendedUsesLocked i ius f) = apiKeys f"
    "auditLog (replaceIntendedUsesLocked i ius f) = auditLog f"
    "seq f \<le> seq (replaceIntendedUsesLocked i ius f)"
    unfolding eq m [symmetric] using g(2) by (subst g(1); simp)+
qed

lemma uses_ok_gomap: "fake_inv f \<Longrightarrow> uses_ok (gomap_list (intendedUses f) i) (gomap_list (intendedUseOrder f) i)"
  by (simp add: fake_inv_def uses_inv_def)

lemma replaced_map_value:
  "map_of (replaced_map i ius f) j = Some r \<Longrightarrow>
     \<exists>iu \<in> set ius. iu_IntendedUseID iu = j \<and> resubmits (gomap_list (intendedUses f) i) iu r"
  unfolding replaced_map_def by (drule replace_rows_value) simp

lemma uses_ok_replaced:
  assumes "fake_inv f" "\<not> list_ex (\<lambda>iu. iu_IntendedUseID iu = []) ius"
  shows "uses_ok (replaced_map i ius f) (replaced_order i ius f)"
proof -
  have ex: "uses_ok (gomap_list (intendedUses f) i) (gomap_list (intendedUseOrder f) i)"
    by (rule uses_ok_gomap [OF assms(1)])
  have row: "iu_IntendedUseID r = j \<and> j \<noteq> [] \<and> iu_ID r \<noteq> []"
    if r: "map_of (replaced_map i ius f) j = Some r" for j r
  proof -
    obtain iu where iu: "iu \<in> set ius" "iu_IntendedUseID iu = j"
      "resubmits (gomap_list (intendedUses f) i) iu r"
      using replaced_map_value [OF r] by blast
    have "iu_IntendedUseID r = iu_IntendedUseID (iu\<lparr>iu_ID := iu_ID r\<rparr>)"
      using iu(3) by (simp add: resubmits_def)
    moreover have "iu_ID r \<noteq> []"
      using iu(3) ex by (auto simp: resubmits_def uses_ok_def split: if_splits option.splits)
    ultimately show ?thesis using iu(1,2) assms(2) by (auto simp: list_ex_iff)
  qed
  have "distinct (map fst (replaced_map i ius f))"
    by (simp add: replaced_map_def replace_rows_distinct)
  moreover have "distinct (replaced_order i ius f)"
    using ex by (simp add: replaced_order_def append_unseen_distinct uses_ok_def)
  moreover have "set (replaced_order i ius f) = fst ` set (replaced_map i ius f)"
    by (auto simp: replaced_order_def append_unseen_set replaced_map_keys)
  ultimately show ?thesis using row by (simp add: uses_ok_def)
qed

lemma fake_inv_replace:
  assumes "fake_inv f" "\<not> list_ex (\<lambda>iu. iu_IntendedUseID iu = []) ius"
  shows "fake_inv (replaceIntendedUsesLocked i ius f)"
proof -
  have "clients_inv (replaceIntendedUsesLocked i ius f)" "evidence_inv (replaceIntendedUsesLocked i ius f)"
    using assms(1) by (auto simp: fake_inv_def intro: clients_inv_cong evidence_inv_cong)
  moreover have "log_inv (replaceIntendedUsesLocked i ius f)"
    using assms(1) by (auto simp: fake_inv_def log_inv_def intro: minted_mono)
  moreover have "uses_inv (replaceIntendedUsesLocked i ius f)"
    using assms uses_ok_replaced [OF assms] by (simp add: fake_inv_def uses_inv_def)
  ultimately show ?thesis by (simp add: fake_inv_def)
qed

section \<open>Preservation by the methods\<close>

lemmas inv_helpers = fake_inv_audit fake_inv_replace fake_inv_update_client

lemma inv_Transition [inv_rules]:
  assumes "fake_inv f" shows "fake_inv (snd (Fake_TransitionClient i st a ev rs f))"
proof (cases "map_of (clients f) i")
  case (Some c)
  show ?thesis
  proof (cases "(cf_Status c, st) \<in> set legalTransitions")
    case True
    then have "st \<in> set lifecycle_states" using legal_states by blast
    with Some True assms show ?thesis
      by (auto simp: Fake_TransitionClient_def Let_def intro!: inv_helpers)
  qed (use Some assms in \<open>simp add: Fake_TransitionClient_def\<close>)
qed (use assms in \<open>simp add: Fake_TransitionClient_def\<close>)

lemma fake_inv_setter:
  assumes "fake_inv f" "map_of (clients f) i = Some c0" "cf_ID c = cf_ID c0" "cf_Status c = cf_Status c0"
  shows "fake_inv (audit a i n d (touch i (put_client i c f)))"
  using assms stored_client [OF assms(1,2)] by (intro fake_inv_audit) (auto intro: inv_helpers)

lemma inv_SetClientRegistrarIdentity [inv_rules]:
  "fake_inv f \<Longrightarrow> fake_inv (snd (Fake_SetClientRegistrarIdentity i u ci a f))"
  by (auto simp: Fake_SetClientRegistrarIdentity_def Let_def split: option.split intro: fake_inv_setter)

lemma inv_SetClientWebhook [inv_rules]:
  "fake_inv f \<Longrightarrow> fake_inv (snd (Fake_SetClientWebhook i u a f))"
  by (auto simp: Fake_SetClientWebhook_def Let_def split: option.split intro: fake_inv_setter)

lemma inv_SetClientAllowedOrigins [inv_rules]:
  "fake_inv f \<Longrightarrow> fake_inv (snd (Fake_SetClientAllowedOrigins i os a f))"
  by (auto simp: Fake_SetClientAllowedOrigins_def Let_def split: option.split intro: fake_inv_setter)

lemma inv_SetClientDCAPIMode [inv_rules]:
  "fake_inv f \<Longrightarrow> fake_inv (snd (Fake_SetClientDCAPIMode i md a f))"
  by (auto simp: Fake_SetClientDCAPIMode_def Let_def split: option.split sum.split intro: fake_inv_setter)

lemma inv_CreateDraftClient [inv_rules]:
  assumes "fake_inv f" shows "fake_inv (snd (Fake_CreateDraftClient nm em a f))"
proof -
  let ?g = "f\<lparr>seq := Suc (seq f)\<rparr>"
  have "clients_inv ?g" "evidence_inv ?g" "uses_inv ?g" "log_inv ?g"
    using assms clients_inv_cong [of f ?g] evidence_inv_cong [of f ?g]
    by (auto simp: fake_inv_def uses_inv_def log_inv_def intro: minted_mono)
  then have "fake_inv ?g" by (simp add: fake_inv_def)
  then show ?thesis
    by (auto simp: Fake_CreateDraftClient_def nextID_eq Let_def lifecycle_states_def minted_def
        intro!: fake_inv_audit fake_inv_put_client)
qed

lemma inv_CreateAPIKey [inv_rules]:
  "fake_inv f \<Longrightarrow> fake_inv (snd (Fake_CreateAPIKey i p h f))"
  by (auto simp: Fake_CreateAPIKey_def fake_inv_def inv_defs minted_def split: option.split)

lemma inv_SaveWRPDocument [inv_rules]:
  assumes "fake_inv f" shows "fake_inv (snd (Fake_SaveWRPDocument i doc ius a f))"
proof (cases "map_of (clients f) i")
  case (Some c)
  with stored_client [OF assms Some] assms show ?thesis
    by (auto simp: Fake_SaveWRPDocument_def Let_def intro!: inv_helpers)
qed (use assms in \<open>simp add: Fake_SaveWRPDocument_def\<close>)

lemma inv_SetIntendedUses [inv_rules]:
  "fake_inv f \<Longrightarrow> fake_inv (snd (Fake_SetIntendedUses i ius a f))"
  by (auto simp: Fake_SetIntendedUses_def Let_def split: option.split intro!: fake_inv_audit fake_inv_replace)

lemma inv_AppendAudit [inv_rules]:
  "fake_inv f \<Longrightarrow> fake_inv (snd (Fake_AppendAudit a i n d f))"
  by (simp add: Fake_AppendAudit_def fake_inv_audit)

lemma inv_LogDeletionRequest [inv_rules]:
  assumes "fake_inv f" shows "fake_inv (snd (Fake_LogDeletionRequest i s ns f))"
proof -
  have "clients_inv f" "evidence_inv f" "uses_inv f" "log_inv f" using assms by (auto simp: fake_inv_def)
  then have "fake_inv (f\<lparr>seq := Suc (seq f), fk_ticks := t, deletionRequests := d\<rparr>)" for t d
    using clients_inv_cong [of f "f\<lparr>seq := Suc (seq f), fk_ticks := t, deletionRequests := d\<rparr>"]
      evidence_inv_cong [of f "f\<lparr>seq := Suc (seq f), fk_ticks := t, deletionRequests := d\<rparr>"]
    by (auto simp: fake_inv_def uses_inv_def log_inv_def intro: minted_mono)
  then show ?thesis
    using assms by (simp add: Fake_LogDeletionRequest_def nextID_eq now_utc_def)
qed

lemma inv_AddEvidence [inv_rules]:
  assumes "fake_inv f" shows "fake_inv (snd (Fake_AddEvidence i e ct a f))"
proof (cases "map_of (clients f) i")
  case (Some c)
  let ?k = "fakeID (Suc (seq f))"
  let ?r = "\<lparr>fe_Evidence = e\<lparr>ev_ID := ?k, ev_CreatedAt := fk_clock f (fk_ticks f)\<rparr>,
      fe_ClientID = i, fe_Content = ct\<rparr>"
  let ?g = "f\<lparr>seq := Suc (seq f), fk_ticks := Suc (fk_ticks f),
      evidence := AList.update ?k ?r (evidence f)\<rparr>"
  have "clients_inv ?g"
    using assms clients_inv_cong [of f ?g] by (simp add: fake_inv_def)
  moreover have "evidence_inv ?g"
    unfolding evidence_inv_def
  proof (intro conjI allI impI)
    show "distinct (map fst (evidence ?g))"
      using assms by (simp add: fake_inv_def evidence_inv_def distinct_update)
  next
    fix j r assume "map_of (evidence ?g) j = Some r"
    then have "j = ?k \<and> r = ?r \<or> map_of (evidence f) j = Some r" by (auto split: if_splits)
    then show "ev_ID (fe_Evidence r) = j" "minted ?g j" "map_of (clients ?g) (fe_ClientID r) \<noteq> None"
      using assms Some minted_mono [of f j ?g] by (auto simp: fake_inv_def evidence_inv_def minted_def)
  qed
  moreover have "uses_inv ?g" "log_inv ?g"
    using assms minted_mono [of f _ ?g] by (auto simp: fake_inv_def uses_inv_def log_inv_def)
  ultimately have "fake_inv ?g" by (simp add: fake_inv_def)
  then show ?thesis
    using Some by (auto simp: Fake_AddEvidence_def nextID_eq now_utc_def Let_def intro: fake_inv_audit)
qed (use assms in \<open>simp add: Fake_AddEvidence_def\<close>)

lemma map_of_purge_rows:
  "map_of (purge_rows i rows) k =
     map_option (\<lambda>r. if fe_ClientID r = i then r\<lparr>fe_Content := []\<rparr> else r) (map_of rows k)"
  unfolding purge_rows_def by (rule map_of_mapk)

lemma purge_rows_keys [simp]: "map fst (purge_rows i rows) = map fst rows"
  by (auto simp: purge_rows_def)

lemma inv_PurgeOffboarded [inv_rules]:
  assumes "fake_inv f" shows "fake_inv (snd (Fake_PurgeOffboarded i a f))"
proof -
  let ?g = "f\<lparr>evidence := purge_rows i (evidence f)\<rparr>"
  have "evidence_inv ?g"
    using assms by (auto simp: fake_inv_def evidence_inv_def map_of_purge_rows minted_def split: if_splits)
  then have "fake_inv ?g"
    using assms clients_inv_cong [of f ?g] by (simp add: fake_inv_def uses_inv_def log_inv_def minted_def)
  then show ?thesis
    using assms by (auto simp: Fake_PurgeOffboarded_def Let_def split: option.split intro: fake_inv_audit)
qed

section \<open>Calls and runs\<close>

text \<open>One constructor per method of the interface that can change the state; the read methods return
  the state they get.\<close>

datatype store_call =
    CallTransition string string string string string
  | CallCreateDraft string string string
  | CallSetRegistrarIdentity string string string string
  | CallSetWebhook string string string
  | CallSetAllowedOrigins string "string list" string
  | CallSetDCAPIMode string string string
  | CallCreateAPIKey string string string
  | CallSaveWRPDocument string raw "IntendedUse list" string
  | CallSetIntendedUses string "IntendedUse list" string
  | CallAddEvidence string Evidence bytes string
  | CallAppendAudit string string string raw
  | CallLogDeletionRequest string string "string list"
  | CallPurgeOffboarded string string

text \<open>The error a call returns, if any, and the state it leaves.\<close>

definition outcome :: "'a result \<times> 's \<Rightarrow> gerror option \<times> 's" where
  "outcome p = ((case fst p of Inl e \<Rightarrow> Some e | Inr _ \<Rightarrow> None), snd p)"

fun exec_call :: "store_call \<Rightarrow> fake \<Rightarrow> gerror option \<times> fake" where
  "exec_call (CallTransition i st a ev rs) f = outcome (Fake_TransitionClient i st a ev rs f)"
| "exec_call (CallCreateDraft nm em a) f = outcome (Fake_CreateDraftClient nm em a f)"
| "exec_call (CallSetRegistrarIdentity i u ci a) f = outcome (Fake_SetClientRegistrarIdentity i u ci a f)"
| "exec_call (CallSetWebhook i u a) f = outcome (Fake_SetClientWebhook i u a f)"
| "exec_call (CallSetAllowedOrigins i os a) f = outcome (Fake_SetClientAllowedOrigins i os a f)"
| "exec_call (CallSetDCAPIMode i md a) f = outcome (Fake_SetClientDCAPIMode i md a f)"
| "exec_call (CallCreateAPIKey i p h) f = outcome (Fake_CreateAPIKey i p h f)"
| "exec_call (CallSaveWRPDocument i doc ius a) f = outcome (Fake_SaveWRPDocument i doc ius a f)"
| "exec_call (CallSetIntendedUses i ius a) f = outcome (Fake_SetIntendedUses i ius a f)"
| "exec_call (CallAddEvidence i e ct a) f = outcome (Fake_AddEvidence i e ct a f)"
| "exec_call (CallAppendAudit a i n d) f = outcome (Fake_AppendAudit a i n d f)"
| "exec_call (CallLogDeletionRequest i s ns) f = outcome (Fake_LogDeletionRequest i s ns f)"
| "exec_call (CallPurgeOffboarded i a) f = outcome (Fake_PurgeOffboarded i a f)"

definition run_calls :: "store_call list \<Rightarrow> fake \<Rightarrow> fake" where
  "run_calls cs f = fold (\<lambda>c f. snd (exec_call c f)) cs f"

lemma outcome_simps [simp]:
  "snd (outcome p) = snd p"
  "fst (outcome p) = None \<longleftrightarrow> is_ok (fst p)"
  "fst (outcome p) = Some e \<longleftrightarrow> fst p = Inl e"
  by (auto simp: outcome_def is_ok_def split: sum.splits)

lemma run_calls_simps [simp]:
  "run_calls [] f = f" "run_calls (c # cs) f = run_calls cs (snd (exec_call c f))"
  by (simp_all add: run_calls_def)

lemma run_calls_append: "run_calls (cs @ ds) f = run_calls ds (run_calls cs f)"
  by (simp add: run_calls_def)

lemma exec_call_inv: "fake_inv f \<Longrightarrow> fake_inv (snd (exec_call c f))"
  by (cases c) (simp_all add: inv_rules)

lemma run_calls_inv: "fake_inv f \<Longrightarrow> fake_inv (run_calls cs f)"
  by (induction cs arbitrary: f) (simp_all add: exec_call_inv)

end
