(* ===== verification/FakeHistory.thy ===== *)
theory FakeHistory
  imports FakeInv
begin

text \<open>
  The lifecycle as the in-memory store runs it: the effect of every call on a client's status and on
  the transitions its audit entries record, and the theorems that hold after any sequence of calls.
\<close>

section \<open>Histories\<close>

text \<open>The transition an audit entry records, read back from its detail object.\<close>

definition detail_str :: "string \<Rightarrow> raw \<Rightarrow> string option" where
  "detail_str k d =
     (case d of
        RawJSON (JObj kvs) \<Rightarrow> (case map_of kvs k of Some (JStr s) \<Rightarrow> Some s | _ \<Rightarrow> None)
      | _ \<Rightarrow> None)"

definition edge_of :: "AuditLogEntry \<Rightarrow> (string \<times> string) option" where
  "edge_of e =
     (if ae_Action e = ''client.transition'' then
        (case (detail_str ''from'' (ae_Detail e), detail_str ''to'' (ae_Detail e)) of
           (Some a, Some b) \<Rightarrow> Some (a, b)
         | _ \<Rightarrow> None)
      else None)"

definition history :: "string \<Rightarrow> fake \<Rightarrow> (string \<times> string) list" where
  "history i f = List.map_filter edge_of (filter (\<lambda>e. ae_ClientID e = i) (auditLog f))"

text \<open>\<open>legal_path s es t\<close>: the edges lead from \<open>s\<close> to \<open>t\<close>, each a legal transition.\<close>

fun legal_path :: "string \<Rightarrow> (string \<times> string) list \<Rightarrow> string \<Rightarrow> bool" where
  "legal_path s [] t = (s = t)"
| "legal_path s ((a, b) # es) t = (s = a \<and> (a, b) \<in> set legalTransitions \<and> legal_path b es t)"

lemma legal_path_snoc:
  "legal_path s (es @ [(a, b)]) t \<longleftrightarrow> legal_path s es a \<and> (a, b) \<in> set legalTransitions \<and> b = t"
  by (induction s es t rule: legal_path.induct) auto

lemma map_filter_snoc:
  "List.map_filter h (xs @ [x]) = List.map_filter h xs @ (case h x of None \<Rightarrow> [] | Some y \<Rightarrow> [y])"
  by (simp add: List.map_filter_def split: option.split)

lemma history_cong: "auditLog f = auditLog g \<Longrightarrow> history i f = history i g"
  by (simp add: history_def)

lemma history_audit:
  "history i (audit a j n d f) =
     history i f @ (if j = i then (case edge_of (audit_entry a j n d f) of None \<Rightarrow> [] | Some e \<Rightarrow> [e]) else [])"
  by (simp add: history_def map_filter_snoc List.map_filter_simps)

lemma history_audit_other [simp]:
  "n \<noteq> ''client.transition'' \<Longrightarrow> history i (audit a j n d f) = history i f"
  by (simp add: history_audit edge_of_def)

lemma history_frames [simp]:
  "history i (touch j f) = history i f"
  "history i (put_client j c f) = history i f"
  "history i (replaceIntendedUsesLocked j ius f) = history i f"
  "history i (f\<lparr>seq := q\<rparr>) = history i f"
  "history i (f\<lparr>fk_ticks := q\<rparr>) = history i f"
  "history i (f\<lparr>evidence := es\<rparr>) = history i f"
  "history i (f\<lparr>deletionRequests := ds\<rparr>) = history i f"
  "history i (f\<lparr>apiKeys := ks\<rparr>) = history i f"
  by (simp_all add: history_def)

lemma edge_of_transition [simp]:
  "edge_of (audit_entry a i ''client.transition'' (transition_detail from to ev rs) f) = Some (from, to)"
  by (simp add: edge_of_def transition_detail_def detail_str_def emptyDetail_def marshal_map_def
      map_of_sort_key)

lemma status_of_frames [simp]:
  "status_of (touch j f) i = status_of f i"
  "status_of (audit a j n d f) i = status_of f i"
  "status_of (put_client j c f) i = (if i = j then Some (cf_Status c) else status_of f i)"
  "status_of (replaceIntendedUsesLocked j ius f) i = status_of f i"
  "status_of (f\<lparr>seq := q\<rparr>) i = status_of f i"
  "status_of (f\<lparr>fk_ticks := q\<rparr>) i = status_of f i"
  "status_of (f\<lparr>evidence := es\<rparr>) i = status_of f i"
  "status_of (f\<lparr>deletionRequests := ds\<rparr>) i = status_of f i"
  "status_of (f\<lparr>apiKeys := ks\<rparr>) i = status_of f i"
  by (simp_all add: status_of_def)

section \<open>The effect of a call on one client\<close>

text \<open>A call leaves the client's status and history alone, moves it along one legal edge and logs that
  edge, or creates it as a draft.\<close>

inductive lifecycle_step :: "string \<Rightarrow> fake \<Rightarrow> fake \<Rightarrow> bool" for i where
  stay: "status_of g i = status_of f i \<Longrightarrow> history i g = history i f \<Longrightarrow> lifecycle_step i f g"
| move: "status_of f i = Some a \<Longrightarrow> (a, b) \<in> set legalTransitions \<Longrightarrow> status_of g i = Some b \<Longrightarrow>
    history i g = history i f @ [(a, b)] \<Longrightarrow> lifecycle_step i f g"
| create: "status_of f i = None \<Longrightarrow> status_of g i = Some ''draft'' \<Longrightarrow> history i g = history i f \<Longrightarrow>
    lifecycle_step i f g"

inductive_simps lifecycle_step_iff: "lifecycle_step i f g"

definition plain_call :: "store_call \<Rightarrow> bool" where
  "plain_call c = (case c of CallAppendAudit a i n d \<Rightarrow> n \<noteq> ''client.transition'' | _ \<Rightarrow> True)"

lemma step_Transition: "lifecycle_step i f (snd (Fake_TransitionClient j st a ev rs f))"
proof (cases "map_of (clients f) j")
  case (Some c)
  show ?thesis
  proof (cases "(cf_Status c, st) \<in> set legalTransitions \<and> i = j")
    case True
    with Some show ?thesis
      by (intro lifecycle_step.move [of f i "cf_Status c" st])
         (simp_all add: Fake_TransitionClient_def status_of_def [of f] Let_def history_audit)
  next
    case False
    with Some show ?thesis
      by (intro lifecycle_step.stay) (auto simp: Fake_TransitionClient_def Let_def history_audit)
  qed
qed (simp add: Fake_TransitionClient_def lifecycle_step.stay)

lemma step_CreateDraft:
  "fake_inv f \<Longrightarrow> lifecycle_step i f (snd (Fake_CreateDraftClient nm em a f))"
  by (cases "i = fakeID (Suc (seq f))")
     (auto simp: Fake_CreateDraftClient_def nextID_eq Let_def status_of_def [of f] fresh_client
       intro: lifecycle_step.stay lifecycle_step.create)

lemma status_of_Some: "map_of (clients f) i = Some c \<Longrightarrow> status_of f i = Some (cf_Status c)"
  by (simp add: status_of_def)

lemma exec_call_step:
  assumes "fake_inv f" "plain_call c"
  shows "lifecycle_step i f (snd (exec_call c f))"
proof (cases c)
  case (CallTransition j st a ev rs)
  then show ?thesis by (simp add: step_Transition)
next
  case (CallCreateDraft nm em a)
  then show ?thesis using assms by (simp add: step_CreateDraft)
qed (use assms in \<open>auto intro!: lifecycle_step.stay split: option.split sum.split
      simp: plain_call_def Let_def status_of_Some nextID_eq now_utc_def
        Fake_SetClientRegistrarIdentity_def Fake_SetClientWebhook_def
        Fake_SetClientAllowedOrigins_def Fake_SetClientDCAPIMode_def Fake_CreateAPIKey_def
        Fake_SaveWRPDocument_def Fake_SetIntendedUses_def Fake_AddEvidence_def
        Fake_AppendAudit_def Fake_LogDeletionRequest_def Fake_PurgeOffboarded_def\<close>)

section \<open>After any sequence of calls\<close>

definition history_ok :: "fake \<Rightarrow> bool" where
  "history_ok f \<longleftrightarrow> (\<forall>i. case status_of f i of
      None \<Rightarrow> history i f = []
    | Some t \<Rightarrow> legal_path ''draft'' (history i f) t)"

lemma history_ok_step:
  assumes "history_ok f" "\<And>i. lifecycle_step i f g" shows "history_ok g"
  unfolding history_ok_def
proof
  fix i
  from assms(2) [of i] assms(1)
  show "case status_of g i of None \<Rightarrow> history i g = []
      | Some t \<Rightarrow> legal_path ''draft'' (history i g) t"
    unfolding history_ok_def
    by (cases rule: lifecycle_step.cases)
       (auto simp: legal_path_snoc split: option.splits dest!: spec [of _ i])
qed

lemma history_ok_run:
  "fake_inv f \<Longrightarrow> history_ok f \<Longrightarrow> list_all plain_call cs \<Longrightarrow> history_ok (run_calls cs f)"
proof (induction cs arbitrary: f)
  case (Cons c cs)
  then show ?case
    using history_ok_step [of f "snd (exec_call c f)"] exec_call_step [of f c] exec_call_inv
    by simp
qed simp

lemma history_ok_NewFake: "history_ok (NewFake clk)"
  by (simp add: history_ok_def NewFake_def status_of_def history_def List.map_filter_def)

lemma history_ok_runs: "list_all plain_call cs \<Longrightarrow> history_ok (run_calls cs (NewFake clk))"
  by (rule history_ok_run [OF fake_inv_NewFake history_ok_NewFake])

lemma history_ok_path: "history_ok f \<Longrightarrow> status_of f i = Some t \<Longrightarrow> legal_path ''draft'' (history i f) t"
  unfolding history_ok_def by (drule spec [of _ i]) simp

definition onboarding :: "(string \<times> string) list" where
  "onboarding = [(''draft'', ''evidence_submitted''), (''evidence_submitted'', ''filed_with_registrar''),
     (''filed_with_registrar'', ''registered''), (''registered'', ''active'')]"

lemma legal_from:
  "(''draft'', b) \<in> set legalTransitions \<longleftrightarrow> b = ''evidence_submitted''"
  "(''evidence_submitted'', b) \<in> set legalTransitions \<longleftrightarrow> b = ''filed_with_registrar''"
  "(''filed_with_registrar'', b) \<in> set legalTransitions \<longleftrightarrow> b = ''registered''"
  "(''registered'', b) \<in> set legalTransitions \<longleftrightarrow> b = ''active''"
  "(''offboarded'', b) \<notin> set legalTransitions"
  by (auto simp: legalTransitions_def)

lemma legal_path_unique_next:
  "(\<And>b. (s, b) \<in> set legalTransitions \<longleftrightarrow> b = s') \<Longrightarrow>
   legal_path s es t \<longleftrightarrow> es = [] \<and> t = s \<or> (\<exists>ds. es = (s, s') # ds \<and> legal_path s' ds t)"
proof (cases es)
  case (Cons e ds)
  assume next_s: "\<And>b. (s, b) \<in> set legalTransitions \<longleftrightarrow> b = s'"
  obtain a b where "e = (a, b)" by (cases e)
  then have "legal_path s es t \<longleftrightarrow> a = s \<and> (s, b) \<in> set legalTransitions \<and> legal_path b ds t"
    using Cons by (cases "s = a") auto
  then show ?thesis using Cons \<open>e = (a, b)\<close> next_s [of b] by (cases "b = s'") simp_all
qed auto

text \<open>A legal path from draft runs through the onboarding chain: it is a prefix of it, or has it as a
  prefix.\<close>

lemma legal_path_onboarding:
  "legal_path ''draft'' es t \<Longrightarrow>
     take 4 es = take (length es) onboarding \<and>
     (t \<in> {''active'', ''suspended'', ''offboarded''} \<longrightarrow> 4 \<le> length es)"
  by (auto simp: legal_path_unique_next [OF legal_from(1)] legal_path_unique_next [OF legal_from(2)]
      legal_path_unique_next [OF legal_from(3)] legal_path_unique_next [OF legal_from(4)] onboarding_def)

text \<open>
  C13 (the audit log is the lifecycle): after any sequence of store calls on a new store, none of which
  appends a transition entry by hand, the transition entries of a client read in log order form a
  legal path from draft to the status the client has now.
\<close>

theorem audit_log_is_lifecycle:
  assumes "list_all plain_call cs" "status_of (run_calls cs (NewFake clk)) i = Some t"
  shows "legal_path ''draft'' (history i (run_calls cs (NewFake clk))) t"
  by (rule history_ok_path [OF history_ok_runs assms(2)]) (rule assms(1))

definition demo_calls :: "store_call list" where
  "demo_calls =
     [CallCreateDraft ''Acme'' [] ''op'',
      CallTransition (fakeID 1) ''evidence_submitted'' ''op'' [] [],
      CallTransition (fakeID 1) ''active'' ''op'' [] [],
      CallTransition (fakeID 1) ''filed_with_registrar'' ''op'' [] [],
      CallTransition (fakeID 1) ''registered'' ''op'' [] [],
      CallTransition (fakeID 1) ''active'' ''op'' [] []]"

lemma demo_status: "status_of (run_calls demo_calls (NewFake (\<lambda>n. int n))) (fakeID 1) = Some ''active''"
  by (simp add: demo_calls_def Fake_CreateDraftClient_def Fake_TransitionClient_def nextID_eq NewFake_def
      legalTransitions_def Let_def status_of_def)

lemma demo_plain: "list_all plain_call demo_calls"
  by (simp add: demo_calls_def plain_call_def)

theorem audit_log_is_lifecycle_witness:
  "legal_path ''draft'' (history (fakeID 1) (run_calls demo_calls (NewFake (\<lambda>n. int n)))) ''active''"
  by (rule audit_log_is_lifecycle [OF demo_plain demo_status])

text \<open>
  C16 (no step of onboarding is skipped): a client that is active, suspended or offboarded has a log
  whose first four transition entries are the four onboarding steps in their order.
\<close>

theorem onboarding_in_order:
  assumes "list_all plain_call cs" "status_of (run_calls cs (NewFake clk)) i = Some t"
    "t \<in> {''active'', ''suspended'', ''offboarded''}"
  shows "take 4 (history i (run_calls cs (NewFake clk))) = onboarding"
proof -
  have "legal_path ''draft'' (history i (run_calls cs (NewFake clk))) t"
    by (rule history_ok_path [OF history_ok_runs assms(2)]) (rule assms(1))
  note path = legal_path_onboarding [OF this]
  then have "length onboarding \<le> length (history i (run_calls cs (NewFake clk)))"
    using assms(3) by (simp only: simp_thms) (simp add: onboarding_def)
  with path show ?thesis by (simp only: take_all)
qed

theorem onboarding_in_order_witness:
  "take 4 (history (fakeID 1) (run_calls demo_calls (NewFake (\<lambda>n. int n)))) = onboarding"
  by (rule onboarding_in_order [OF demo_plain demo_status]) simp

section \<open>The abstract lifecycle\<close>

datatype phase = Draft | EvidenceSubmitted | FiledWithRegistrar | Registered | Active | Suspended | Offboarded

fun phase_rank :: "phase \<Rightarrow> nat" where
  "phase_rank Draft = 0"
| "phase_rank EvidenceSubmitted = 1"
| "phase_rank FiledWithRegistrar = 2"
| "phase_rank Registered = 3"
| "phase_rank Active = 4"
| "phase_rank Suspended = 5"
| "phase_rank Offboarded = 6"

instantiation phase :: linorder
begin

definition less_eq_phase :: "phase \<Rightarrow> phase \<Rightarrow> bool" where
  "less_eq_phase p q \<longleftrightarrow> phase_rank p \<le> phase_rank q"

definition less_phase :: "phase \<Rightarrow> phase \<Rightarrow> bool" where
  "less_phase p q \<longleftrightarrow> phase_rank p < phase_rank q"

instance
proof
  fix p q :: phase
  show "p \<le> q \<Longrightarrow> q \<le> p \<Longrightarrow> p = q"
    by (cases p; cases q) (simp_all add: less_eq_phase_def)
qed (auto simp: less_eq_phase_def less_phase_def)

end

text \<open>The states of the comment above \<^verbatim>\<open>legalTransitions\<close>, as a machine of its own.\<close>

fun phase_next :: "phase \<Rightarrow> phase list" where
  "phase_next Draft = [EvidenceSubmitted]"
| "phase_next EvidenceSubmitted = [FiledWithRegistrar]"
| "phase_next FiledWithRegistrar = [Registered]"
| "phase_next Registered = [Active]"
| "phase_next Active = [Suspended, Offboarded]"
| "phase_next Suspended = [Active, Offboarded]"
| "phase_next Offboarded = []"

fun phase_name :: "phase \<Rightarrow> string" where
  "phase_name Draft = ''draft''"
| "phase_name EvidenceSubmitted = ''evidence_submitted''"
| "phase_name FiledWithRegistrar = ''filed_with_registrar''"
| "phase_name Registered = ''registered''"
| "phase_name Active = ''active''"
| "phase_name Suspended = ''suspended''"
| "phase_name Offboarded = ''offboarded''"

definition all_phases :: "phase list" where
  "all_phases = [Draft, EvidenceSubmitted, FiledWithRegistrar, Registered, Active, Suspended, Offboarded]"

definition phase_of :: "string \<Rightarrow> phase option" where
  "phase_of s = find (\<lambda>p. phase_name p = s) all_phases"

definition abs_phases :: "fake \<Rightarrow> string \<Rightarrow> phase option" where
  "abs_phases f i = (case status_of f i of None \<Rightarrow> None | Some s \<Rightarrow> phase_of s)"

lemma phase_of_name [simp]: "phase_of (phase_name p) = Some p"
  by (cases p) (simp_all add: phase_of_def all_phases_def)

lemma phase_of_Some: "phase_of s = Some p \<longleftrightarrow> s = phase_name p"
proof
  assume "phase_of s = Some p"
  then show "s = phase_name p" unfolding phase_of_def find_Some_iff by auto
qed simp

lemma legal_iff_phase_next:
  "(phase_name p, phase_name q) \<in> set legalTransitions \<longleftrightarrow> q \<in> set (phase_next p)"
  by (cases p; cases q) (simp_all add: legalTransitions_def)

lemma lifecycle_states_phases: "s \<in> set lifecycle_states \<Longrightarrow> \<exists>p. s = phase_name p"
  unfolding lifecycle_states_def by (auto intro: phase_name.simps [symmetric])

lemma phase_of_legal:
  "(a, b) \<in> set legalTransitions \<Longrightarrow> \<exists>p q. a = phase_name p \<and> b = phase_name q \<and> q \<in> set (phase_next p)"
  using legal_states lifecycle_states_phases legal_iff_phase_next by metis

text \<open>What the store promises of the lifecycle, on abstract phases.\<close>

definition spec_step :: "store_call \<Rightarrow> string \<Rightarrow> (string \<Rightarrow> phase option) \<Rightarrow> string \<Rightarrow> phase option" where
  "spec_step c fresh m =
     (case c of
        CallTransition i st a ev rs \<Rightarrow>
          (case (m i, phase_of st) of
             (Some p, Some q) \<Rightarrow> if q \<in> set (phase_next p) then m(i \<mapsto> q) else m
           | _ \<Rightarrow> m)
      | CallCreateDraft nm em a \<Rightarrow> m(fresh \<mapsto> Draft)
      | _ \<Rightarrow> m)"

lemma abs_phases_cong: "status_of g = status_of f \<Longrightarrow> abs_phases g = abs_phases f"
  by (rule ext) (simp add: abs_phases_def)

lemma abs_phases_frames [simp]:
  "abs_phases (touch j f) = abs_phases f"
  "abs_phases (audit a j n d f) = abs_phases f"
  "abs_phases (put_client j c f) = (abs_phases f)(j := phase_of (cf_Status c))"
  "abs_phases (replaceIntendedUsesLocked j ius f) = abs_phases f"
  "abs_phases (f\<lparr>seq := q\<rparr>) = abs_phases f"
  "abs_phases (f\<lparr>fk_ticks := q\<rparr>) = abs_phases f"
  "abs_phases (f\<lparr>evidence := es\<rparr>) = abs_phases f"
  "abs_phases (f\<lparr>deletionRequests := ds\<rparr>) = abs_phases f"
  "abs_phases (f\<lparr>apiKeys := ks\<rparr>) = abs_phases f"
  by (auto simp: abs_phases_def fun_eq_iff)

lemma abs_phases_stored:
  "map_of (clients f) i = Some c \<Longrightarrow> abs_phases f i = phase_of (cf_Status c)"
  by (simp add: abs_phases_def status_of_def)

lemma abs_phases_same_status:
  "map_of (clients f) i = Some c \<Longrightarrow> (abs_phases f)(i := phase_of (cf_Status c)) = abs_phases f"
  by (simp add: abs_phases_stored fun_upd_idem)

lemma transition_refines:
  assumes "fake_inv f"
  shows "abs_phases (snd (Fake_TransitionClient i st a ev rs f)) =
     spec_step (CallTransition i st a ev rs) fresh (abs_phases f)"
proof (cases "map_of (clients f) i")
  case None
  then have "abs_phases f i = None" by (simp add: abs_phases_def status_of_def)
  with None show ?thesis by (simp add: Fake_TransitionClient_def spec_step_def)
next
  case (Some c)
  from stored_client [OF assms Some] obtain p where p: "cf_Status c = phase_name p"
    using lifecycle_states_phases by blast
  then have abs: "abs_phases f i = Some p" using Some by (simp add: abs_phases_stored)
  show ?thesis
  proof (cases "phase_of st")
    case None
    then have "(cf_Status c, st) \<notin> set legalTransitions"
      by (metis phase_of_legal phase_of_name option.distinct(1))
    with Some None abs show ?thesis by (simp add: Fake_TransitionClient_def spec_step_def)
  next
    case (Some q)
    then have "st = phase_name q" by (simp add: phase_of_Some)
    with \<open>map_of (clients f) i = Some c\<close> p abs show ?thesis
      by (simp add: Fake_TransitionClient_def spec_step_def legal_iff_phase_next Let_def)
  qed
qed

lemma exec_call_phases:
  assumes "fake_inv f"
  shows "abs_phases (snd (exec_call c f)) = spec_step c (fakeID (Suc (seq f))) (abs_phases f)"
proof (cases c)
  case (CallTransition i st a ev rs)
  then show ?thesis using transition_refines [OF assms] by simp
next
  case (CallCreateDraft nm em a)
  then show ?thesis
    using phase_of_name [of Draft] by (simp add: Fake_CreateDraftClient_def nextID_eq Let_def spec_step_def)
qed (simp_all add: spec_step_def Let_def nextID_eq now_utc_def abs_phases_same_status
      Fake_SetClientRegistrarIdentity_def Fake_SetClientWebhook_def
      Fake_SetClientAllowedOrigins_def Fake_SetClientDCAPIMode_def Fake_CreateAPIKey_def
      Fake_SaveWRPDocument_def Fake_SetIntendedUses_def Fake_AddEvidence_def
      Fake_AppendAudit_def Fake_LogDeletionRequest_def Fake_PurgeOffboarded_def
      split: option.split sum.split)

text \<open>
  C4 (the store implements the lifecycle machine): on every call, with any arguments, a store that
  satisfies its invariant moves the clients' phases exactly as the abstract machine does.  Only a
  transition to a next phase and the creation of a draft change a phase; a client that does not
  exist, an illegal edge and an unknown state name change nothing.
\<close>

theorem lifecycle_refinement:
  assumes "fake_inv f"
  shows "abs_phases (snd (exec_call c f)) = spec_step c (fakeID (Suc (seq f))) (abs_phases f)"
  by (rule exec_call_phases [OF assms])

theorem lifecycle_refinement_witness:
  "abs_phases (snd (exec_call (CallCreateDraft ''Acme'' [] ''op'') (NewFake (\<lambda>n. int n)))) =
     spec_step (CallCreateDraft ''Acme'' [] ''op'') (fakeID (Suc (seq (NewFake (\<lambda>n. int n)))))
       (abs_phases (NewFake (\<lambda>n. int n)))"
  by (rule lifecycle_refinement [OF fake_inv_NewFake])

text \<open>One step never lowers the phase, except that a suspended client may become active again.\<close>

definition phase_reach :: "phase \<Rightarrow> phase \<Rightarrow> bool" where
  "phase_reach p q \<longleftrightarrow> p \<le> q \<or> (p = Suspended \<and> q = Active)"

lemma phase_reach_trans: "phase_reach p q \<Longrightarrow> phase_reach q r \<Longrightarrow> phase_reach p r"
  by (cases p; cases q; cases r) (simp_all add: phase_reach_def less_eq_phase_def)

lemma phase_reach_next: "q \<in> set (phase_next p) \<Longrightarrow> phase_reach p q"
  by (cases p) (auto simp: phase_reach_def less_eq_phase_def)

lemma exec_call_reach:
  assumes "fake_inv f" "abs_phases f i = Some p"
  shows "\<exists>q. abs_phases (snd (exec_call c f)) i = Some q \<and> phase_reach p q"
proof -
  have "i \<noteq> fakeID (Suc (seq f))"
    using assms fresh_client by (auto simp: abs_phases_def status_of_def)
  with assms show ?thesis
    by (auto simp: exec_call_phases spec_step_def phase_reach_def [of p p] intro: phase_reach_next
        split: store_call.split option.split)
qed

text \<open>
  The lifecycle only moves forward: once a client exists, no sequence of store calls removes it
  or gives it an unknown status, and none brings it back to an earlier phase; the one way back is
  from suspended to active.
\<close>

theorem lifecycle_progress:
  assumes "fake_inv f" "abs_phases f i = Some p"
  shows "\<exists>q. abs_phases (run_calls cs f) i = Some q \<and> (p \<le> q \<or> (p = Suspended \<and> q = Active))"
proof -
  have "\<exists>q. abs_phases (run_calls cs f) i = Some q \<and> phase_reach p q"
    using assms
  proof (induction cs arbitrary: f p)
    case Nil
    then show ?case by (simp add: phase_reach_def)
  next
    case (Cons c cs)
    obtain q where q: "abs_phases (snd (exec_call c f)) i = Some q" "phase_reach p q"
      using exec_call_reach [OF Cons.prems] by blast
    from Cons.IH [OF exec_call_inv [OF Cons.prems(1)] q(1)] q(2) show ?case
      using phase_reach_trans by auto
  qed
  then show ?thesis by (simp add: phase_reach_def)
qed

lemma demo_draft:
  "abs_phases (run_calls [CallCreateDraft ''Acme'' [] ''op''] (NewFake (\<lambda>n. int n))) (fakeID 1) = Some Draft"
  using phase_of_name [of Draft] by (simp add: Fake_CreateDraftClient_def nextID_eq Let_def NewFake_def)

theorem lifecycle_progress_witness:
  "\<exists>q. abs_phases (run_calls [CallTransition (fakeID 1) ''evidence_submitted'' ''op'' [] []]
        (run_calls [CallCreateDraft ''Acme'' [] ''op''] (NewFake (\<lambda>n. int n)))) (fakeID 1) = Some q \<and>
     (Draft \<le> q \<or> (Draft = Suspended \<and> q = Active))"
  by (rule lifecycle_progress [OF run_calls_inv [OF fake_inv_NewFake] demo_draft])

end
