(* ===== verification/FakeOps.thy ===== *)
theory FakeOps
  imports FakeHistory
begin

text \<open>
  The functional behaviour of the in-memory store's methods: what a failed call leaves, what a
  successful one adds to the audit log, and what the replace-all of intended uses, the evidence
  store, the purge, the listings and the policy merge compute.
\<close>

lemmas op_defs =
  Fake_TransitionClient_def Fake_CreateDraftClient_def
  Fake_SetClientRegistrarIdentity_def Fake_SetClientWebhook_def Fake_SetClientAllowedOrigins_def
  Fake_SetClientDCAPIMode_def Fake_CreateAPIKey_def Fake_SaveWRPDocument_def Fake_SetIntendedUses_def
  Fake_AddEvidence_def Fake_AppendAudit_def Fake_LogDeletionRequest_def Fake_PurgeOffboarded_def

section \<open>Failed calls\<close>

lemma exec_call_error_frame: "fst (exec_call c f) = Some e \<Longrightarrow> snd (exec_call c f) = f"
  by (cases c) (auto simp: op_defs Let_def nextID_eq now_utc_def split: if_splits option.splits sum.splits)

text \<open>
  Failed calls: whatever the state and the arguments, a call that returns an error leaves every
  field of the store as it was, the clock and the sequence number included.
\<close>

theorem failed_call_changes_nothing:
  assumes "fst (exec_call c f) = Some e"
  shows "snd (exec_call c f) = f"
  by (rule exec_call_error_frame [OF assms])

theorem failed_call_changes_nothing_witness:
  "snd (exec_call (CallTransition ''x'' ''active'' ''op'' [] []) (NewFake (\<lambda>n. int n))) = NewFake (\<lambda>n. int n)"
  by (rule failed_call_changes_nothing [where e = "FromResultCode ''err:registry:not_found''"])
    (simp add: Fake_TransitionClient_def NewFake_def fail_def)

text \<open>
  C35 (the store invariant): in every state a new store reaches by calls, clients are stored under
  minted ids with one of the seven states, each client's intended-use order lists exactly its rows,
  evidence belongs to existing clients, and audit ids are distinct.
\<close>

theorem store_invariant: "fake_inv (run_calls cs (NewFake clk))"
  by (rule run_calls_inv [OF fake_inv_NewFake])

section \<open>The audit log\<close>

text \<open>Whom a call acts for, on which client, and the action name it logs.\<close>

fun call_actor :: "store_call \<Rightarrow> string" where
  "call_actor (CallTransition i st a ev rs) = a"
| "call_actor (CallCreateDraft nm em a) = a"
| "call_actor (CallSetRegistrarIdentity i u ci a) = a"
| "call_actor (CallSetWebhook i u a) = a"
| "call_actor (CallSetAllowedOrigins i os a) = a"
| "call_actor (CallSetDCAPIMode i md a) = a"
| "call_actor (CallCreateAPIKey i p h) = []"
| "call_actor (CallSaveWRPDocument i doc ius a) = a"
| "call_actor (CallSetIntendedUses i ius a) = a"
| "call_actor (CallAddEvidence i e ct a) = a"
| "call_actor (CallAppendAudit a i n d) = a"
| "call_actor (CallLogDeletionRequest i s ns) = []"
| "call_actor (CallPurgeOffboarded i a) = a"

fun call_client :: "string \<Rightarrow> store_call \<Rightarrow> string" where
  "call_client fresh (CallTransition i st a ev rs) = i"
| "call_client fresh (CallCreateDraft nm em a) = fresh"
| "call_client fresh (CallSetRegistrarIdentity i u ci a) = i"
| "call_client fresh (CallSetWebhook i u a) = i"
| "call_client fresh (CallSetAllowedOrigins i os a) = i"
| "call_client fresh (CallSetDCAPIMode i md a) = i"
| "call_client fresh (CallCreateAPIKey i p h) = i"
| "call_client fresh (CallSaveWRPDocument i doc ius a) = i"
| "call_client fresh (CallSetIntendedUses i ius a) = i"
| "call_client fresh (CallAddEvidence i e ct a) = i"
| "call_client fresh (CallAppendAudit a i n d) = i"
| "call_client fresh (CallLogDeletionRequest i s ns) = i"
| "call_client fresh (CallPurgeOffboarded i a) = i"

fun call_action :: "store_call \<Rightarrow> string option" where
  "call_action (CallTransition i st a ev rs) = Some ''client.transition''"
| "call_action (CallCreateDraft nm em a) = Some ''client.create''"
| "call_action (CallSetRegistrarIdentity i u ci a) = Some ''client.set_registrar_identity''"
| "call_action (CallSetWebhook i u a) = Some ''client.set_webhook''"
| "call_action (CallSetAllowedOrigins i os a) = Some ''client.set_allowed_origins''"
| "call_action (CallSetDCAPIMode i md a) = Some ''client.set_dcapi_mode''"
| "call_action (CallCreateAPIKey i p h) = None"
| "call_action (CallSaveWRPDocument i doc ius a) = Some ''client.save_wrp_document''"
| "call_action (CallSetIntendedUses i ius a) = Some ''client.set_intended_uses''"
| "call_action (CallAddEvidence i e ct a) = Some ''evidence.add''"
| "call_action (CallAppendAudit a i n d) = Some n"
| "call_action (CallLogDeletionRequest i s ns) = None"
| "call_action (CallPurgeOffboarded i a) = Some ''client.purge''"

definition audits :: "store_call \<Rightarrow> string \<Rightarrow> string \<Rightarrow> AuditLogEntry \<Rightarrow> bool" where
  "audits c fresh n e \<longleftrightarrow>
     ae_Actor e = call_actor c \<and> ae_ClientID e = call_client fresh c \<and> ae_Action e = n"

lemma exec_call_audits:
  "fst (exec_call c f) = None \<Longrightarrow>
   (case call_action c of
      None \<Rightarrow> auditLog (snd (exec_call c f)) = auditLog f
    | Some n \<Rightarrow> \<exists>e. auditLog (snd (exec_call c f)) = auditLog f @ [e] \<and>
                   audits c (fakeID (Suc (seq f))) n e)"
  by (cases c) (auto simp: op_defs Let_def nextID_eq now_utc_def audits_def split: if_splits option.splits sum.splits)



lemma newest_snoc: "0 \<le> n \<Longrightarrow> newest (n + 1) (xs @ [x]) = x # newest n xs"
  by (simp add: newest_def nat_add_distrib)

text \<open>
  The audit listing: after a successful audited call, listing \<open>n + 1\<close> entries of the client gives
  the new entry first and then what listing \<open>n\<close> entries gave before; for every other client the
  listing is what it was.
\<close>

theorem audit_listing_newest_first:
  assumes "fst (exec_call c f) = None" "call_action c = Some a" "0 \<le> n"
  shows "\<exists>e. audits c (fakeID (Suc (seq f))) a e \<and>
     (\<forall>old. fst (Fake_ListAuditEntries (call_client (fakeID (Suc (seq f))) c) n f) = Inr old \<longrightarrow>
        fst (Fake_ListAuditEntries (call_client (fakeID (Suc (seq f))) c) (n + 1) (snd (exec_call c f)))
          = Inr (e # old)) \<and>
     (\<forall>j m. j \<noteq> call_client (fakeID (Suc (seq f))) c \<longrightarrow>
        fst (Fake_ListAuditEntries j m (snd (exec_call c f))) = fst (Fake_ListAuditEntries j m f))"
proof -
  from exec_call_audits [OF assms(1)] assms(2) obtain e where
    "auditLog (snd (exec_call c f)) = auditLog f @ [e]" "audits c (fakeID (Suc (seq f))) a e"
    by auto
  with assms(3) show ?thesis
    by (intro exI [of _ e]) (auto simp: Fake_ListAuditEntries_def newest_snoc audits_def)
qed

theorem audit_listing_newest_first_witness:
  "\<exists>e. audits (CallCreateDraft ''Acme'' [] ''op'') (fakeID 1) ''client.create'' e \<and>
     fst (Fake_ListAuditEntries (fakeID 1) 1
       (snd (exec_call (CallCreateDraft ''Acme'' [] ''op'') (NewFake (\<lambda>n. int n))))) = Inr [e]"
  using audit_listing_newest_first
    [of "CallCreateDraft ''Acme'' [] ''op''" "NewFake (\<lambda>n. int n)" "''client.create''" 0]
  by (auto simp: Fake_CreateDraftClient_def nextID_eq Let_def NewFake_def Fake_ListAuditEntries_def newest_def)

section \<open>Intended uses\<close>

lemma listed_uses_eq:
  "listed_uses i f = List.map_filter (map_of (gomap_list (intendedUses f) i)) (gomap_list (intendedUseOrder f) i)"
  by (simp add: listed_uses_def)

lemma map_filter_ids:
  "(\<And>j. j \<in> set order \<Longrightarrow> \<exists>r. map_of m j = Some r \<and> iu_IntendedUseID r = j) \<Longrightarrow>
   map iu_IntendedUseID (List.map_filter (map_of m) order) = order"
  by (induction order) (force simp: List.map_filter_simps)+

lemma uses_ok_row:
  "uses_ok m order \<Longrightarrow> j \<in> set order \<Longrightarrow> \<exists>r. map_of m j = Some r \<and> iu_IntendedUseID r = j"
  unfolding uses_ok_def by (metis map_of_eq_None_iff option.exhaust)

lemma listed_ids: "fake_inv f \<Longrightarrow> map iu_IntendedUseID (listed_uses i f) = gomap_list (intendedUseOrder f) i"
  unfolding listed_uses_eq by (rule map_filter_ids) (rule uses_ok_row [OF uses_ok_gomap])

lemma listed_rows:
  assumes "fake_inv f"
  shows "r \<in> set (listed_uses i f) \<longleftrightarrow>
    map_of (gomap_list (intendedUses f) i) (iu_IntendedUseID r) = Some r"
proof -
  have ok: "uses_ok (gomap_list (intendedUses f) i) (gomap_list (intendedUseOrder f) i)"
    by (rule uses_ok_gomap [OF assms])
  have "r \<in> set (listed_uses i f) \<longleftrightarrow>
      (\<exists>j \<in> set (gomap_list (intendedUseOrder f) i). map_of (gomap_list (intendedUses f) i) j = Some r)"
    by (force simp: listed_uses_eq List.map_filter_def)
  also have "\<dots> \<longleftrightarrow> map_of (gomap_list (intendedUses f) i) (iu_IntendedUseID r) = Some r"
    using ok unfolding uses_ok_def by (metis map_of_mem_key)
  finally show ?thesis .
qed

definition submits :: "store_call \<Rightarrow> string \<Rightarrow> IntendedUse list \<Rightarrow> bool" where
  "submits c i ius \<longleftrightarrow>
     (case c of
        CallSaveWRPDocument j doc us a \<Rightarrow> j = i \<and> us = ius
      | CallSetIntendedUses j us a \<Rightarrow> j = i \<and> us = ius
      | _ \<Rightarrow> False)"

lemma row_with_id_seq:
  "seq f = seq g \<Longrightarrow> fst (row_with_id ex iu f) = fst (row_with_id ex iu g) \<and>
     seq (snd (row_with_id ex iu f)) = seq (snd (row_with_id ex iu g))"
  by (simp add: row_with_id_def nextID_eq split: option.split)

lemma replace_rows_seq:
  "seq f = seq g \<Longrightarrow> fst (replace_rows ex ius m f) = fst (replace_rows ex ius m g)"
proof (induction ius arbitrary: m f g)
  case (Cons iu ius)
  note row = row_with_id_seq [OF Cons.prems, of ex iu]
  show ?case
    by (simp only: replace_rows_Cons conjunct1 [OF row] Cons.IH [OF conjunct2 [OF row]])
qed simp

lemma replaced_map_cong:
  "intendedUses f = intendedUses g \<Longrightarrow> seq f = seq g \<Longrightarrow> replaced_map i ius f = replaced_map i ius g"
  by (simp add: replaced_map_def replace_rows_seq [of f g])

lemma replaced_map_frames [simp]:
  "replaced_map i ius (touch j f) = replaced_map i ius f"
  "replaced_map i ius (put_client j c f) = replaced_map i ius f"
  by (rule replaced_map_cong; simp)+

lemma submits_effect:
  assumes "submits c i ius" "fst (exec_call c f) = None"
  shows "intendedUses (snd (exec_call c f)) = AList.update i (replaced_map i ius f) (intendedUses f)"
    "intendedUseOrder (snd (exec_call c f)) = AList.update i (replaced_order i ius f) (intendedUseOrder f)"
    "\<not> list_ex (\<lambda>iu. iu_IntendedUseID iu = []) ius"
  using assms
  by (auto simp: submits_def op_defs Let_def replaced_order_def split: store_call.splits option.splits if_splits)


definition demo_store :: fake where
  "demo_store = run_calls [CallCreateDraft ''Acme'' [] ''op''] (NewFake (\<lambda>n. int n))"

definition demo_use :: "string \<Rightarrow> IntendedUse" where
  "demo_use j = \<lparr>iu_ID = [], iu_IntendedUseID = j, iu_Purpose = RawJSON (JArr []), iu_Credentials = [], iu_RevokedAt = []\<rparr>"

lemma demo_store_inv: "fake_inv demo_store"
  unfolding demo_store_def by (rule run_calls_inv [OF fake_inv_NewFake])

lemma demo_store_client: "map_of (clients demo_store) (fakeID 1) \<noteq> None"
  by (simp add: demo_store_def Fake_CreateDraftClient_def nextID_eq Let_def NewFake_def)

lemma set_uses_ok:
  "map_of (clients f) i \<noteq> None \<Longrightarrow> \<not> list_ex (\<lambda>iu. iu_IntendedUseID iu = []) ius \<Longrightarrow>
   fst (exec_call (CallSetIntendedUses i ius a) f) = None"
  by (auto simp: Fake_SetIntendedUses_def Let_def)


lemma submitted_rows:
  assumes "fake_inv f" "submits c i ius" "fst (exec_call c f) = None"
    "r \<in> set (listed_uses i (snd (exec_call c f)))"
  obtains iu where "iu \<in> set ius" "iu_IntendedUseID iu = iu_IntendedUseID r"
    "resubmits (gomap_list (intendedUses f) i) iu r"
proof -
  from assms(4) have "map_of (replaced_map i ius f) (iu_IntendedUseID r) = Some r"
    using listed_rows [OF exec_call_inv [OF assms(1)]] submits_effect(1) [OF assms(2,3)] by simp
  from replaced_map_value [OF this] that show thesis by blast
qed

lemma resubmits_id:
  assumes "fake_inv f" "resubmits (gomap_list (intendedUses f) i) iu r" "iu_ID iu = []"
    "old \<in> set (listed_uses i f)" "iu_IntendedUseID old = iu_IntendedUseID iu"
  shows "iu_ID r = iu_ID old"
  using assms listed_rows [OF assms(1), of old i] by (simp add: resubmits_def)

text \<open>
  C33 (rows of a replace-all): each row listed after a successful save is one of the submitted rows,
  unchanged but for its internal id.  A row submitted with an internal id keeps it; a row submitted
  without one gets the internal id of the row the client already had for the same intended use, so
  internal ids survive a resubmission; and no listed row is without an internal id.
\<close>

theorem intended_use_rows:
  assumes "fake_inv f" "submits c i ius" "fst (exec_call c f) = None"
    "r \<in> set (listed_uses i (snd (exec_call c f)))"
  shows "iu_ID r \<noteq> [] \<and> (\<exists>iu \<in> set ius. r = iu\<lparr>iu_ID := iu_ID r\<rparr> \<and>
     (iu_ID iu \<noteq> [] \<longrightarrow> iu_ID r = iu_ID iu) \<and>
     (iu_ID iu = [] \<longrightarrow> (\<forall>old \<in> set (listed_uses i f).
        iu_IntendedUseID old = iu_IntendedUseID iu \<longrightarrow> iu_ID r = iu_ID old)))"
proof -
  obtain iu where iu: "iu \<in> set ius" "iu_IntendedUseID iu = iu_IntendedUseID r"
    "resubmits (gomap_list (intendedUses f) i) iu r"
    using submitted_rows [OF assms] .
  have "iu_ID r \<noteq> []"
    using assms(4) listed_rows [OF exec_call_inv [OF assms(1)]] uses_ok_gomap [OF exec_call_inv [OF assms(1)]]
    unfolding uses_ok_def by blast
  moreover have "r = iu\<lparr>iu_ID := iu_ID r\<rparr>" "iu_ID iu \<noteq> [] \<longrightarrow> iu_ID r = iu_ID iu"
    using iu(3) by (auto simp: resubmits_def)
  ultimately show ?thesis
    using iu(1) resubmits_id [OF assms(1) iu(3)] by blast
qed

lemma demo_use_rows:
  "listed_uses (fakeID 1) (snd (exec_call (CallSetIntendedUses (fakeID 1) [demo_use ''b''] ''op'') demo_store)) =
     [demo_use ''b''\<lparr>iu_ID := fakeID 3\<rparr>]"
  by (simp add: listed_uses_def demo_store_def demo_use_def Fake_CreateDraftClient_def nextID_eq Let_def NewFake_def
      gomap_list_def List.map_filter_def Fake_SetIntendedUses_def replaced_map_def replaced_order_def
      replace_rows_Cons row_with_id_def eval_nat_numeral)

theorem intended_use_rows_witness:
  "\<exists>iu \<in> set [demo_use ''b'']. demo_use ''b''\<lparr>iu_ID := fakeID 3\<rparr> = iu\<lparr>iu_ID := fakeID 3\<rparr>"
  using intended_use_rows
    [of demo_store "CallSetIntendedUses (fakeID 1) [demo_use ''b''] ''op''" "fakeID 1" "[demo_use ''b'']"
      "demo_use ''b''\<lparr>iu_ID := fakeID 3\<rparr>", OF demo_store_inv _ set_uses_ok [OF demo_store_client]]
  unfolding demo_use_rows by (simp add: submits_def demo_use_def)

text \<open>
  Read, then write back: submitting the rows a client lists leaves the listing as it is, rows,
  internal ids and order.
\<close>

theorem intended_uses_write_back:
  assumes "fake_inv f" "map_of (clients f) i \<noteq> None"
  shows "listed_uses i (snd (Fake_SetIntendedUses i (listed_uses i f) a f)) = listed_uses i f"
proof (rule nth_equalityI)
  let ?c = "CallSetIntendedUses i (listed_uses i f) a"
  let ?g = "snd (exec_call ?c f)" and ?xs = "listed_uses i f"
  have ok: "uses_ok (gomap_list (intendedUses f) i) (gomap_list (intendedUseOrder f) i)"
    by (rule uses_ok_gomap [OF assms(1)])
  have ids: "distinct (map iu_IntendedUseID ?xs)"
    using ok listed_ids [OF assms(1)] by (simp add: uses_ok_def)
  have row: "iu_IntendedUseID r \<noteq> [] \<and> iu_ID r \<noteq> []" if "r \<in> set ?xs" for r
    using that listed_rows [OF assms(1)] ok unfolding uses_ok_def by blast
  then have fin: "fst (exec_call ?c f) = None"
    by (intro set_uses_ok [OF assms(2)]) (auto simp: list_ex_iff)
  have sub: "submits ?c i ?xs" by (simp add: submits_def)
  have order: "map iu_IntendedUseID (listed_uses i ?g) = map iu_IntendedUseID ?xs"
    using submits_effect(2) [OF sub fin] listed_ids [OF exec_call_inv [OF assms(1)], of i ?c]
      listed_ids [OF assms(1), of i] append_unseen_eq [OF ids]
    by (simp add: replaced_order_def) (metis (mono_tags, lifting) append_Nil2 filter_False filter_True image_set)
  then show len: "length (listed_uses i (snd (Fake_SetIntendedUses i ?xs a f))) = length ?xs"
    using map_eq_imp_length_eq by (metis exec_call.simps(9) outcome_simps(1))
  fix k assume "k < length (listed_uses i (snd (Fake_SetIntendedUses i ?xs a f)))"
  then have k: "k < length (listed_uses i ?g)" "k < length ?xs" using len by simp_all
  obtain iu where iu: "iu \<in> set ?xs" "iu_IntendedUseID iu = iu_IntendedUseID (listed_uses i ?g ! k)"
    "resubmits (gomap_list (intendedUses f) i) iu (listed_uses i ?g ! k)"
    using submitted_rows [OF assms(1) sub fin nth_mem [OF k(1)]] .
  have "listed_uses i ?g ! k = iu" using iu(3) row [OF iu(1)] by (auto simp: resubmits_def)
  moreover have "iu_IntendedUseID (listed_uses i ?g ! k) = iu_IntendedUseID (?xs ! k)"
    using arg_cong [OF order, of "\<lambda>l. l ! k"] k by simp
  ultimately have "listed_uses i ?g ! k = ?xs ! k"
    using ids iu(1) nth_mem [OF k(2)] by (auto simp: distinct_map inj_on_def)
  then show "listed_uses i (snd (Fake_SetIntendedUses i ?xs a f)) ! k = ?xs ! k" by simp
qed

theorem intended_uses_write_back_witness:
  "\<exists>f. listed_uses (fakeID 1) f = [demo_use ''b''\<lparr>iu_ID := fakeID 3\<rparr>] \<and>
     listed_uses (fakeID 1) (snd (Fake_SetIntendedUses (fakeID 1) [demo_use ''b''\<lparr>iu_ID := fakeID 3\<rparr>] ''op'' f)) =
       [demo_use ''b''\<lparr>iu_ID := fakeID 3\<rparr>]"
proof -
  let ?f = "snd (exec_call (CallSetIntendedUses (fakeID 1) [demo_use ''b''] ''op'') demo_store)"
  have "map_of (clients ?f) (fakeID 1) \<noteq> None"
    using demo_store_client by (auto simp: Fake_SetIntendedUses_def Let_def)
  from intended_uses_write_back [OF exec_call_inv [OF demo_store_inv] this, where a = "''op''"]
  show ?thesis unfolding demo_use_rows using demo_use_rows by blast
qed

end
