(* ===== verification/FakeData.thy ===== *)
theory FakeData
  imports FakeOps
begin

text \<open>
  Evidence, purge, the dashboard listing, API keys and the policy merge of the in-memory store.
\<close>

section \<open>Evidence\<close>

definition evidence_row :: "fake \<Rightarrow> string \<Rightarrow> (string \<times> bytes \<times> string) option" where
  "evidence_row f k =
     map_option (\<lambda>r. (fe_ClientID r, fe_Content r, ev_Mime (fe_Evidence r))) (map_of (evidence f) k)"

text \<open>What one call can do to a stored evidence row: nothing, or empty its content, the latter only
  in a purge of its client.\<close>

definition purges :: "string \<Rightarrow> store_call \<Rightarrow> bool" where
  "purges i c \<longleftrightarrow> (case c of CallPurgeOffboarded j a \<Rightarrow> j = i | _ \<Rightarrow> False)"

lemma evidence_row_audit [simp]: "evidence_row (audit a j n d f) k = evidence_row f k"
  by (simp add: evidence_row_def)

lemma evidence_row_purge [simp]:
  "evidence_row (f\<lparr>evidence := purge_rows i (evidence f)\<rparr>) k =
     map_option (\<lambda>(j, ct, m). (j, if j = i then [] else ct, m)) (evidence_row f k)"
  by (cases "map_of (evidence f) k") (simp_all add: evidence_row_def map_of_purge_rows)

lemma evidence_step:
  assumes "fake_inv f" "evidence_row f k = Some (i, ct, m)"
  shows "evidence_row (snd (exec_call c f)) k = Some (i, ct, m) \<or>
     purges i c \<and> evidence_row (snd (exec_call c f)) k = Some (i, [], m)"
proof (cases c)
  case (CallAddEvidence j e cont a)
  have "k \<noteq> fakeID (Suc (seq f))"
    using assms fresh_evidence [OF assms(1)] by (auto simp: evidence_row_def)
  then show ?thesis
    using assms CallAddEvidence
    by (auto simp: Fake_AddEvidence_def evidence_row_def Let_def nextID_eq now_utc_def split: option.splits)
next
  case (CallPurgeOffboarded j a)
  then show ?thesis
    using assms by (auto simp: Fake_PurgeOffboarded_def Let_def purges_def split: option.split)
qed (use assms in \<open>auto simp: op_defs evidence_row_def Let_def nextID_eq now_utc_def
      split: option.splits sum.splits\<close>)

lemma evidence_run:
  assumes "fake_inv f" "evidence_row f k = Some (i, ct, m)"
  shows "\<exists>ct'. evidence_row (run_calls cs f) k = Some (i, ct', m) \<and> (ct' = ct \<or> ct' = []) \<and>
     (\<not> list_ex (purges i) cs \<longrightarrow> ct' = ct)"
  using assms
proof (induction cs arbitrary: f ct)
  case (Cons c cs)
  from evidence_step [OF Cons.prems, of c] obtain ct1 where
    ct1: "evidence_row (snd (exec_call c f)) k = Some (i, ct1, m)" "ct1 = ct \<or> ct1 = [] \<and> purges i c"
    by blast
  from Cons.IH [OF exec_call_inv [OF Cons.prems(1)] ct1(1)] ct1(2) show ?case by auto
qed simp

lemma GetEvidenceContent_row:
  "fst (Fake_GetEvidenceContent j k f) =
     (case evidence_row f k of
        Some (i, ct, m) \<Rightarrow> if i = j then Inr (ct, m) else fail ''registry:not_found''
      | None \<Rightarrow> fail ''registry:not_found'')"
  by (simp add: Fake_GetEvidenceContent_def evidence_row_def split: option.split)

text \<open>
  C19 (evidence is kept and isolated): evidence stored for a client can be read back by that client
  after any later calls, with its media type; its content is the stored one as long as no purge of
  that client was called, and never anything but the stored one or empty.  For every other client it
  does not exist: the answer is that of an unknown id.
\<close>

theorem evidence_kept_and_isolated:
  assumes "fake_inv f" "fst (Fake_AddEvidence i e ct a f) = Inr (k, e')"
  shows "let g = run_calls cs (snd (Fake_AddEvidence i e ct a f)) in
     (\<exists>ct'. fst (Fake_GetEvidenceContent i k g) = Inr (ct', ev_Mime e) \<and> (ct' = ct \<or> ct' = []) \<and>
        (\<not> list_ex (purges i) cs \<longrightarrow> ct' = ct)) \<and>
     (\<forall>j. j \<noteq> i \<longrightarrow> fst (Fake_GetEvidenceContent j k g) = fail ''registry:not_found'')"
proof -
  have inv: "fake_inv (snd (Fake_AddEvidence i e ct a f))" by (rule inv_AddEvidence [OF assms(1)])
  have "evidence_row (snd (Fake_AddEvidence i e ct a f)) k = Some (i, ct, ev_Mime e)"
    using assms(2) by (auto simp: Fake_AddEvidence_def evidence_row_def Let_def nextID_eq now_utc_def
        split: option.splits)
  from evidence_run [OF inv this, of cs] show ?thesis
    by (auto simp: Let_def GetEvidenceContent_row)
qed

definition demo_evidence :: Evidence where
  "demo_evidence = \<lparr>ev_ID = [], ev_Filename = ''a.pdf'', ev_Mime = ''application/pdf'', ev_SHA256 = ''00'',
     ev_SizeBytes = 2, ev_CreatedAt = 0\<rparr>"

theorem evidence_kept_and_isolated_witness:
  "\<exists>k e'. fst (Fake_AddEvidence (fakeID 1) demo_evidence ''hi'' ''op'' demo_store) = Inr (k, e') \<and>
     fst (Fake_GetEvidenceContent (fakeID 1) k
       (run_calls [CallSetWebhook (fakeID 1) ''https://rp.example/'' ''op'']
         (snd (Fake_AddEvidence (fakeID 1) demo_evidence ''hi'' ''op'' demo_store))))
       = Inr (''hi'', ''application/pdf'')"
proof -
  obtain k e' where add: "fst (Fake_AddEvidence (fakeID 1) demo_evidence ''hi'' ''op'' demo_store) = Inr (k, e')"
    using demo_store_client by (auto simp: Fake_AddEvidence_def Let_def nextID_eq now_utc_def split: option.splits)
  with evidence_kept_and_isolated
    [OF demo_store_inv add, of "[CallSetWebhook (fakeID 1) ''https://rp.example/'' ''op'']"]
  show ?thesis by (simp add: Let_def purges_def demo_evidence_def del: run_calls_simps exec_call.simps)
qed

section \<open>Purge\<close>

text \<open>
  Purge: purging succeeds exactly for an offboarded client.  Then every evidence item of the
  client reads as empty with its media type unchanged and the metadata listing is what it was, the
  evidence of other clients is untouched, and of everything else only the audit log (by the purge
  entry) changes: the client row, its intended uses and its API keys stay.
\<close>

theorem purge_offboarded:
  "let (r, g) = Fake_PurgeOffboarded i a f in
     is_ok r = (status_of f i = Some ''offboarded'') \<and>
     (\<forall>k j. fst (Fake_GetEvidenceContent j k g) =
        (if is_ok r \<and> j = i
         then (case fst (Fake_GetEvidenceContent j k f) of Inr (ct, m) \<Rightarrow> Inr ([], m) | Inl e \<Rightarrow> Inl e)
         else fst (Fake_GetEvidenceContent j k f))) \<and>
     (\<forall>j. fst (Fake_ListEvidence j g) = fst (Fake_ListEvidence j f)) \<and>
     clients g = clients f \<and> intendedUses g = intendedUses f \<and>
     intendedUseOrder g = intendedUseOrder f \<and> apiKeys g = apiKeys f \<and>
     deletionRequests g = deletionRequests f"
proof (cases "status_of f i = Some ''offboarded''")
  case True
  then obtain c where c: "map_of (clients f) i = Some c" "cf_Status c = ''offboarded''"
    by (auto simp: status_of_def)
  let ?g = "audit a i ''client.purge'' (RawJSON (JObj [])) (f\<lparr>evidence := purge_rows i (evidence f)\<rparr>)"
  have eq: "Fake_PurgeOffboarded i a f = (Inr (), ?g)"
    using c by (simp add: Fake_PurgeOffboarded_def Let_def)
  have row: "evidence_row ?g k =
      map_option (\<lambda>(j, ct, m). (j, if j = i then [] else ct, m)) (evidence_row f k)" for k
    by simp
  have list: "map fe_Evidence (filter (\<lambda>r. fe_ClientID r = j) (map snd (purge_rows i rows))) =
      map fe_Evidence (filter (\<lambda>r. fe_ClientID r = j) (map snd rows))" for j rows
    by (induction rows) (auto simp: purge_rows_def split: if_splits)
  show ?thesis
    unfolding eq using True row
    by (auto simp: GetEvidenceContent_row Fake_ListEvidence_def list fail_def split: option.split if_splits)
next
  case False
  then have "Fake_PurgeOffboarded i a f = (fail (if map_of (clients f) i = None
      then ''registry:not_found'' else ''registry:invalid''), f)"
    by (auto simp: Fake_PurgeOffboarded_def status_of_def split: option.split)
  then show ?thesis using False by simp
qed

section \<open>The dashboard listing\<close>

lemma summaries:
  assumes "fake_inv f"
  shows "cs_ID ` set (filter (\<lambda>c. cs_Status c = st) (map (summary_of f) (map snd (clients f)))) =
      {i. status_of f i = Some st}"
    "distinct (map cs_ID (map (summary_of f) (map snd (clients f))))"
proof -
  have dist: "distinct (map fst (clients f))" using assms by (simp add: fake_inv_def clients_inv_def)
  have id: "cf_ID c = i" if "(i, c) \<in> set (clients f)" for i c
    using stored_client [OF assms map_of_is_SomeI [OF dist that]] by simp
  show "cs_ID ` set (filter (\<lambda>c. cs_Status c = st) (map (summary_of f) (map snd (clients f)))) =
      {i. status_of f i = Some st}"
  proof (intro set_eqI iffI)
    fix i assume "i \<in> cs_ID ` set (filter (\<lambda>c. cs_Status c = st) (map (summary_of f) (map snd (clients f))))"
    then obtain j c where c: "(j, c) \<in> set (clients f)" "i = cf_ID c" "cf_Status c = st"
      by (auto simp: summary_of_def)
    then have "map_of (clients f) i = Some c" using dist id by simp
    with c(3) show "i \<in> {i. status_of f i = Some st}" by (simp add: status_of_def)
  next
    fix i assume "i \<in> {i. status_of f i = Some st}"
    then obtain c where c: "map_of (clients f) i = Some c" "cf_Status c = st" by (auto simp: status_of_def)
    then have "(i, c) \<in> set (clients f)" by (simp add: map_of_SomeD)
    moreover from id [OF this] have "i = cs_ID (summary_of f c)" "cs_Status (summary_of f c) = st"
      using c(2) by (simp_all add: summary_of_def)
    ultimately show "i \<in> cs_ID ` set (filter (\<lambda>c. cs_Status c = st) (map (summary_of f) (map snd (clients f))))"
      by force
  qed
  have "map cs_ID (map (summary_of f) (map snd (clients f))) = map fst (clients f)"
    using id by (auto simp: summary_of_def)
  then show "distinct (map cs_ID (map (summary_of f) (map snd (clients f))))" using dist by metis
qed

lemma distinct_filter_map: "distinct (map h xs) \<Longrightarrow> distinct (map h (filter P xs))"
  by (induction xs) auto

lemma distinct_map_sort_key [simp]: "distinct (map h (sort_key k xs)) = distinct (map h xs)"
  by (simp add: distinct_map)

lemma map_of_group_listing:
  "fst (Fake_ListClientsByState f) = Inr g \<Longrightarrow>
   gomap_list g st =
     sort_key cs_ID (filter (\<lambda>c. cs_Status c = st) (map (summary_of f) (map snd (clients f))))"
  by (auto simp: Fake_ListClientsByState_def gomap_list_def map_of_mapk [of "\<lambda>_. sort_key cs_ID"]
      map_of_group_by_status Let_def split: option.splits if_splits)

text \<open>
  The dashboard listing: the listing groups the stored clients by status; the group of a status
  lists each client in that status exactly once, in ascending order of ids, and there is no empty
  group.  The ids it gives depend only on the clients' statuses, not on the order in which Go
  iterates over its maps.
\<close>

theorem clients_by_state:
  assumes "fake_inv f" "fst (Fake_ListClientsByState f) = Inr g"
  shows "map cs_ID (gomap_list g st) = sorted_list_of_set {i. status_of f i = Some st} \<and>
     (map_of g st \<noteq> None \<longleftrightarrow> (\<exists>i. status_of f i = Some st))"
proof
  let ?cs = "filter (\<lambda>c. cs_Status c = st) (map (summary_of f) (map snd (clients f)))"
  note sums = summaries [OF assms(1)]
  have "sorted (map cs_ID (sort_key cs_ID ?cs))" by simp
  moreover have "distinct (map cs_ID (sort_key cs_ID ?cs))"
    using distinct_filter_map [OF sums(2)] by simp
  ultimately have "map cs_ID (sort_key cs_ID ?cs) = sorted_list_of_set (set (map cs_ID (sort_key cs_ID ?cs)))"
    by (metis sorted_list_of_set.idem_if_sorted_distinct)
  then show "map cs_ID (gomap_list g st) = sorted_list_of_set {i. status_of f i = Some st}"
    using sums(1) [of st] map_of_group_listing [OF assms(2), of st] by simp
  have "map_of g st \<noteq> None \<longleftrightarrow> ?cs \<noteq> []"
    using assms(2) by (auto simp: Fake_ListClientsByState_def map_of_mapk [of "\<lambda>_. sort_key cs_ID"]
        map_of_group_by_status Let_def)
  also have "\<dots> \<longleftrightarrow> cs_ID ` set ?cs \<noteq> {}" by (simp only: image_is_empty set_empty)
  finally show "map_of g st \<noteq> None \<longleftrightarrow> (\<exists>i. status_of f i = Some st)"
    using sums(1) [of st] by auto
qed

theorem clients_by_state_witness:
  "\<exists>g. fst (Fake_ListClientsByState demo_store) = Inr g \<and>
     map cs_ID (gomap_list g ''draft'') = sorted_list_of_set {i. status_of demo_store i = Some ''draft''}"
proof -
  obtain g where g: "fst (Fake_ListClientsByState demo_store) = Inr g"
    by (simp add: Fake_ListClientsByState_def)
  from clients_by_state [OF demo_store_inv g, of "''draft''"] g show ?thesis by blast
qed

section \<open>API keys\<close>

text \<open>
  Keys are only ever added: no call takes a stored key away or changes one, whatever happens to
  the client afterwards; minting for a client appends exactly the given prefix and hash to its keys.
\<close>

theorem api_keys_append_only:
  "\<exists>l. gomap_list (apiKeys (run_calls cs f)) i = gomap_list (apiKeys f) i @ l \<and>
     set l \<subseteq> {\<lparr>ak_Prefix = p, ak_SecretHash = h\<rparr> | p h. CallCreateAPIKey i p h \<in> set cs}"
proof (induction cs arbitrary: f)
  case Nil
  then show ?case by simp
next
  case (Cons c cs)
  have "\<exists>l. gomap_list (apiKeys (snd (exec_call c f))) i = gomap_list (apiKeys f) i @ l \<and>
      set l \<subseteq> {\<lparr>ak_Prefix = p, ak_SecretHash = h\<rparr> | p h. CallCreateAPIKey i p h = c}"
    by (cases c) (auto simp: op_defs Let_def nextID_eq now_utc_def split: option.split sum.split)
  then obtain l where l: "gomap_list (apiKeys (snd (exec_call c f))) i = gomap_list (apiKeys f) i @ l"
    "set l \<subseteq> {\<lparr>ak_Prefix = p, ak_SecretHash = h\<rparr> | p h. CallCreateAPIKey i p h = c}" by blast
  obtain l' where l': "gomap_list (apiKeys (run_calls (c # cs) f)) i =
      gomap_list (apiKeys (snd (exec_call c f))) i @ l'"
    "set l' \<subseteq> {\<lparr>ak_Prefix = p, ak_SecretHash = h\<rparr> | p h. CallCreateAPIKey i p h \<in> set cs}"
    using Cons.IH [of "snd (exec_call c f)"] by auto
  show ?case
  proof (intro exI conjI)
    show "gomap_list (apiKeys (run_calls (c # cs) f)) i = gomap_list (apiKeys f) i @ (l @ l')"
      using l(1) l'(1) by simp
    show "set (l @ l') \<subseteq> {\<lparr>ak_Prefix = p, ak_SecretHash = h\<rparr> | p h. CallCreateAPIKey i p h \<in> set (c # cs)}"
      using l(2) l'(2) by (simp only: set_append list.set) blast
  qed
qed

section \<open>The policy merge\<close>

text \<open>The value a policy document gives a key (the last entry counts), and whether it can be merged.\<close>

definition policy_field :: "raw \<Rightarrow> string \<Rightarrow> json option" where
  "policy_field p k = (case p of RawJSON (JObj kvs) \<Rightarrow> map_of (rev kvs) k | _ \<Rightarrow> None)"

definition mergeable :: "raw \<Rightarrow> bool" where
  "mergeable p = (case p of RawNil \<Rightarrow> True | RawJSON (JObj _) \<Rightarrow> True | _ \<Rightarrow> False)"

lemma map_of_rev_distinct: "distinct (map fst m) \<Longrightarrow> map_of (rev m) = map_of m"
  by (rule map_of_inject_set [THEN iffD2]) (simp_all add: rev_map [symmetric])

lemma policy_field_marshal_map:
  "distinct (map fst m) \<Longrightarrow> policy_field (RawJSON (marshal_map m)) k = map_of m k"
  by (simp add: policy_field_def marshal_map_def map_of_rev_distinct map_of_sort_key)

lemma merge_policy_ok: "is_ok (merge_policy p md) = mergeable p"
  by (auto simp: merge_policy_def mergeable_def Let_def split: raw.split json.split)

lemma merge_policy_field:
  assumes "merge_policy p md = Inr p'"
  shows "policy_field p' k =
    (if k = ''require_signed_dcapi'' then Some (JBool (md = ''signed''))
     else map_option remarshal (policy_field p k))"
proof -
  have "\<exists>m. distinct (map fst m) \<and> (\<forall>k. map_of m k = map_option remarshal (policy_field p k)) \<and>
      p' = RawJSON (marshal_map (AList.update ''require_signed_dcapi'' (JBool (md = ''signed'')) m))"
  proof (cases p)
    case RawNil
    with assms show ?thesis by (intro exI [of _ "[]"]) (simp add: merge_policy_def policy_field_def)
  next
    case (RawJSON j)
    then obtain kvs where "j = JObj kvs" using assms by (cases j) (auto simp: merge_policy_def)
    with assms RawJSON show ?thesis
      by (intro exI [of _ "map_any kvs"]) (simp add: merge_policy_def policy_field_def map_of_map_any distinct_map_any)
  qed (use assms in \<open>simp add: merge_policy_def\<close>)
  then show ?thesis by (auto simp: policy_field_marshal_map distinct_update)
qed

text \<open>
  Choosing a presentation mode: the setter succeeds exactly for one of the two modes, an existing
  client and a policy that is empty or a JSON object.  On success the policy it stores has the flag
  for the mode and, for every other key, the value it had before (re-encoded), and nothing else of
  the client row changes.
\<close>

theorem dcapi_mode_merge:
  "let (r, g) = Fake_SetClientDCAPIMode i md a f in
     is_ok r = ((md = ''signed'' \<or> md = ''unsigned'') \<and>
        (\<exists>c. map_of (clients f) i = Some c \<and> mergeable (cf_Policy c))) \<and>
     (is_ok r \<longrightarrow> (\<exists>c p. map_of (clients f) i = Some c \<and>
        map_of (clients g) i = Some (c\<lparr>cf_Policy := p\<rparr>) \<and>
        policy_field p ''require_signed_dcapi'' = Some (JBool (md = ''signed'')) \<and>
        (\<forall>k. k \<noteq> ''require_signed_dcapi'' \<longrightarrow>
           policy_field p k = map_option remarshal (policy_field (cf_Policy c) k))))"
proof (cases "map_of (clients f) i")
  case None
  then show ?thesis by (simp add: Fake_SetClientDCAPIMode_def)
next
  case (Some c)
  show ?thesis
  proof (cases "merge_policy (cf_Policy c) md")
    case (Inl e)
    with Some merge_policy_ok [of "cf_Policy c" md] show ?thesis
      by (simp add: Fake_SetClientDCAPIMode_def)
  next
    case (Inr p)
    with Some merge_policy_ok [of "cf_Policy c" md] merge_policy_field [OF Inr] show ?thesis
      by (auto simp: Fake_SetClientDCAPIMode_def Let_def)
  qed
qed

theorem dcapi_mode_merge_witness:
  "\<exists>c p. map_of (clients (snd (Fake_SetClientDCAPIMode (fakeID 1) ''unsigned'' ''op'' demo_store))) (fakeID 1)
       = Some (c\<lparr>cf_Policy := p\<rparr>) \<and>
     policy_field p ''require_signed_dcapi'' = Some (JBool False)"
proof -
  obtain c where c: "map_of (clients demo_store) (fakeID 1) = Some c" "mergeable (cf_Policy c)"
    by (simp add: demo_store_def Fake_CreateDraftClient_def nextID_eq Let_def NewFake_def mergeable_def)
  with dcapi_mode_merge [of "fakeID 1" "''unsigned''" "''op''" demo_store] show ?thesis
    by (auto simp: case_prod_beta Let_def)
qed

section \<open>Stored URLs\<close>

definition urls_ok :: "ClientFull \<Rightarrow> bool" where
  "urls_ok c \<longleftrightarrow> (cf_DefaultWebhook c = [] \<or> webhookURLPattern (cf_DefaultWebhook c)) \<and>
     length (cf_AllowedOrigins c) \<le> 20 \<and> list_all webOriginPattern (cf_AllowedOrigins c)"

definition all_urls_ok :: "fake \<Rightarrow> bool" where
  "all_urls_ok f \<longleftrightarrow> (\<forall>i c. map_of (clients f) i = Some c \<longrightarrow> urls_ok c)"

lemma all_urls_ok_put [simp]:
  "all_urls_ok f \<Longrightarrow> urls_ok c \<Longrightarrow> all_urls_ok (put_client i c f)"
  by (simp add: all_urls_ok_def)

lemma all_urls_ok_frames [simp]:
  "all_urls_ok (audit a i n d f) = all_urls_ok f" "all_urls_ok (touch i f) = all_urls_ok f"
  "all_urls_ok (replaceIntendedUsesLocked i ius f) = all_urls_ok f"
  "all_urls_ok (f\<lparr>seq := q\<rparr>) = all_urls_ok f"
  by (simp_all add: all_urls_ok_def)

lemma all_urls_okD: "all_urls_ok f \<Longrightarrow> map_of (clients f) i = Some c \<Longrightarrow> urls_ok c"
  by (simp add: all_urls_ok_def)

lemma urls_ok_update [simp]:
  "urls_ok (c\<lparr>cf_Status := st\<rparr>) = urls_ok c"
  "urls_ok (c\<lparr>cf_RegistryURI := u, cf_ClientIdentifier := ci\<rparr>) = urls_ok c"
  "urls_ok (c\<lparr>cf_Policy := p\<rparr>) = urls_ok c"
  "urls_ok (c\<lparr>cf_WRPDocument := d\<rparr>) = urls_ok c"
  by (simp_all add: urls_ok_def)

lemma exec_call_urls: "all_urls_ok f \<Longrightarrow> all_urls_ok (snd (exec_call c f))"
proof (cases c)
  case (CallSetWebhook i u a)
  assume "all_urls_ok f"
  then have "urls_ok (r\<lparr>cf_DefaultWebhook := u\<rparr>)"
    if "map_of (clients f) i = Some r" "webhookURLPattern u" for r
    using all_urls_okD that by (simp add: urls_ok_def)
  with \<open>all_urls_ok f\<close> CallSetWebhook show ?thesis
    by (auto simp: Fake_SetClientWebhook_def Let_def split: option.split)
next
  case (CallSetAllowedOrigins i os a)
  assume "all_urls_ok f"
  then have "urls_ok (r\<lparr>cf_AllowedOrigins := os\<rparr>)"
    if "map_of (clients f) i = Some r" "length os \<le> 20" "list_all webOriginPattern os" for r
    using all_urls_okD that by (simp add: urls_ok_def)
  with \<open>all_urls_ok f\<close> CallSetAllowedOrigins show ?thesis
    by (auto simp: Fake_SetClientAllowedOrigins_def Let_def split: option.split)
next
  case (CallCreateDraft nm em a)
  assume "all_urls_ok f"
  with CallCreateDraft show ?thesis
    by (simp add: Fake_CreateDraftClient_def Let_def nextID_eq) (simp add: urls_ok_def)
qed (auto simp: op_defs Let_def nextID_eq now_utc_def all_urls_okD [of f] all_urls_ok_def [of "f\<lparr>apiKeys := _\<rparr>"]
      all_urls_ok_def split: option.split sum.split)

text \<open>
  Stored URLs: in every state a new store reaches by calls, each client's webhook is unset or
  matches the webhook pattern, and it has at most twenty allowed origins, each matching the origin
  pattern.
\<close>

theorem stored_urls_valid:
  assumes "map_of (clients (run_calls cs (NewFake clk))) i = Some c"
  shows "(cf_DefaultWebhook c = [] \<or> webhookURLPattern (cf_DefaultWebhook c)) \<and>
     length (cf_AllowedOrigins c) \<le> 20 \<and> (\<forall>or \<in> set (cf_AllowedOrigins c). webOriginPattern or)"
proof -
  have "all_urls_ok f \<Longrightarrow> all_urls_ok (run_calls cs f)" for f
    by (induction cs arbitrary: f) (simp_all add: exec_call_urls del: exec_call.simps)
  moreover have "all_urls_ok (NewFake clk)" by (simp add: all_urls_ok_def NewFake_def)
  ultimately have "urls_ok c" using all_urls_okD assms by blast
  then show ?thesis by (simp add: urls_ok_def list_all_iff)
qed

theorem stored_urls_valid_witness:
  "\<exists>c. map_of (clients (run_calls [CallCreateDraft ''Acme'' [] ''op''] (NewFake (\<lambda>n. int n)))) (fakeID 1) = Some c \<and>
     length (cf_AllowedOrigins c) \<le> 20"
  using stored_urls_valid [of "[CallCreateDraft ''Acme'' [] ''op'']" "\<lambda>n. int n" "fakeID 1"]
    demo_store_client [unfolded demo_store_def] by blast

end
