(* ===== verification/GoUrl.thy ===== *)
theory GoUrl
  imports GoStrings
begin

text \<open>
  The URL parser of Go's standard library (\<^verbatim>\<open>net/url.Parse\<close> of the Go releases the module requires,
  with strict colons and checked IP literals), as far as the program looks at its result: whether
  parsing fails, and the scheme, user information, host, path, raw query and fragment.  \<open>None\<close> is a
  non-nil error; its text is never used.  None of these definitions models a line of the repository.
\<close>

record url =
  u_Scheme :: string
  u_Opaque :: string
  u_User :: "string option"
  u_Host :: string
  u_Path :: string
  u_RawQuery :: string
  u_ForceQuery :: bool
  u_Fragment :: string

datatype enc = EncPath | EncHost | EncZone | EncUser | EncFragment

section \<open>Escapes and hosts\<close>

definition host_char :: "char \<Rightarrow> bool" where
  "host_char c \<longleftrightarrow> is_alnum c \<or> c \<in> set ''!$&()*+,;=:[]<>-_.~'' \<or> byte_of c = 39 \<or> byte_of c = 34"

definition escape_ok :: "enc \<Rightarrow> char \<Rightarrow> char \<Rightarrow> bool" where
  "escape_ok m a b =
     (is_hex a \<and> is_hex b \<and>
      (case m of
         EncHost \<Rightarrow> 8 \<le> unhex a \<or> (a = CHR ''2'' \<and> b = CHR ''5'')
       | EncZone \<Rightarrow> (a = CHR ''2'' \<and> b = CHR ''5'') \<or> 16 * unhex a + unhex b = 32 \<or>
                    host_char (chr_of (16 * unhex a + unhex b))
       | _ \<Rightarrow> True))"

fun unescape :: "enc \<Rightarrow> string \<Rightarrow> string option" where
  "unescape m [] = Some []"
| "unescape m (c # cs) =
     (if c = CHR ''%'' then
        (case cs of
           a # b # r \<Rightarrow>
             if escape_ok m a b
             then map_option (\<lambda>t. chr_of (16 * unhex a + unhex b) # t) (unescape m r)
             else None
         | _ \<Rightarrow> None)
      else if (m = EncHost \<or> m = EncZone) \<and> byte_of c < 128 \<and> \<not> host_char c then None
      else map_option (\<lambda>t. c # t) (unescape m cs))"

lemma unescape_Nil_iff: "unescape m s = Some t \<Longrightarrow> t = [] \<longleftrightarrow> s = []"
  by (cases s) (auto split: if_splits list.splits)

text \<open>\<^verbatim>\<open>validOptionalPort\<close>: empty, or a colon and any number of digits.\<close>

definition valid_optional_port :: "string \<Rightarrow> bool" where
  "valid_optional_port p = (case p of [] \<Rightarrow> True | c # ds \<Rightarrow> c = CHR '':'' \<and> list_all is_digit ds)"

definition valid_userinfo :: "string \<Rightarrow> bool" where
  "valid_userinfo s =
     list_all (\<lambda>c. is_alnum c \<or> c \<in> set ''-._:~!$&()*+,;=%@'' \<or> byte_of c = 39) s"

section \<open>IP literals\<close>

text \<open>What \<^verbatim>\<open>netip.ParseAddr\<close> accepts as an address with colons: groups of one to four hexadecimal
  digits, at most one double colon, an optional dotted tail, an optional non-empty zone.\<close>

fun split_on :: "char \<Rightarrow> string \<Rightarrow> string list" where
  "split_on c [] = [[]]"
| "split_on c (x # xs) =
     (if x = c then [] # split_on c xs
      else (case split_on c xs of [] \<Rightarrow> [[x]] | f # fs \<Rightarrow> (x # f) # fs))"

definition ipv4_field :: "string \<Rightarrow> bool" where
  "ipv4_field f \<longleftrightarrow> f \<noteq> [] \<and> list_all is_digit f \<and> (length f = 1 \<or> hd f \<noteq> CHR ''0'') \<and>
     length f \<le> 3 \<and> dec_val f \<le> 255"

definition ipv4_text :: "string \<Rightarrow> bool" where
  "ipv4_text s \<longleftrightarrow> length (split_on (CHR ''.'') s) = 4 \<and> list_all ipv4_field (split_on (CHR ''.'') s)"

definition ipv6_finish :: "nat \<Rightarrow> bool \<Rightarrow> string \<Rightarrow> bool" where
  "ipv6_finish i ell s \<longleftrightarrow> s = [] \<and> (if i < 16 then ell else \<not> ell)"

function ipv6_groups :: "nat \<Rightarrow> bool \<Rightarrow> string \<Rightarrow> bool" where
  "ipv6_groups i ell s =
     (if \<not> i < 16 then ipv6_finish i ell s
      else
        let h = takeWhile is_hex s; r = drop (length h) s in
        if h = [] \<or> 4 < length h then False
        else if r \<noteq> [] \<and> hd r = CHR ''.'' then
          (ell \<or> i = 12) \<and> i + 4 \<le> 16 \<and> ipv4_text s \<and> ipv6_finish (i + 4) ell []
        else if r = [] then ipv6_finish (i + 2) ell []
        else if hd r \<noteq> CHR '':'' \<or> tl r = [] then False
        else if hd (tl r) = CHR '':'' then
          (if ell then False
           else if tl (tl r) = [] then ipv6_finish (i + 2) True []
           else ipv6_groups (i + 2) True (tl (tl r)))
        else ipv6_groups (i + 2) ell (tl r))"
  by pat_completeness auto
termination
  by (relation "measure (\<lambda>(i, ell, s). 16 - i)") auto

declare ipv6_groups.simps [simp del]

definition ipv6_literal :: "string \<Rightarrow> bool" where
  "ipv6_literal s =
     (let a = before (CHR ''%'') s in
      CHR '':'' \<in> set a \<and> CHR ''.'' \<notin> set (before (CHR '':'') a) \<and>
      (CHR ''%'' \<in> set s \<longrightarrow> after (CHR ''%'') s \<noteq> []) \<and>
      (if has_prefix ''::'' a then drop 2 a = [] \<or> ipv6_groups 0 True (drop 2 a)
       else ipv6_groups 0 False a))"

text \<open>The text inside the brackets: the part before the first \<^verbatim>\<open>%25\<close> is a host, the rest a zone.\<close>

fun unescape_literal :: "string \<Rightarrow> string \<Rightarrow> string option" where
  "unescape_literal acc [] = unescape EncHost (rev acc)"
| "unescape_literal acc (c # cs) =
     (if has_prefix ''%25'' (c # cs) then
        (case (unescape EncHost (rev acc), unescape EncZone (c # cs)) of
           (Some h, Some z) \<Rightarrow> Some (h @ z)
         | _ \<Rightarrow> None)
      else unescape_literal (c # acc) cs)"

definition parse_host :: "string \<Rightarrow> string option" where
  "parse_host host =
     (if CHR ''['' \<in> set host then
        (if hd host \<noteq> CHR ''['' \<or> CHR ''['' \<in> set (tl host) \<or> CHR '']'' \<notin> set host then None
         else
           let port = after_last (CHR '']'') host; name = tl (before_last (CHR '']'') host) in
           if \<not> valid_optional_port port then None
           else (case unescape_literal [] name of
                   None \<Rightarrow> None
                 | Some n \<Rightarrow> if ipv6_literal n then Some (''['' @ n @ '']'' @ port) else None))
      else if CHR '':'' \<in> set host \<and> \<not> valid_optional_port (CHR '':'' # after (CHR '':'') host) then None
      else unescape EncHost host)"

definition parse_authority :: "string \<Rightarrow> (string option \<times> string) option" where
  "parse_authority a =
     (if CHR ''@'' \<in> set a then
        (case parse_host (after_last (CHR ''@'') a) of
           None \<Rightarrow> None
         | Some h \<Rightarrow>
             let ui = before_last (CHR ''@'') a in
             if valid_userinfo ui then
               (case unescape EncUser ui of None \<Rightarrow> None | Some u \<Rightarrow> Some (Some u, h))
             else None)
      else map_option (\<lambda>h. (None, h)) (parse_host a))"

section \<open>Parsing\<close>

definition scheme_char :: "char \<Rightarrow> bool" where
  "scheme_char c \<longleftrightarrow> is_alnum c \<or> c \<in> set ''+-.''"

definition get_scheme :: "string \<Rightarrow> (string \<times> string) option" where
  "get_scheme s =
     (case s of
        [] \<Rightarrow> Some ([], [])
      | c # cs \<Rightarrow>
          if c = CHR '':'' then None
          else if \<not> (is_upper c \<or> is_lower c) then Some ([], s)
          else
            let p = takeWhile scheme_char s; r = dropWhile scheme_char s in
            if r \<noteq> [] \<and> hd r = CHR '':'' then Some (p, tl r) else Some ([], s))"

definition has_ctl :: "string \<Rightarrow> bool" where
  "has_ctl s \<longleftrightarrow> list_ex (\<lambda>c. byte_of c < 32 \<or> byte_of c = 127) s"

definition empty_url :: url where
  "empty_url = \<lparr>u_Scheme = [], u_Opaque = [], u_User = None, u_Host = [], u_Path = [],
     u_RawQuery = [], u_ForceQuery = False, u_Fragment = []\<rparr>"

text \<open>Authority and path of a text that starts with a slash or has no scheme.\<close>

definition parse_hier :: "url \<Rightarrow> string \<Rightarrow> url option" where
  "parse_hier u rest =
     (if (u_Scheme u \<noteq> [] \<or> \<not> has_prefix ''///'' rest) \<and> has_prefix ''//'' rest then
        let a = drop 2 rest in
        (case parse_authority (before (CHR ''/'') a) of
           None \<Rightarrow> None
         | Some (usr, h) \<Rightarrow>
             map_option (\<lambda>p. u\<lparr>u_User := usr, u_Host := h, u_Path := p\<rparr>)
               (unescape EncPath (from_char (CHR ''/'') a)))
      else map_option (\<lambda>p. u\<lparr>u_Path := p\<rparr>) (unescape EncPath rest))"

definition parse_nofrag :: "string \<Rightarrow> url option" where
  "parse_nofrag raw =
     (if has_ctl raw then None
      else if raw = ''*'' then Some (empty_url\<lparr>u_Path := ''*''\<rparr>)
      else
        (case get_scheme raw of
           None \<Rightarrow> None
         | Some (sch, rest0) \<Rightarrow>
             let rest = before (CHR ''?'') rest0;
                 u = empty_url\<lparr>u_Scheme := map ascii_lower sch,
                       u_RawQuery := after (CHR ''?'') rest0,
                       u_ForceQuery := (CHR ''?'' \<in> set rest0 \<and> after (CHR ''?'') rest0 = [])\<rparr> in
             if \<not> has_prefix ''/'' rest \<and> sch \<noteq> [] then Some (u\<lparr>u_Opaque := rest\<rparr>)
             else if \<not> has_prefix ''/'' rest \<and> CHR '':'' \<in> set (before (CHR ''/'') rest) then None
             else parse_hier u rest))"

definition url_Parse :: "string \<Rightarrow> url option" where
  "url_Parse raw =
     (let frag = after (CHR ''#'') raw in
      case parse_nofrag (before (CHR ''#'') raw) of
        None \<Rightarrow> None
      | Some u \<Rightarrow>
          if frag = [] then Some u
          else map_option (\<lambda>f. u\<lparr>u_Fragment := f\<rparr>) (unescape EncFragment frag))"

section \<open>What a parsed absolute URL looks like\<close>

lemma get_scheme_inv:
  "get_scheme s = Some (sch, r) \<Longrightarrow> sch \<noteq> [] \<Longrightarrow>
     s = sch @ CHR '':'' # r \<and> list_all scheme_char sch"
proof (cases s)
  case (Cons c cs)
  assume a: "get_scheme s = Some (sch, r)" and ne: "sch \<noteq> []"
  let ?d = "dropWhile scheme_char s"
  from a ne Cons have sch: "sch = takeWhile scheme_char s" and d: "?d \<noteq> []" "hd ?d = CHR '':''"
    and r: "r = tl ?d"
    by (auto simp: get_scheme_def Let_def split: if_splits)
  have "s = takeWhile scheme_char s @ ?d" by simp
  moreover from d r have "?d = CHR '':'' # r" by (cases ?d) auto
  ultimately have "s = sch @ CHR '':'' # r" using sch by metis
  then show ?thesis using sch by (auto simp: list_all_iff dest: set_takeWhileD)
qed (auto simp: get_scheme_def)

lemma get_scheme_https: "get_scheme (''https:'' @ r) = Some (''https'', r)"
  by (simp add: get_scheme_def scheme_char_def char_class_defs)

text \<open>
  A text whose parse has a scheme and a host is that scheme, \<open>://\<close>, the authority the parser
  read, and the rest, which is empty or starts with a slash or a question mark.
\<close>

lemma parse_nofrag_absolute:
  assumes p: "parse_nofrag raw = Some u" and s: "u_Scheme u \<noteq> []" and h: "u_Host u \<noteq> []"
  obtains sch auth path query where
    "raw = sch @ ''://'' @ auth @ path @ query"
    "u_Scheme u = map ascii_lower sch" "list_all scheme_char sch"
    "CHR ''/'' \<notin> set auth" "CHR ''?'' \<notin> set auth" "CHR ''?'' \<notin> set path"
    "path = [] \<or> hd path = CHR ''/''" "query = [] \<or> hd query = CHR ''?''"
    "parse_authority auth = Some (u_User u, u_Host u)"
    "unescape EncPath path = Some (u_Path u)" "u_RawQuery u = drop 1 query"
    "u_Fragment u = []"
proof -
  from p s have nstar: "raw \<noteq> ''*''"
    by (auto simp: parse_nofrag_def empty_url_def split: if_splits)
  obtain sch rest0 where g: "get_scheme raw = Some (sch, rest0)"
    using p nstar by (auto simp: parse_nofrag_def split: if_splits option.splits)
  let ?rest = "before (CHR ''?'') rest0"
  let ?u = "empty_url\<lparr>u_Scheme := map ascii_lower sch, u_RawQuery := after (CHR ''?'') rest0,
     u_ForceQuery := (CHR ''?'' \<in> set rest0 \<and> after (CHR ''?'') rest0 = [])\<rparr>"
  have cases: "(\<not> has_prefix ''/'' ?rest \<and> sch \<noteq> [] \<and> u = ?u\<lparr>u_Opaque := ?rest\<rparr>) \<or>
      parse_hier ?u ?rest = Some u"
    using p nstar g by (auto simp: parse_nofrag_def Let_def split: if_splits)
  with h have ph: "parse_hier ?u ?rest = Some u"
    by (auto simp: empty_url_def)
  with h have pre: "has_prefix ''//'' ?rest"
    by (auto simp: parse_hier_def Let_def empty_url_def split: if_splits)
  define a where "a = drop 2 ?rest"
  define auth where "auth = before (CHR ''/'') a"
  define path where "path = from_char (CHR ''/'') a"
  define query where "query = from_char (CHR ''?'') rest0"
  from ph pre h obtain usr hh pp where
    pa: "parse_authority auth = Some (usr, hh)" and pp: "unescape EncPath path = Some pp"
    and u: "u = ?u\<lparr>u_User := usr, u_Host := hh, u_Path := pp\<rparr>"
    by (auto simp: parse_hier_def Let_def empty_url_def auth_def path_def a_def
        split: if_splits option.splits prod.splits)
  from s u have ns: "sch \<noteq> []" by auto
  have raw: "raw = sch @ ''://'' @ auth @ path @ query"
  proof -
    have "raw = sch @ CHR '':'' # rest0" using get_scheme_inv [OF g ns] by simp
    moreover have "rest0 = ?rest @ query" by (simp add: query_def before_from_char)
    moreover have "?rest = ''//'' @ a" using pre by (auto simp: has_prefix_iff a_def)
    moreover have "a = auth @ path" by (simp add: auth_def path_def before_from_char)
    ultimately show ?thesis by simp
  qed
  have q: "CHR ''?'' \<notin> set a" unfolding a_def by (metis in_set_dropD notin_before)
  show thesis
  proof (rule that [OF raw])
    show "u_Scheme u = map ascii_lower sch" using u by simp
    show "list_all scheme_char sch" using get_scheme_inv [OF g ns] by simp
    show "CHR ''/'' \<notin> set auth" by (simp add: auth_def)
    show "CHR ''?'' \<notin> set auth" using q set_before [of "CHR ''/''" a] by (auto simp: auth_def)
    show "CHR ''?'' \<notin> set path" using q set_from_char [of "CHR ''/''" a] by (auto simp: path_def)
    show "path = [] \<or> hd path = CHR ''/''" unfolding path_def by (rule hd_from_char)
    show "query = [] \<or> hd query = CHR ''?''" unfolding query_def by (rule hd_from_char)
    show "parse_authority auth = Some (u_User u, u_Host u)" using pa u by simp
    show "unescape EncPath path = Some (u_Path u)" using pp u by simp
    show "u_RawQuery u = drop 1 query" using u by (simp add: query_def from_char_def after_def)
    show "u_Fragment u = []" using u by (simp add: empty_url_def)
  qed
qed

lemma parse_authority_no_user:
  "parse_authority a = Some (None, h) \<Longrightarrow> CHR ''@'' \<notin> set a \<and> parse_host a = Some h"
  by (auto simp: parse_authority_def Let_def split: if_splits option.splits)

lemma parse_host_Nil_iff: "parse_host a = Some h \<Longrightarrow> h = [] \<longleftrightarrow> a = []"
  by (auto simp: parse_host_def Let_def dest: unescape_Nil_iff split: if_splits option.splits)

text \<open>Conversely, \<open>https://\<close> before an authority without user information parses to it.\<close>

lemma parse_nofrag_https_authority:
  assumes "CHR ''/'' \<notin> set a" "CHR ''?'' \<notin> set a" "CHR ''@'' \<notin> set a"
  shows "parse_nofrag (''https://'' @ a) =
    (if has_ctl (''https://'' @ a) then None
     else map_option (\<lambda>h. empty_url\<lparr>u_Scheme := ''https'', u_Host := h\<rparr>) (parse_host a))"
proof -
  have g: "get_scheme (''https://'' @ a) = Some (''https'', ''//'' @ a)"
    using get_scheme_https [of "''//'' @ a"] by simp
  have q: "CHR ''?'' \<notin> set (''//'' @ a)" using assms by auto
  have low: "map ascii_lower ''https'' = ''https''"
    by (simp add: ascii_lower_def char_class_defs)
  have h: "parse_hier v (''//'' @ a) = map_option (\<lambda>h. v\<lparr>u_User := None, u_Host := h, u_Path := []\<rparr>) (parse_host a)"
    if "u_Scheme v = ''https''" for v
    using that assms by (simp add: parse_hier_def parse_authority_def Let_def has_prefix_def
        split: option.splits)
  have pre: "has_prefix ''/'' (''//'' @ a)" by (simp add: has_prefix_def)
  show ?thesis
    using g q pre h low
    by (simp add: parse_nofrag_def Let_def empty_url_def)
qed

end
