(* ===== verification/Lifecycle.thy ===== *)
theory Lifecycle
  imports FakeData GoUrl
begin

text \<open>
  Package \<^verbatim>\<open>internal/lifecycle\<close>: the service that puts the activation gate and the purge side effect
  around the store's transition.  The package takes any \<open>Store\<close>; what it relies on is stated as two
  locales, in which its behaviour is proved once, and the in-memory store is shown to satisfy both.
\<close>

section \<open>The service\<close>

definition stateActive :: string where "stateActive = ''active''"
definition stateOffboarded :: string where "stateOffboarded = ''offboarded''"
definition stateRegistered :: string where "stateRegistered = ''registered''"
definition stateSuspended :: string where "stateSuspended = ''suspended''"

lemmas state_defs [string_consts] =
  stateActive_def stateOffboarded_def stateRegistered_def stateSuspended_def

text \<open>\<open>TS5OK\<close> is nil or a hook; the service's \<^verbatim>\<open>Store\<close> field is \<open>sv_Store\<close>.\<close>

record 's Service =
  sv_Store :: "'s Store"
  sv_TS5OK :: "(string \<Rightarrow> bool) option"

definition NewService :: "'s Store \<Rightarrow> 's Service" where
  "NewService S = \<lparr>sv_Store = S, sv_TS5OK = Some (\<lambda>_. True)\<rparr>"

definition isAbsoluteHTTPSURL :: "string \<Rightarrow> bool" where
  "isAbsoluteHTTPSURL raw =
     (case url_Parse raw of
        None \<Rightarrow> False
      | Some u \<Rightarrow> u_Scheme u = ''https'' \<and> u_Host u \<noteq> [])"

definition ts5OK :: "'s Service \<Rightarrow> string \<Rightarrow> bool" where
  "ts5OK s = (case sv_TS5OK s of Some h \<Rightarrow> h | None \<Rightarrow> (\<lambda>_. True))"

definition anyNonRevoked :: "IntendedUse list \<Rightarrow> bool" where
  "anyNonRevoked ius = list_ex (\<lambda>iu. iu_RevokedAt iu = []) ius"

definition registrarIdentityRequired :: gerror where
  "registrarIdentityRequired = NewProblem ''err:client:registrarIdentityRequired''
     [WithPublicDetail [Txt (''the client has no registrar identity recorded; set it with PUT '' @
        ''/api/clients/{id}/registrar-identity (registryUri as an absolute https URL, plus '' @
        ''clientIdentifier) before activating'')]]"

definition intendedUseRequired :: "string \<Rightarrow> gerror" where
  "intendedUseRequired i = NewProblem ''err:client:intendedUseRequired''
     [WithDetail [Txt ''client '', Str i, Txt '' has no non-revoked intended use'']]"

definition ts5CheckFailed :: gerror where
  "ts5CheckFailed = NewProblem ''err:client:ts5CheckFailed'' []"

definition checkActivationPreconditions ::
  "'s Service \<Rightarrow> ClientFull \<Rightarrow> 's \<Rightarrow> unit result \<times> 's" where
  "checkActivationPreconditions s c st =
     (if cf_ClientIdentifier c = [] \<or> \<not> isAbsoluteHTTPSURL (cf_RegistryURI c)
      then (Inl registrarIdentityRequired, st)
      else
        (case ListIntendedUses (sv_Store s) (cf_ID c) st of
           (Inl e, st) \<Rightarrow> (Inl e, st)
         | (Inr ius, st) \<Rightarrow>
             if \<not> anyNonRevoked ius then (Inl (intendedUseRequired (cf_ID c)), st)
             else if \<not> ts5OK s (cf_ID c) then (Inl ts5CheckFailed, st)
             else (Inr (), st)))"

text \<open>The part of \<^verbatim>\<open>Transition\<close> after the two special cases.\<close>

definition flip_and_purge ::
  "'s Service \<Rightarrow> string \<Rightarrow> string \<Rightarrow> string \<Rightarrow> string \<Rightarrow> string \<Rightarrow> 's \<Rightarrow> unit result \<times> 's" where
  "flip_and_purge s clientID toState actor evidenceRef reason st =
     (case TransitionClient (sv_Store s) clientID toState actor evidenceRef reason st of
        (Inl e, st) \<Rightarrow> (Inl e, st)
      | (Inr _, st) \<Rightarrow>
          if toState = stateOffboarded then PurgeOffboarded (sv_Store s) clientID actor st
          else (Inr (), st))"

text \<open>The part after the client's row was read, for the two targets with a special case.\<close>

definition transition_from ::
  "'s Service \<Rightarrow> string \<Rightarrow> string \<Rightarrow> string \<Rightarrow> string \<Rightarrow> string \<Rightarrow> ClientFull \<Rightarrow> 's \<Rightarrow> unit result \<times> 's" where
  "transition_from s clientID toState actor evidenceRef reason current st =
     (case (if toState = stateActive \<and>
              (cf_Status current = stateRegistered \<or> cf_Status current = stateSuspended)
            then checkActivationPreconditions s current st
            else (Inr (), st)) of
        (Inl e, st) \<Rightarrow> (Inl e, st)
      | (Inr _, st) \<Rightarrow>
          if toState = stateOffboarded \<and> cf_Status current = stateOffboarded
          then PurgeOffboarded (sv_Store s) clientID actor st
          else flip_and_purge s clientID toState actor evidenceRef reason st)"

definition Transition ::
  "'s Service \<Rightarrow> string \<Rightarrow> string \<Rightarrow> string \<Rightarrow> string \<Rightarrow> string \<Rightarrow> 's \<Rightarrow> unit result \<times> 's" where
  "Transition s clientID toState actor evidenceRef reason st =
     (if toState = stateActive \<or> toState = stateOffboarded then
        (case GetClientFull (sv_Store s) clientID st of
           (Inl e, st) \<Rightarrow> (Inl e, st)
         | (Inr current, st) \<Rightarrow>
             transition_from s clientID toState actor evidenceRef reason current st)
      else flip_and_purge s clientID toState actor evidenceRef reason st)"

section \<open>What the service relies on\<close>

definition usable_identity :: "ClientFull \<Rightarrow> bool" where
  "usable_identity c \<longleftrightarrow> cf_ClientIdentifier c \<noteq> [] \<and> isAbsoluteHTTPSURL (cf_RegistryURI c)"

definition gate :: "'s Service \<Rightarrow> IntendedUse list \<Rightarrow> ClientFull \<Rightarrow> bool" where
  "gate sv us c \<longleftrightarrow> usable_identity c \<and> anyNonRevoked us \<and> ts5OK sv (cf_ID c)"

text \<open>
  A store with client rows and intended-use rows.  Reads answer from the rows or fail, and change
  neither; a transition that succeeds follows a legal edge and changes one status; a purge changes
  no row.  Any call may fail for reasons of its own (a lost connection), and then changes no row.
\<close>

locale lifecycle_store =
  fixes S :: "'s Store"
    and inv :: "'s \<Rightarrow> bool"
    and row :: "'s \<Rightarrow> string \<Rightarrow> ClientFull option"
    and uses :: "'s \<Rightarrow> string \<Rightarrow> IntendedUse list"
    and legal :: "(string \<times> string) set"
  assumes row_id: "inv s \<Longrightarrow> row s i = Some c \<Longrightarrow> cf_ID c = i"
    and get_frame: "inv s \<Longrightarrow> GetClientFull S i s = (r, s') \<Longrightarrow> inv s' \<and> row s' = row s \<and> uses s' = uses s"
    and get_row: "inv s \<Longrightarrow> GetClientFull S i s = (Inr c, s') \<Longrightarrow> row s i = Some c"
    and list_frame: "inv s \<Longrightarrow> ListIntendedUses S i s = (q, s') \<Longrightarrow> inv s' \<and> row s' = row s \<and> uses s' = uses s"
    and list_uses: "inv s \<Longrightarrow> ListIntendedUses S i s = (Inr us, s') \<Longrightarrow> us = uses s i"
    and transition_ok: "inv s \<Longrightarrow> TransitionClient S i st a ev rs s = (Inr (), s') \<Longrightarrow>
      \<exists>c. row s i = Some c \<and> (cf_Status c, st) \<in> legal \<and> inv s' \<and>
          row s' = (row s)(i \<mapsto> c\<lparr>cf_Status := st\<rparr>) \<and> uses s' = uses s"
    and transition_err: "inv s \<Longrightarrow> TransitionClient S i st a ev rs s = (Inl e, s') \<Longrightarrow>
      inv s' \<and> row s' = row s \<and> uses s' = uses s"
    and purge_frame: "inv s \<Longrightarrow> PurgeOffboarded S i a s = (p, s') \<Longrightarrow>
      inv s' \<and> row s' = row s \<and> uses s' = uses s"
begin

lemma check_frame:
  assumes "sv_Store sv = S" "inv s" "checkActivationPreconditions sv c s = (r, s')"
  shows "inv s' \<and> row s' = row s \<and> uses s' = uses s \<and> (r = Inr () \<longrightarrow> gate sv (uses s (cf_ID c)) c)"
  using assms list_frame [OF assms(2), of "cf_ID c"] list_uses [OF assms(2), of "cf_ID c"]
  by (auto simp: checkActivationPreconditions_def gate_def usable_identity_def split: if_splits prod.splits sum.splits)

lemma flip_effect:
  assumes "sv_Store sv = S" "inv s" "flip_and_purge sv i st a ev rs s = (r, s')"
  shows "inv s' \<and> uses s' = uses s \<and>
     ((\<exists>e. r = Inl e) \<and> row s' = row s \<or>
      (r = Inr () \<or> st = stateOffboarded) \<and>
      (\<exists>c. row s i = Some c \<and> (cf_Status c, st) \<in> legal \<and> row s' = (row s)(i \<mapsto> c\<lparr>cf_Status := st\<rparr>)))"
proof -
  obtain q s1 where t: "TransitionClient S i st a ev rs s = (q, s1)" by fastforce
  show ?thesis
  proof (cases q)
    case (Inl e)
    with t assms transition_err [OF assms(2)] show ?thesis by (auto simp: flip_and_purge_def)
  next
    case (Inr u)
    with t have "TransitionClient S i st a ev rs s = (Inr (), s1)" by simp
    with transition_ok [OF assms(2) this] show ?thesis
      using assms purge_frame [of s1 i a] by (auto simp: flip_and_purge_def split: if_splits)
  qed
qed

lemma same_row: "row s i = Some c \<Longrightarrow> cf_Status c = st \<Longrightarrow> row s = (row s)(i \<mapsto> c\<lparr>cf_Status := st\<rparr>)"
  by (auto simp: fun_eq_iff)

definition moved :: "string \<Rightarrow> string \<Rightarrow> 's \<Rightarrow> 's \<Rightarrow> ClientFull \<Rightarrow> bool" where
  "moved i st s s' c \<longleftrightarrow> row s i = Some c \<and> row s' = (row s)(i \<mapsto> c\<lparr>cf_Status := st\<rparr>)"

definition success :: "'s Service \<Rightarrow> string \<Rightarrow> string \<Rightarrow> 's \<Rightarrow> 's \<Rightarrow> bool" where
  "success sv i st s s' \<longleftrightarrow> (\<exists>c. moved i st s s' c \<and>
     ((cf_Status c, st) \<in> legal \<or> st = stateOffboarded \<and> cf_Status c = stateOffboarded) \<and>
     (st = stateActive \<and> cf_Status c \<in> {stateRegistered, stateSuspended} \<longrightarrow> gate sv (uses s i) c))"

definition failure :: "string \<Rightarrow> string \<Rightarrow> 's \<Rightarrow> 's \<Rightarrow> bool" where
  "failure i st s s' \<longleftrightarrow> row s' = row s \<or>
     st = stateOffboarded \<and> (\<exists>c. moved i st s s' c \<and> (cf_Status c, st) \<in> legal)"

lemma transition_from_effect:
  assumes sv: "sv_Store sv = S" and s: "inv s" and c: "row s i = Some c"
    and t: "transition_from sv i st a ev rs c s = (r, s')"
  shows "inv s' \<and> uses s' = uses s \<and> (if r = Inr () then success sv i st s s' else failure i st s s')"
proof -
  have id: "cf_ID c = i" using row_id [OF s c] .
  define chk where "chk = (if st = stateActive \<and> (cf_Status c = stateRegistered \<or> cf_Status c = stateSuspended)
      then checkActivationPreconditions sv c s else (Inr (), s))"
  obtain q s2 where k: "chk = (q, s2)" by fastforce
  then have s2: "inv s2" "row s2 = row s" "uses s2 = uses s"
    "q = Inr () \<longrightarrow> st = stateActive \<and> cf_Status c \<in> {stateRegistered, stateSuspended} \<longrightarrow> gate sv (uses s i) c"
    using s check_frame [OF sv, of s c q s2] id by (auto simp: chk_def split: if_splits)
  note t2 = t [unfolded transition_from_def, folded chk_def, unfolded k]
  show ?thesis
  proof (cases q)
    case (Inl e)
    with t2 s2 show ?thesis by (auto simp: failure_def)
  next
    case ok: (Inr u)
    show ?thesis
    proof (cases "st = stateOffboarded \<and> cf_Status c = stateOffboarded")
      case True
      with t2 ok sv have "PurgeOffboarded S i a s2 = (r, s')" by simp
      from purge_frame [OF s2(1) this] s2 c True same_row [OF c] show ?thesis
        by (auto simp: success_def moved_def failure_def state_defs)
    next
      case False
      with t2 ok have "flip_and_purge sv i st a ev rs s2 = (r, s')" by auto
      from flip_effect [OF sv s2(1) this] s2 c ok show ?thesis
        by (auto simp: success_def moved_def failure_def)
    qed
  qed
qed

lemma Transition_effect:
  assumes sv: "sv_Store sv = S" and s: "inv s" and t: "Transition sv i st a ev rs s = (r, s')"
  shows "inv s' \<and> uses s' = uses s \<and> (if r = Inr () then success sv i st s s' else failure i st s s')"
proof (cases "st = stateActive \<or> st = stateOffboarded")
  case False
  with t have "flip_and_purge sv i st a ev rs s = (r, s')" by (simp add: Transition_def)
  from flip_effect [OF sv s this] False show ?thesis by (auto simp: success_def moved_def failure_def)
next
  case special: True
  obtain q s1 where g: "GetClientFull S i s = (q, s1)" by fastforce
  note s1 = get_frame [OF s g]
  show ?thesis
  proof (cases q)
    case (Inl e)
    with t special g sv s1 show ?thesis by (auto simp: Transition_def failure_def)
  next
    case (Inr c)
    with g get_row [OF s] s1 have c: "row s1 i = Some c" by auto
    from t special g Inr sv have "transition_from sv i st a ev rs c s1 = (r, s')"
      by (simp add: Transition_def)
    from transition_from_effect [OF sv _ c this] s1 show ?thesis
      by (cases "r = Inr ()") (simp_all add: success_def moved_def failure_def)
  qed
qed

end

text \<open>The verdict on a request, from the client's row and intended uses: which error, or success.\<close>

definition verdict ::
  "(string \<times> string) set \<Rightarrow> 's Service \<Rightarrow> ClientFull option \<Rightarrow> IntendedUse list \<Rightarrow> string \<Rightarrow> unit result" where
  "verdict legal sv c us st =
     (case c of
        None \<Rightarrow> fail ''registry:not_found''
      | Some c \<Rightarrow>
          if st = stateActive \<and> cf_Status c \<in> {stateRegistered, stateSuspended} \<and> \<not> gate sv us c then
            Inl (if \<not> usable_identity c then registrarIdentityRequired
                 else if \<not> anyNonRevoked us then intendedUseRequired (cf_ID c)
                 else ts5CheckFailed)
          else if (cf_Status c, st) \<in> legal \<or> st = stateOffboarded \<and> cf_Status c = stateOffboarded
          then Inr ()
          else fail ''registry:illegal_transition'')"

text \<open>A store that never fails for reasons of its own.\<close>

locale reliable_store = lifecycle_store +
  assumes get_exact: "inv s \<Longrightarrow> GetClientFull S i s =
      ((case row s i of None \<Rightarrow> fail ''registry:not_found'' | Some c \<Rightarrow> Inr c), s)"
    and list_exact: "inv s \<Longrightarrow> ListIntendedUses S i s = (Inr (uses s i), s)"
    and transition_exact: "inv s \<Longrightarrow> fst (TransitionClient S i st a ev rs s) =
      (case row s i of
         None \<Rightarrow> fail ''registry:not_found''
       | Some c \<Rightarrow> if (cf_Status c, st) \<in> legal then Inr () else fail ''registry:illegal_transition'')"
    and purge_exact: "inv s \<Longrightarrow> row s i = Some c \<Longrightarrow> cf_Status c = stateOffboarded \<Longrightarrow>
      is_ok (fst (PurgeOffboarded S i a s))"
begin

lemma check_exact:
  assumes "sv_Store sv = S" "inv s" "row s i = Some c"
  shows "checkActivationPreconditions sv c s =
    ((if gate sv (uses s i) c then Inr ()
      else Inl (if \<not> usable_identity c then registrarIdentityRequired
                else if \<not> anyNonRevoked (uses s i) then intendedUseRequired (cf_ID c)
                else ts5CheckFailed)), s)"
  using assms row_id [OF assms(2,3)]
  by (auto simp: checkActivationPreconditions_def gate_def usable_identity_def list_exact)

lemma purge_unit: "inv s \<Longrightarrow> row s i = Some c \<Longrightarrow> cf_Status c = stateOffboarded \<Longrightarrow>
  fst (PurgeOffboarded S i a s) = Inr ()"
  using purge_exact [of s i c a] by (auto simp: is_ok_iff)

lemma flip_exact:
  assumes "sv_Store sv = S" "inv s"
  shows "fst (flip_and_purge sv i st a ev rs s) =
    (case row s i of
       None \<Rightarrow> fail ''registry:not_found''
     | Some c \<Rightarrow> if (cf_Status c, st) \<in> legal then Inr () else fail ''registry:illegal_transition'')"
proof -
  obtain q s1 where t: "TransitionClient S i st a ev rs s = (q, s1)" by fastforce
  show ?thesis
  proof (cases q)
    case (Inl e)
    with t assms(1) have "fst (flip_and_purge sv i st a ev rs s) = fst (TransitionClient S i st a ev rs s)"
      by (simp add: flip_and_purge_def)
    then show ?thesis by (simp only: transition_exact [OF assms(2)])
  next
    case (Inr u)
    with t transition_ok [OF assms(2), of i st a ev rs s1] obtain c where c: "row s i = Some c"
      "(cf_Status c, st) \<in> legal" "inv s1" "row s1 = (row s)(i \<mapsto> c\<lparr>cf_Status := st\<rparr>)" by auto
    then have "st = stateOffboarded \<Longrightarrow> fst (PurgeOffboarded S i a s1) = Inr ()"
      using purge_unit [of s1 i "c\<lparr>cf_Status := st\<rparr>" a] by simp
    with t Inr c assms(1) show ?thesis by (simp add: flip_and_purge_def)
  qed
qed

lemma transition_from_exact:
  assumes "sv_Store sv = S" "inv s" "row s i = Some c" "st = stateActive \<or> st = stateOffboarded"
  shows "fst (transition_from sv i st a ev rs c s) = verdict legal sv (Some c) (uses s i) st"
proof (cases "st = stateActive")
  case True
  then have "st \<noteq> stateOffboarded" by (simp add: state_defs)
  with True assms(3) check_exact [OF assms(1-3)] flip_exact [OF assms(1,2), of i st a ev rs]
  show ?thesis by (simp add: transition_from_def verdict_def)
next
  case False
  with assms(4) have st: "st = stateOffboarded" "st \<noteq> stateActive" by simp_all
  show ?thesis
  proof (cases "cf_Status c = stateOffboarded")
    case True
    then show ?thesis
      using st assms(1) purge_unit [OF assms(2,3)] by (simp add: transition_from_def verdict_def)
  next
    case False
    then show ?thesis
      using st assms(3) flip_exact [OF assms(1,2), of i st a ev rs]
      by (simp add: transition_from_def verdict_def)
  qed
qed

lemma Transition_exact:
  assumes "sv_Store sv = S" "inv s"
  shows "fst (Transition sv i st a ev rs s) = verdict legal sv (row s i) (uses s i) st"
proof (cases "st = stateActive \<or> st = stateOffboarded")
  case True
  then show ?thesis
    using assms get_exact [OF assms(2), of i] transition_from_exact [OF assms _ True]
    by (cases "row s i") (simp_all add: Transition_def verdict_def fail_def)
next
  case False
  then show ?thesis
    using flip_exact [OF assms] by (auto simp: Transition_def verdict_def split: option.split)
qed

end

section \<open>The in-memory store\<close>

definition fake_row :: "fake \<Rightarrow> string \<Rightarrow> ClientFull option" where
  "fake_row f = map_of (clients f)"

definition fake_uses :: "fake \<Rightarrow> string \<Rightarrow> IntendedUse list" where
  "fake_uses f i = listed_uses i f"

lemma fake_row_frames [simp]:
  "fake_row (audit a j n d f) = fake_row f" "fake_row (touch j f) = fake_row f"
  "fake_row (put_client j c f) = (fake_row f)(j \<mapsto> c)"
  "fake_row (replaceIntendedUsesLocked j ius f) = fake_row f"
  "fake_row (f\<lparr>evidence := es\<rparr>) = fake_row f"
  by (auto simp: fake_row_def)

lemma fake_uses_frames [simp]:
  "fake_uses (audit a j n d f) = fake_uses f" "fake_uses (touch j f) = fake_uses f"
  "fake_uses (put_client j c f) = fake_uses f" "fake_uses (f\<lparr>evidence := es\<rparr>) = fake_uses f"
  by (auto simp: fake_uses_def listed_uses_def fun_eq_iff)

lemma fake_transition:
  "Fake_TransitionClient i st a ev rs f =
     (case fake_row f i of
        None \<Rightarrow> (fail ''registry:not_found'', f)
      | Some c \<Rightarrow>
          if (cf_Status c, st) \<in> set legalTransitions
          then (Inr (), audit a i ''client.transition'' (transition_detail (cf_Status c) st ev rs)
                  (touch i (put_client i (c\<lparr>cf_Status := st\<rparr>) f)))
          else (fail ''registry:illegal_transition'', f))"
  by (simp add: Fake_TransitionClient_def fake_row_def Let_def split: option.split)

lemma fake_purge:
  "Fake_PurgeOffboarded i a f =
     (case fake_row f i of
        None \<Rightarrow> (fail ''registry:not_found'', f)
      | Some c \<Rightarrow>
          if cf_Status c = ''offboarded''
          then (Inr (), audit a i ''client.purge'' (RawJSON (JObj [])) (f\<lparr>evidence := purge_rows i (evidence f)\<rparr>))
          else (fail ''registry:invalid'', f))"
  by (simp add: Fake_PurgeOffboarded_def fake_row_def Let_def split: option.split)

lemma fake_get: "Fake_GetClientFull i f =
    ((case fake_row f i of None \<Rightarrow> fail ''registry:not_found'' | Some c \<Rightarrow> Inr c), f)"
  by (simp add: Fake_GetClientFull_def fake_row_def split: option.split)

interpretation fk: reliable_store FakeStore fake_inv fake_row fake_uses "set legalTransitions"
proof unfold_locales
  fix s i c assume "fake_inv s" "fake_row s i = Some c"
  then show "cf_ID c = i" using stored_client by (simp add: fake_row_def)
next
  fix s s' :: fake and i st a ev rs
  assume inv: "fake_inv s" and t: "TransitionClient FakeStore i st a ev rs s = (Inr (), s')"
  then have "fake_inv s'" using inv_Transition [OF inv, of i st a ev rs] by simp
  with t show "\<exists>c. fake_row s i = Some c \<and> (cf_Status c, st) \<in> set legalTransitions \<and> fake_inv s' \<and>
      fake_row s' = (fake_row s)(i \<mapsto> c\<lparr>cf_Status := st\<rparr>) \<and> fake_uses s' = fake_uses s"
    by (auto simp: fake_transition split: option.splits if_splits)
next
  fix s s' :: fake and i a p
  assume inv: "fake_inv s" and t: "PurgeOffboarded FakeStore i a s = (p, s')"
  then have "fake_inv s'" using inv_PurgeOffboarded [OF inv, of i a] by simp
  with t show "fake_inv s' \<and> fake_row s' = fake_row s \<and> fake_uses s' = fake_uses s"
    by (auto simp: fake_purge split: option.splits if_splits)
qed (auto simp: fake_get fake_transition fake_purge Fake_ListIntendedUses_def fake_uses_def fail_def
      stateOffboarded_def split: option.splits if_splits)

section \<open>Transitions on the in-memory store\<close>

text \<open>A client ready to be activated, as a concrete store: one draft, taken through filing, with a
  registrar identity and one intended use.\<close>

definition ready_calls :: "store_call list" where
  "ready_calls =
     [CallCreateDraft ''Acme'' [] ''op'',
      CallSetRegistrarIdentity (fakeID 1) ''https://reg.example/'' ''RP-1'' ''op'',
      CallSetIntendedUses (fakeID 1) [demo_use ''use-1''] ''op'',
      CallTransition (fakeID 1) ''evidence_submitted'' ''op'' [] [],
      CallTransition (fakeID 1) ''filed_with_registrar'' ''op'' [] [],
      CallTransition (fakeID 1) ''registered'' ''op'' [] []]"

definition ready_store :: fake where
  "ready_store = run_calls ready_calls (NewFake (\<lambda>n. 0))"

lemma ready_inv: "fake_inv ready_store"
  unfolding ready_store_def by (rule run_calls_inv [OF fake_inv_NewFake])

lemma run_calls_status:
  "fake_row (snd (exec_call (CallTransition i st a ev rs) f)) i =
     (case fake_row f i of
        None \<Rightarrow> None
      | Some c \<Rightarrow> Some (if (cf_Status c, st) \<in> set legalTransitions then c\<lparr>cf_Status := st\<rparr> else c))"
  by (simp add: fake_transition split: option.split)

lemma ready_row:
  "\<exists>c. fake_row ready_store (fakeID 1) = Some c \<and> cf_Status c = ''registered'' \<and>
     cf_RegistryURI c = ''https://reg.example/'' \<and> cf_ClientIdentifier c = ''RP-1'' \<and> cf_ID c = fakeID 1 \<and>
     cf_Policy c = RawJSON (JObj []) \<and> cf_WRPDocument c = RawNil"
proof -
  let ?f1 = "snd (exec_call (CallCreateDraft ''Acme'' [] ''op'') (NewFake (\<lambda>n. 0)))"
  let ?f2 = "snd (exec_call (CallSetRegistrarIdentity (fakeID 1) ''https://reg.example/'' ''RP-1'' ''op'') ?f1)"
  let ?f3 = "snd (exec_call (CallSetIntendedUses (fakeID 1) [demo_use ''use-1''] ''op'') ?f2)"
  have "\<exists>c. fake_row ?f3 (fakeID 1) = Some c \<and> cf_Status c = ''draft'' \<and>
     cf_RegistryURI c = ''https://reg.example/'' \<and> cf_ClientIdentifier c = ''RP-1'' \<and> cf_ID c = fakeID 1 \<and>
     cf_Policy c = RawJSON (JObj []) \<and> cf_WRPDocument c = RawNil"
    by (simp add: Fake_CreateDraftClient_def Fake_SetClientRegistrarIdentity_def Fake_SetIntendedUses_def
        nextID_eq NewFake_def Let_def fake_row_def demo_use_def)
  then show ?thesis
    by (auto simp: ready_store_def ready_calls_def run_calls_status legalTransitions_def
        simp del: exec_call.simps)
qed

lemma ready_listed: "listed_uses (fakeID 1) ready_store = [demo_use ''use-1''\<lparr>iu_ID := fakeID 4\<rparr>]"
proof -
  have tr: "listed_uses j (snd (exec_call (CallTransition i st a ev rs) f)) = listed_uses j f" for i j st a ev rs f
    by (simp add: fake_transition listed_uses_def split: option.split)
  show ?thesis
    unfolding ready_store_def ready_calls_def run_calls_simps tr
    by (simp add: Fake_CreateDraftClient_def Fake_SetClientRegistrarIdentity_def Fake_SetIntendedUses_def
        nextID_eq NewFake_def Let_def demo_use_def listed_uses_def List.map_filter_def
        gomap_list_def replaced_map_def replaced_order_def replace_rows_Cons row_with_id_def eval_nat_numeral)
qed

lemma ready_uses: "anyNonRevoked (fake_uses ready_store (fakeID 1))"
  unfolding fake_uses_def ready_listed by (simp add: anyNonRevoked_def demo_use_def)

lemma demo_https: "isAbsoluteHTTPSURL ''https://reg.example/''"
  by code_simp

lemma ready_gate:
  "\<exists>c. fake_row ready_store (fakeID 1) = Some c \<and> cf_Status c = ''registered'' \<and>
     gate (NewService FakeStore) (fake_uses ready_store (fakeID 1)) c"
  using ready_row ready_uses demo_https by (auto simp: gate_def usable_identity_def ts5OK_def NewService_def)

text \<open>
  C5 (the verdict on a transition): on the in-memory store the service answers a request by the
  decision table \<open>verdict\<close>.  An unknown client is not found.  The activation gate (a registrar
  identity with an absolute https URL, then a non-revoked intended use, then the TS5 hook) speaks only
  when the client is registered or suspended; for every other status the store's own
  illegal-transition error is returned.  Offboarding an offboarded client succeeds.
\<close>

theorem transition_verdict:
  assumes "sv_Store sv = FakeStore" "fake_inv f"
  shows "fst (Transition sv i st a ev rs f) =
     verdict (set legalTransitions) sv (fake_row f i) (fake_uses f i) st"
  by (rule fk.Transition_exact [OF assms])

theorem transition_verdict_witness:
  "fst (Transition (NewService FakeStore) (fakeID 1) ''active'' ''op'' [] [] ready_store) = Inr ()"
proof -
  obtain c where "fake_row ready_store (fakeID 1) = Some c" "cf_Status c = ''registered''"
    "gate (NewService FakeStore) (fake_uses ready_store (fakeID 1)) c" using ready_gate by blast
  with transition_verdict [of "NewService FakeStore" ready_store "fakeID 1" "''active''" "''op''" "[]" "[]"] ready_inv
  show ?thesis by (simp add: verdict_def state_defs legalTransitions_def NewService_def)
qed

text \<open>
  C6 (activation gate): when a transition to active succeeds, the client was registered or suspended,
  has a client identifier and an absolute https registry URL, lists an intended use that is not
  revoked, passed the TS5 hook, and its row changes in the status only.
\<close>

theorem activation_gate:
  assumes "sv_Store sv = FakeStore" "fake_inv f" "Transition sv i ''active'' a ev rs f = (Inr (), g)"
  shows "\<exists>c. map_of (clients f) i = Some c \<and> cf_Status c \<in> {''registered'', ''suspended''} \<and>
     cf_ClientIdentifier c \<noteq> [] \<and> isAbsoluteHTTPSURL (cf_RegistryURI c) \<and>
     (\<exists>iu \<in> set (listed_uses i f). iu_RevokedAt iu = []) \<and> ts5OK sv i \<and>
     map_of (clients g) = (map_of (clients f))(i \<mapsto> c\<lparr>cf_Status := ''active''\<rparr>)"
proof -
  have pred: "(b, ''active'') \<in> set legalTransitions \<Longrightarrow> b \<in> {''registered'', ''suspended''}" for b
    by (auto simp: legalTransitions_def)
  from fk.Transition_effect [OF assms] have "fk.success sv i ''active'' f g" by simp
  then obtain c where c: "fake_row f i = Some c" "fake_row g = (fake_row f)(i \<mapsto> c\<lparr>cf_Status := ''active''\<rparr>)"
    "cf_Status c \<in> {''registered'', ''suspended''}" "gate sv (fake_uses f i) c"
    using pred by (auto simp: fk.success_def fk.moved_def state_defs)
  with fk.row_id [OF assms(2) c(1)] show ?thesis
    by (intro exI [of _ c]) (auto simp: gate_def usable_identity_def anyNonRevoked_def list_ex_iff fake_row_def fake_uses_def)
qed

theorem activation_gate_witness:
  "\<exists>c. map_of (clients ready_store) (fakeID 1) = Some c \<and> isAbsoluteHTTPSURL (cf_RegistryURI c)"
proof -
  obtain c where "fake_row ready_store (fakeID 1) = Some c" "cf_Status c = ''registered''"
    "gate (NewService FakeStore) (fake_uses ready_store (fakeID 1)) c" using ready_gate by blast
  then have "fst (Transition (NewService FakeStore) (fakeID 1) ''active'' ''op'' [] [] ready_store) = Inr ()"
    using fk.Transition_exact [of "NewService FakeStore" ready_store] ready_inv
    by (simp add: verdict_def state_defs legalTransitions_def NewService_def)
  then obtain g where "Transition (NewService FakeStore) (fakeID 1) ''active'' ''op'' [] [] ready_store = (Inr (), g)"
    by (metis prod.collapse)
  from activation_gate [OF _ ready_inv this] show ?thesis by (auto simp: NewService_def)
qed

end
