(* ===== verification/LifecycleEffects.thy ===== *)
theory LifecycleEffects
  imports Lifecycle
begin

text \<open>
  What a transition leaves behind: nothing after an error, an emptied evidence store after an
  offboarding, and a state from which a failed purge can be retried.
\<close>

section \<open>Errors\<close>

lemma fake_list: "Fake_ListIntendedUses i f = (Inr (fake_uses f i), f)"
  by (simp add: Fake_ListIntendedUses_def fake_uses_def)

lemma check_state [simp]:
  "sv_Store sv = FakeStore \<Longrightarrow> snd (checkActivationPreconditions sv c f) = f"
  by (simp add: checkActivationPreconditions_def fake_list)

lemma flip_error_frame:
  assumes "sv_Store sv = FakeStore" "flip_and_purge sv i st a ev rs f = (Inl e, g)"
  shows "g = f"
  using assms by (auto simp: flip_and_purge_def fake_transition fake_purge stateOffboarded_def
      split: option.splits if_splits)

lemma purge_error_frame: "Fake_PurgeOffboarded i a f = (Inl e, g) \<Longrightarrow> g = f"
  by (auto simp: fake_purge split: option.splits if_splits)

lemma transition_from_error_frame:
  assumes sv: "sv_Store sv = FakeStore" and t: "transition_from sv i st a ev rs c f = (Inl e, g)"
  shows "g = f"
proof -
  define chk where "chk = (if st = stateActive \<and> (cf_Status c = stateRegistered \<or> cf_Status c = stateSuspended)
      then checkActivationPreconditions sv c f else (Inr (), f))"
  obtain q h where k: "chk = (q, h)" by fastforce
  then have h: "h = f" using check_state [OF sv, of c f] by (auto simp: chk_def split: if_splits)
  note t2 = t [unfolded transition_from_def, folded chk_def, unfolded k h]
  show ?thesis
  proof (cases q)
    case (Inr u)
    with t2 sv show ?thesis
      using purge_error_frame flip_error_frame [OF sv] by (auto split: if_splits)
  qed (use t2 in simp)
qed

lemma Transition_error_frame:
  assumes "sv_Store sv = FakeStore" "Transition sv i st a ev rs f = (Inl e, g)"
  shows "g = f"
proof (cases "st = stateActive \<or> st = stateOffboarded")
  case True
  then show ?thesis
    using assms transition_from_error_frame [OF assms(1)]
    by (auto simp: Transition_def fake_get fail_def split: option.splits)
next
  case False
  then show ?thesis using assms flip_error_frame [OF assms(1)] by (simp add: Transition_def)
qed

text \<open>
  No partial transitions: a transition that returns an error leaves the whole store as it was:
  no status, no audit entry, no evidence and no clock reading changes.
\<close>

theorem failed_transition_changes_nothing:
  assumes "sv_Store sv = FakeStore" "Transition sv i st a ev rs f = (Inl e, g)"
  shows "g = f"
  by (rule Transition_error_frame [OF assms])

theorem failed_transition_changes_nothing_witness:
  "snd (Transition (NewService FakeStore) ''x'' ''active'' ''op'' [] [] (NewFake (\<lambda>n. int n))) = NewFake (\<lambda>n. int n)"
proof (rule failed_transition_changes_nothing)
  show "sv_Store (NewService FakeStore) = FakeStore" by (simp add: NewService_def)
  show "Transition (NewService FakeStore) ''x'' ''active'' ''op'' [] [] (NewFake (\<lambda>n. int n)) =
      (Inl (FromResultCode ''err:registry:not_found''),
       snd (Transition (NewService FakeStore) ''x'' ''active'' ''op'' [] [] (NewFake (\<lambda>n. int n))))"
    by (simp add: Transition_def NewService_def Fake_GetClientFull_def NewFake_def fail_def stateActive_def)
qed

section \<open>Offboarding\<close>

lemma content_after_purge:
  "fst (Fake_GetEvidenceContent j k (audit a i n d (f\<lparr>evidence := purge_rows i (evidence f)\<rparr>))) =
     (case fst (Fake_GetEvidenceContent j k f) of
        Inr (ct, m) \<Rightarrow> Inr (if j = i then [] else ct, m)
      | Inl e \<Rightarrow> Inl e)"
  by (auto simp: GetEvidenceContent_row fail_def split: option.split)

lemma content_after_status [simp]:
  "fst (Fake_GetEvidenceContent j k (audit a i n d f)) = fst (Fake_GetEvidenceContent j k f)"
  "fst (Fake_GetEvidenceContent j k (touch i f)) = fst (Fake_GetEvidenceContent j k f)"
  "fst (Fake_GetEvidenceContent j k (put_client i c f)) = fst (Fake_GetEvidenceContent j k f)"
  by (simp_all add: Fake_GetEvidenceContent_def split: option.split)

lemma flip_offboard:
  assumes "sv_Store sv = FakeStore" "flip_and_purge sv i stateOffboarded a ev rs f = (Inr (), g)"
  shows "fst (Fake_GetEvidenceContent j k g) =
     (case fst (Fake_GetEvidenceContent j k f) of
        Inr (ct, m) \<Rightarrow> Inr (if j = i then [] else ct, m)
      | Inl e \<Rightarrow> Inl e)"
proof -
  obtain c where c: "fake_row f i = Some c" "(cf_Status c, stateOffboarded) \<in> set legalTransitions"
    using assms by (auto simp: flip_and_purge_def fake_transition split: option.splits if_splits)
  let ?t = "audit a i ''client.transition'' (transition_detail (cf_Status c) stateOffboarded ev rs)
      (touch i (put_client i (c\<lparr>cf_Status := stateOffboarded\<rparr>) f))"
  from c assms have "Fake_PurgeOffboarded i a ?t = (Inr (), g)"
    by (simp add: flip_and_purge_def fake_transition)
  then have "g = audit a i ''client.purge'' (RawJSON (JObj [])) (?t\<lparr>evidence := purge_rows i (evidence ?t)\<rparr>)"
    by (simp add: fake_purge stateOffboarded_def)
  then show ?thesis using content_after_purge [of j k a i _ _ ?t] by simp
qed

lemma offboard_contents:
  assumes sv: "sv_Store sv = FakeStore" and t: "Transition sv i stateOffboarded a ev rs f = (Inr (), g)"
  shows "fst (Fake_GetEvidenceContent j k g) =
     (case fst (Fake_GetEvidenceContent j k f) of
        Inr (ct, m) \<Rightarrow> Inr (if j = i then [] else ct, m)
      | Inl e \<Rightarrow> Inl e)"
proof -
  obtain c where c: "fake_row f i = Some c" "transition_from sv i stateOffboarded a ev rs c f = (Inr (), g)"
    using assms by (auto simp: Transition_def fake_get fail_def split: option.splits)
  show ?thesis
  proof (cases "cf_Status c = stateOffboarded")
    case True
    then have "Fake_PurgeOffboarded i a f = (Inr (), g)"
      using c sv by (simp add: transition_from_def state_defs)
    then show ?thesis using content_after_purge by (auto simp: fake_purge split: option.splits if_splits)
  next
    case False
    then have "flip_and_purge sv i stateOffboarded a ev rs f = (Inr (), g)"
      using c by (simp add: transition_from_def state_defs)
    from flip_offboard [OF sv this] show ?thesis .
  qed
qed

text \<open>
  C18 (offboarding purges): a successful transition to offboarded leaves the client offboarded and each
  of its evidence items readable but empty; the status and the evidence of every other client stay.
\<close>

theorem offboarding_purges:
  assumes "sv_Store sv = FakeStore" "fake_inv f" "Transition sv i ''offboarded'' a ev rs f = (Inr (), g)"
  shows "status_of g i = Some ''offboarded'' \<and>
     (\<forall>k ct m. fst (Fake_GetEvidenceContent i k g) = Inr (ct, m) \<longrightarrow> ct = []) \<and>
     (\<forall>j. j \<noteq> i \<longrightarrow> status_of g j = status_of f j \<and>
        (\<forall>k. fst (Fake_GetEvidenceContent j k g) = fst (Fake_GetEvidenceContent j k f)))"
proof -
  from fk.Transition_effect [OF assms] obtain c where
    "fake_row g = (fake_row f)(i \<mapsto> c\<lparr>cf_Status := ''offboarded''\<rparr>)"
    by (auto simp: fk.success_def fk.moved_def)
  then have "status_of g j = (if j = i then Some ''offboarded'' else status_of f j)" for j
    by (simp add: status_of_def fake_row_def)
  moreover note offboard_contents [OF assms(1), folded stateOffboarded_def, unfolded stateOffboarded_def, OF assms(3)]
  ultimately show ?thesis by (auto split: sum.splits)
qed

definition demo_active :: fake where
  "demo_active = run_calls demo_calls (NewFake (\<lambda>n. int n))"

lemma demo_active_inv: "fake_inv demo_active"
  unfolding demo_active_def by (rule run_calls_inv [OF fake_inv_NewFake])

lemma demo_active_status: "status_of demo_active (fakeID 1) = Some ''active''"
  unfolding demo_active_def by (rule demo_status)

lemma offboard_active:
  assumes "fake_inv f" "status_of f i = Some ''active''"
  obtains g where "Transition (NewService FakeStore) i ''offboarded'' a ev rs f = (Inr (), g)"
proof -
  from assms(2) obtain c where "fake_row f i = Some c" "cf_Status c = ''active''"
    by (auto simp: status_of_def fake_row_def)
  then have "fst (Transition (NewService FakeStore) i ''offboarded'' a ev rs f) = Inr ()"
    using fk.Transition_exact [of "NewService FakeStore" f] assms(1)
    by (simp add: verdict_def state_defs legalTransitions_def NewService_def)
  with that show thesis by (metis prod.collapse)
qed

theorem offboarding_purges_witness:
  "\<exists>g. Transition (NewService FakeStore) (fakeID 1) ''offboarded'' ''op'' [] [] demo_active = (Inr (), g) \<and>
     status_of g (fakeID 1) = Some ''offboarded''"
proof -
  obtain g where g: "Transition (NewService FakeStore) (fakeID 1) ''offboarded'' ''op'' [] [] demo_active = (Inr (), g)"
    using offboard_active [OF demo_active_inv demo_active_status] .
  have "sv_Store (NewService FakeStore) = FakeStore" by (simp add: NewService_def)
  from offboarding_purges [OF this demo_active_inv g] g show ?thesis by blast
qed

text \<open>A store whose purge fails, all else working.\<close>

definition broken_purge :: "gerror \<Rightarrow> fake Store" where
  "broken_purge e = FakeStore\<lparr>PurgeOffboarded := (\<lambda>clientID actor f. (Inl e, f))\<rparr>"

lemma broken_purge_transition:
  assumes "fake_row f i = Some c" "cf_Status c \<in> {''active'', ''suspended''}"
  shows "Transition (NewService (broken_purge e)) i ''offboarded'' a ev rs f =
    (Inl e, audit a i ''client.transition'' (transition_detail (cf_Status c) ''offboarded'' ev rs)
       (touch i (put_client i (c\<lparr>cf_Status := ''offboarded''\<rparr>) f)))"
  using assms
  by (auto simp: Transition_def transition_from_def flip_and_purge_def broken_purge_def NewService_def state_defs
      fake_get fake_transition legalTransitions_def)

text \<open>
  C17 (a failed purge can be retried): let the purge fail with some error while a client is being
  offboarded.  The request returns that error, the client is offboarded and its evidence is still
  there.  A second request, with a store whose purge works, is not turned away as an illegal
  transition: it succeeds, empties the client's evidence and logs no second transition.
\<close>

theorem offboard_retry:
  assumes "fake_inv f" "status_of f i \<in> {Some ''active'', Some ''suspended''}"
  shows "let (r1, g) = Transition (NewService (broken_purge e)) i ''offboarded'' a ev rs f;
             (r2, h) = Transition (NewService FakeStore) i ''offboarded'' a' ev' rs' g in
     r1 = Inl e \<and> status_of g i = Some ''offboarded'' \<and>
     (\<forall>k. fst (Fake_GetEvidenceContent i k g) = fst (Fake_GetEvidenceContent i k f)) \<and>
     r2 = Inr () \<and> status_of h i = Some ''offboarded'' \<and>
     (\<forall>k ct m. fst (Fake_GetEvidenceContent i k h) = Inr (ct, m) \<longrightarrow> ct = []) \<and>
     history i h = history i g"
proof -
  from assms(2) obtain c where c: "fake_row f i = Some c" "cf_Status c \<in> {''active'', ''suspended''}"
    by (auto simp: status_of_def fake_row_def)
  define g where "g = audit a i ''client.transition'' (transition_detail (cf_Status c) ''offboarded'' ev rs)
      (touch i (put_client i (c\<lparr>cf_Status := ''offboarded''\<rparr>) f))"
  define h where "h = audit a' i ''client.purge'' (RawJSON (JObj [])) (g\<lparr>evidence := purge_rows i (evidence g)\<rparr>)"
  have one: "Transition (NewService (broken_purge e)) i ''offboarded'' a ev rs f = (Inl e, g)"
    unfolding g_def by (rule broken_purge_transition [OF c])
  have row: "fake_row g i = Some (c\<lparr>cf_Status := ''offboarded''\<rparr>)" by (simp add: g_def)
  then have two: "Transition (NewService FakeStore) i ''offboarded'' a' ev' rs' g = (Inr (), h)"
    by (simp add: Transition_def transition_from_def NewService_def state_defs fake_get fake_purge h_def)
  have sv: "sv_Store (NewService FakeStore) = FakeStore" by (simp add: NewService_def)
  have "status_of g i = Some ''offboarded''" "status_of h i = Some ''offboarded''"
    by (simp_all add: g_def h_def)
  moreover have "fst (Fake_GetEvidenceContent i k g) = fst (Fake_GetEvidenceContent i k f)" for k
    by (simp add: g_def)
  moreover have "fst (Fake_GetEvidenceContent i k h) = Inr (ct, m) \<Longrightarrow> ct = []" for k ct m
    unfolding h_def content_after_purge by (auto split: sum.splits)
  moreover have "history i h = history i g" by (simp add: h_def)
  ultimately show ?thesis by (simp add: one two) blast
qed

theorem offboard_retry_witness:
  "let g = snd (Transition (NewService (broken_purge (LibError ''connection lost''))) (fakeID 1) ''offboarded'' ''op'' [] [] demo_active) in
   status_of g (fakeID 1) = Some ''offboarded'' \<and>
   fst (Transition (NewService FakeStore) (fakeID 1) ''offboarded'' ''op'' [] [] g) = Inr ()"
  using offboard_retry [of demo_active "fakeID 1" "LibError ''connection lost''" "''op''" "[]" "[]" "''op''" "[]" "[]"]
    demo_active_inv demo_active_status by (simp add: case_prod_beta Let_def)

end
