(* ===== verification/PgFacts.thy ===== *)
theory PgFacts
  imports PgStore LifecycleEffects
begin

text \<open>
  What the production store sends and reads: the statements it executes, the round trips of the rows
  and blobs it writes, and the lifecycle service on top of it, under the documented behaviour of the
  procedures.
\<close>

section \<open>The statements\<close>

definition procedures :: "string list" where
  "procedures =
     [''registry.transition_client'', ''registry.get_client_full'', ''registry.list_clients_by_state'',
      ''registry.create_draft_client'', ''registry.save_wrp_document'', ''registry.add_evidence'',
      ''registry.list_evidence'', ''registry.get_evidence_content'', ''registry.set_client_registrar_identity'',
      ''registry.set_client_webhook'', ''registry.set_client_allowed_origins'', ''registry.set_client_dcapi_mode'',
      ''registry.create_api_key'', ''registry.purge_offboarded'', ''audit.append'', ''audit.list_entries'',
      ''audit.log_deletion_request'', ''audit.list_deletion_requests'', ''registry.list_intended_uses'',
      ''registry.set_intended_uses'']"

text \<open>A database that keeps the statements it was given, and what a method of a store does to the state.\<close>

definition logged :: "'s db \<Rightarrow> ('s \<times> (string \<times> json) list) db" where
  "logged db stmt pi p = (case db stmt pi (fst p) of (r, s) \<Rightarrow> (r, (s, snd p @ [(stmt, pi)])))"

inductive store_step :: "'s Store \<Rightarrow> ('s \<Rightarrow> 's) \<Rightarrow> bool" for S where
  "store_step S (\<lambda>s. snd (TransitionClient S i t a e r s))"
| "store_step S (\<lambda>s. snd (GetClientFull S i s))"
| "store_step S (\<lambda>s. snd (ListClientsByState S s))"
| "store_step S (\<lambda>s. snd (CreateDraftClient S nm em a s))"
| "store_step S (\<lambda>s. snd (SetClientRegistrarIdentity S i u ci a s))"
| "store_step S (\<lambda>s. snd (SetClientWebhook S i u a s))"
| "store_step S (\<lambda>s. snd (SetClientAllowedOrigins S i os a s))"
| "store_step S (\<lambda>s. snd (SetClientDCAPIMode S i m a s))"
| "store_step S (\<lambda>s. snd (CreateAPIKey S i p h s))"
| "store_step S (\<lambda>s. snd (SaveWRPDocument S i doc ius a s))"
| "store_step S (\<lambda>s. snd (ListIntendedUses S i s))"
| "store_step S (\<lambda>s. snd (SetIntendedUses S i ius a s))"
| "store_step S (\<lambda>s. snd (AddEvidence S i ev ct a s))"
| "store_step S (\<lambda>s. snd (ListEvidence S i s))"
| "store_step S (\<lambda>s. snd (GetEvidenceContent S i j s))"
| "store_step S (\<lambda>s. snd (AppendAudit S a i n d s))"
| "store_step S (\<lambda>s. snd (ListAuditEntries S i k s))"
| "store_step S (\<lambda>s. snd (LogDeletionRequest S i sid ns s))"
| "store_step S (\<lambda>s. snd (ListDeletionRequests S i k s))"
| "store_step S (\<lambda>s. snd (PurgeOffboarded S i a s))"

text \<open>\<open>sends ps k f\<close>: the step \<open>f\<close> adds to the log at most \<open>k\<close> statements, all of them calls of
  procedures in \<open>ps\<close>.\<close>

definition sends :: "string list \<Rightarrow> nat \<Rightarrow> ('s \<times> (string \<times> json) list \<Rightarrow> 's \<times> (string \<times> json) list) \<Rightarrow> bool" where
  "sends ps k f \<longleftrightarrow> (\<forall>s l. \<exists>cs. snd (f (s, l)) = l @ cs \<and> length cs \<le> k \<and> fst ` set cs \<subseteq> statement ` set ps)"

lemma procedure_mem [simp]:
  "''registry.transition_client'' \<in> set procedures" "''registry.get_client_full'' \<in> set procedures"
  "''registry.list_clients_by_state'' \<in> set procedures" "''registry.create_draft_client'' \<in> set procedures"
  "''registry.save_wrp_document'' \<in> set procedures" "''registry.add_evidence'' \<in> set procedures"
  "''registry.list_evidence'' \<in> set procedures" "''registry.get_evidence_content'' \<in> set procedures"
  "''registry.set_client_registrar_identity'' \<in> set procedures" "''registry.set_client_webhook'' \<in> set procedures"
  "''registry.set_client_allowed_origins'' \<in> set procedures" "''registry.set_client_dcapi_mode'' \<in> set procedures"
  "''registry.create_api_key'' \<in> set procedures" "''registry.purge_offboarded'' \<in> set procedures"
  "''audit.append'' \<in> set procedures" "''audit.list_entries'' \<in> set procedures"
  "''audit.log_deletion_request'' \<in> set procedures" "''audit.list_deletion_requests'' \<in> set procedures"
  "''registry.list_intended_uses'' \<in> set procedures" "''registry.set_intended_uses'' \<in> set procedures"
  by (simp_all add: procedures_def)

lemma sends_call: "proc \<in> set ps \<Longrightarrow> sends ps (Suc 0) (\<lambda>p. snd (call (logged db) proc inp p))"
  by (auto simp: sends_def call_frame logged_def split: option.split prod.split)

lemma snd_only_error [simp]: "snd (only_error p) = snd p"
  by (simp add: only_error_def case_prod_beta split: sum.split)

lemma snd_decoded [simp]: "snd (decoded dec z p) = snd p"
  by (simp add: decoded_def case_prod_beta split: sum.split option.split)

lemma snd_after_decoded: "decoded dec z p = (r, s) \<Longrightarrow> snd p = s"
  by (metis snd_conv snd_decoded)

lemma snd_composite [simp]:
  "snd (PG_ListClientsByState db s) = snd (call db ''registry.list_clients_by_state'' (marshal_strings []) s)"
  "snd (PG_AddEvidence db i ev ct a s) = snd (call db ''registry.add_evidence''
     (marshal_entries [(''client_id'', Some (JStr i)), (''filename'', Some (JStr (ev_Filename ev))),
        (''mime'', Some (JStr (ev_Mime ev))), (''sha256'', Some (JStr (ev_SHA256 ev))),
        (''size_bytes'', Some (JNum (ev_SizeBytes ev))), (''content'', Some (JStr (std_encode ct))),
        (''uploaded_by'', Some (JStr a)), (''actor'', Some (JStr a))]) s)"
  "snd (PG_GetEvidenceContent db i j s) = snd (call db ''registry.get_evidence_content''
     (marshal_strings [(''client_id'', i), (''evidence_id'', j)]) s)"
  unfolding PG_ListClientsByState_def PG_AddEvidence_def PG_GetEvidenceContent_def
  by (auto split: prod.split sum.split option.split dest: snd_after_decoded)

lemma sends_weaken: "sends ps k f \<Longrightarrow> k \<le> k' \<Longrightarrow> sends ps k' f"
  unfolding sends_def by (meson le_trans)

lemma sends_SetIntendedUses: "sends procedures 2 (\<lambda>p. snd (PG_SetIntendedUses (logged db) i ius a p))"
proof -
  have one: "sends procedures (Suc 0) (\<lambda>p. snd (call (logged db) ''registry.set_intended_uses'' inp p))" for inp
    by (rule sends_call) simp
  have two: "sends procedures (Suc 0) (\<lambda>p. snd (PG_AppendAudit (logged db) a i n d p))" for n d
    by (simp add: PG_AppendAudit_def Let_def sends_call)
  show ?thesis
    unfolding sends_def
  proof (intro allI)
    fix s l
    let ?inp = "marshal_entries [(''client_id'', Some (JStr i)), (''intended_uses'', enc_IntendedUses ius)]"
    obtain r s1 l1 where c: "call (logged db) ''registry.set_intended_uses'' ?inp (s, l) = (r, (s1, l1))"
      by (metis surj_pair)
    with one [of ?inp] obtain cs where cs: "l1 = l @ cs" "length cs \<le> Suc 0" "fst ` set cs \<subseteq> statement ` set procedures"
      unfolding sends_def by (metis snd_conv)
    show "\<exists>cs. snd (snd (PG_SetIntendedUses (logged db) i ius a (s, l))) = l @ cs \<and> length cs \<le> 2 \<and>
        fst ` set cs \<subseteq> statement ` set procedures"
    proof (cases r)
      case (Inl e)
      with c cs show ?thesis by (intro exI [of _ cs]) (simp add: PG_SetIntendedUses_def)
    next
      case (Inr d)
      let ?d = "RawJSON (marshal_map [(''intended_use_count'', JNum (int (length ius)))])"
      from two [of "''client.set_intended_uses''" ?d] obtain ds where
        "snd (snd (PG_AppendAudit (logged db) a i ''client.set_intended_uses'' ?d (s1, l1))) = l1 @ ds" "length ds \<le> Suc 0"
        "fst ` set ds \<subseteq> statement ` set procedures" unfolding sends_def by blast
      with c cs Inr show ?thesis by (intro exI [of _ "cs @ ds"]) (simp add: PG_SetIntendedUses_def image_Un)
    qed
  qed
qed

text \<open>
  C23 (what reaches the database as SQL): whatever the arguments and whatever the database answers, a
  method of the production store executes at most two statements, and each is the fixed call of one
  of the twenty procedures; arguments travel in the parameter and never in the statement.
\<close>

theorem fixed_statements:
  assumes "store_step (PGStore (logged db)) f"
  shows "\<exists>cs. snd (f (s, l)) = l @ cs \<and> length cs \<le> 2 \<and> fst ` set cs \<subseteq> statement ` set procedures"
proof -
  note one = sends_weaken [OF sends_call, where k' = 2]
  from assms have "sends procedures 2 f"
  proof cases
    case (12 i ius a)
    then show ?thesis using sends_SetIntendedUses by (simp add: PGStore_def)
  qed (simp_all add: PGStore_def one, simp_all add: pg_defs one Let_def)
  then show ?thesis by (simp add: sends_def)
qed

theorem fixed_statements_witness:
  "\<exists>cs. snd (snd (PG_PurgeOffboarded (logged (\<lambda>_ _ s. (Scanned RawNil, s))) ''x'' ''api'' ((), []))) = cs \<and>
     length cs \<le> 2 \<and> fst ` set cs \<subseteq> statement ` set procedures"
proof -
  have "store_step (PGStore (logged (\<lambda>_ _ s. (Scanned RawNil, s)))) (\<lambda>s. snd (PG_PurgeOffboarded (logged (\<lambda>_ _ s. (Scanned RawNil, s))) ''x'' ''api'' s))"
    using store_step.intros(20) [of "PGStore (logged (\<lambda>_ _ s. (Scanned RawNil, s)))" "''x''" "''api''"] by (simp add: PGStore_def)
  from fixed_statements [OF this, of "()" "[]"] show ?thesis by simp
qed

section \<open>Rows on the wire\<close>

lemma field_values_simps [simp]:
  "field_values n [] = []"
  "field_values n ((k, v) # kvs) = (if fold_name k = fold_name n then v # field_values n kvs else field_values n kvs)"
  by (simp_all add: field_values_def Let_def)

lemma row_field_names [simp]:
  "fold_name ''format'' = ''format''" "fold_name ''doctypes_or_vcts'' = ''doctypes_or_vcts''"
  "fold_name ''all_claims'' = ''all_claims''" "fold_name ''claims'' = ''claims''" "fold_name ''id'' = ''id''"
  "fold_name ''intended_use_id'' = ''intended_use_id''" "fold_name ''purpose'' = ''purpose''"
  "fold_name ''credentials'' = ''credentials''" "fold_name ''revoked_at'' = ''revoked_at''"
  "fold_name ''intended_uses'' = ''intended_uses''" "fold_name ''content'' = ''content''" "fold_name ''mime'' = ''mime''"
  "fold_name ''result'' = ''result''" "fold_name ''data'' = ''data''" "fold_name ''code'' = ''code''"
  "fold_name ''message'' = ''message''"
  by code_simp+

declare fold_name.simps [simp del]

lemma those_map_Some: "(\<And>x. x \<in> set xs \<Longrightarrow> f x = Some (g x)) \<Longrightarrow> those (map f xs) = Some (map g xs)"
  by (induction xs) auto

lemma those_map_eq: "those (map f xs) = Some ys \<Longrightarrow> (\<And>x y. x \<in> set xs \<Longrightarrow> f x = Some y \<Longrightarrow> h y = Some x) \<Longrightarrow>
    those (map h ys) = Some xs"
proof (induction xs arbitrary: ys)
  case (Cons x xs)
  from Cons.prems(1) obtain y zs where y: "f x = Some y" "those (map f xs) = Some zs" "ys = y # zs"
    by (auto split: option.splits)
  have "h y = Some x" by (rule Cons.prems(2) [OF _ y(1)]) simp
  moreover have "those (map h zs) = Some xs" by (rule Cons.IH [OF y(2)]) (use Cons.prems(2) in simp)
  ultimately show ?case using y(3) by simp
qed simp

lemma dec_strings_json [simp]: "dec_list [] dec_string a (strings_json ss) = Some ss"
  using those_map_Some [of ss "dec_string [] \<circ> JStr" "\<lambda>s. s"] by (simp add: strings_json_def)

text \<open>Claim elements are kept as decoded \<^verbatim>\<open>any\<close> values: objects in them have their keys in order, once.\<close>

definition claims_plain :: "RegisteredCredentialJSON \<Rightarrow> bool" where
  "claims_plain c \<longleftrightarrow> list_all (list_all (\<lambda>j. remarshal j = j)) (rc_Claims c)"

lemma dec_claims:
  assumes "list_all (list_all (\<lambda>j. remarshal j = j)) cs"
  shows "dec_list [] (dec_list JNull dec_any) a (JArr (map JArr cs)) = Some cs"
proof -
  have "those (map (dec_any JNull) c) = Some c" if "list_all (\<lambda>j. remarshal j = j) c" for c
    using those_map_Some [of c "dec_any JNull" "\<lambda>j. j"] that by (auto simp: dec_any_def list_all_iff)
  then have "those (map (dec_list JNull dec_any [] \<circ> JArr) cs) = Some (map (\<lambda>c. c) cs)"
    using assms by (intro those_map_Some) (simp add: list_all_iff)
  then show ?thesis by simp
qed

lemma credential_wire:
  assumes "claims_plain c"
  shows "dec_RegisteredCredentialJSON zero_RegisteredCredentialJSON (enc_RegisteredCredentialJSON c) = Some c"
  using assms dec_claims [of "rc_Claims c"]
  by (cases c) (auto simp: claims_plain_def enc_RegisteredCredentialJSON_def dec_RegisteredCredentialJSON_def
      dec_members_def member_def dec_field_def zero_RegisteredCredentialJSON_def simp del: dec_list.simps)

lemma intended_use_wire:
  assumes "iu_Purpose iu \<noteq> RawNil" "list_all claims_plain (iu_Credentials iu)" "enc_IntendedUse iu = Some j"
  shows "dec_IntendedUse zero_IntendedUse j = Some iu"
proof -
  have "those (map (dec_RegisteredCredentialJSON zero_RegisteredCredentialJSON \<circ> enc_RegisteredCredentialJSON) (iu_Credentials iu)) =
      Some (map (\<lambda>c. c) (iu_Credentials iu))"
    using assms(2) by (intro those_map_Some) (simp add: credential_wire list_all_iff)
  then have "dec_list zero_RegisteredCredentialJSON dec_RegisteredCredentialJSON []
      (JArr (map enc_RegisteredCredentialJSON (iu_Credentials iu))) = Some (iu_Credentials iu)" by simp
  with assms(1,3) show ?thesis
    by (cases iu) (auto simp: enc_IntendedUse_def marshal_raw_def dec_IntendedUse_def dec_members_def member_def
        dec_field_def zero_IntendedUse_def omitempty_str_def dec_raw_def simp del: dec_list.simps split: raw.splits)
qed

lemma intended_uses_wire:
  assumes "enc_IntendedUses ius = Some j" "\<forall>iu \<in> set ius. iu_Purpose iu \<noteq> RawNil \<and> list_all claims_plain (iu_Credentials iu)"
  shows "dec_list zero_IntendedUse dec_IntendedUse a j = Some ius"
proof -
  obtain js where js: "those (map enc_IntendedUse ius) = Some js" "j = JArr js"
    using assms(1) by (auto simp: enc_IntendedUses_def)
  have "those (map (dec_IntendedUse zero_IntendedUse) js) = Some ius"
    by (rule those_map_eq [OF js(1)]) (use assms(2) intended_use_wire in blast)
  with js(2) show ?thesis by simp
qed

text \<open>The reply of a procedure that succeeds with some data.\<close>

definition success_reply :: "json \<Rightarrow> db_reply" where
  "success_reply d = Scanned (RawJSON (JObj [(''result'', JStr ''success''), (''data'', d)]))"

lemma parse_success: "parseEnvelope (RawJSON (JObj [(''result'', JStr ''success''), (''data'', d)])) = Inr (RawJSON d, [])"
  by (simp add: parseEnvelope_def unmarshal_def dec_envelope_def dec_members_def member_def dec_field_def
      zero_envelope_def dec_raw_def)

lemma call_success_reply:
  assumes "db (statement proc) pi s = (success_reply d, s')" shows "call db proc (Some pi) s = (Inr (RawJSON d), s')"
  using call_reply [of db proc pi s "success_reply d" s', OF assms] by (simp add: success_reply_def parse_success)

lemma sent_entry:
  assumes "snd (snd (call (logged db) proc (marshal_entries kvs) (s, []))) = [(st, JObj sent)]"
    "distinct (map fst kvs)" "map_of sent k = Some j"
  shows "st = statement proc \<and> map_of kvs k = Some (Some j)"
proof (cases "marshal_entries kvs")
  case None
  with assms(1) show ?thesis by (simp add: call_frame)
next
  case (Some m)
  have strip: "map fst js = map fst kvs \<and> (\<forall>k. map_of kvs k = map_option Some (map_of js k))"
    if "those (map (\<lambda>(k, v). map_option (\<lambda>j. (k, j)) v) kvs) = Some js" for js
    using that by (induction kvs arbitrary: js) (auto split: option.splits)
  from Some obtain js where js: "those (map (\<lambda>(k, v). map_option (\<lambda>j. (k, j)) v) kvs) = Some js" "m = marshal_map js"
    by (auto simp: marshal_entries_def)
  from Some assms(1) have "[(statement proc, m)] = [(st, JObj sent)]"
    by (simp add: call_frame logged_def case_prod_beta)
  then have "st = statement proc" "sent = sort_key fst js" using js(2) by (simp_all add: marshal_map_def)
  with strip [OF js(1)] assms(2,3) show ?thesis by (simp add: map_of_sort_key)
qed

text \<open>
  C26 (intended uses through the database): let the procedure that lists intended uses answer with the
  very value a save sent under \<^verbatim>\<open>intended_uses\<close>.  Then the listing is the list that was saved: no field is
  renamed, dropped or reordered between encoding and decoding.  (The purposes are JSON texts and
  objects inside claim paths have ordered keys, as for every list the wizard makes.)
\<close>

theorem intended_uses_wire_round_trip:
  assumes "\<forall>iu \<in> set ius. iu_Purpose iu \<noteq> RawNil \<and> list_all claims_plain (iu_Credentials iu)"
    "snd (snd (PG_SaveWRPDocument (logged db) i doc ius a (s0, []))) = [(st, JObj sent)]"
    "map_of sent ''intended_uses'' = Some j"
    "db' (statement ''registry.list_intended_uses'') (JObj [(''client_id'', JStr i)]) s =
       (success_reply (JObj [(''intended_uses'', j)]), s')"
  shows "st = statement ''registry.save_wrp_document'' \<and> PG_ListIntendedUses db' i s = (Inr ius, s')"
proof -
  let ?kvs = "[(''client_id'', Some (JStr i)), (''doc'', marshal_raw doc), (''intended_uses'', enc_IntendedUses ius), (''actor'', Some (JStr a))]"
  from sent_entry [of db "''registry.save_wrp_document''" ?kvs s0 st sent "''intended_uses''" j] assms(2,3)
  have st: "st = statement ''registry.save_wrp_document''" "enc_IntendedUses ius = Some j"
    by (simp_all add: PG_SaveWRPDocument_def)
  note call_success_reply [of db' "''registry.list_intended_uses''" "JObj [(''client_id'', JStr i)]" s
    "JObj [(''intended_uses'', j)]" s', OF assms(4)]
  with st intended_uses_wire [OF st(2) assms(1)] show ?thesis
    by (simp add: PG_ListIntendedUses_def marshal_strings_def marshal_map_def decoded_def unmarshal_def dec_one_def
        dec_members_def member_def dec_field_def del: dec_list.simps)
qed

text \<open>
  C27 (evidence through the database): let the procedure that reads an evidence blob answer with the
  very value an upload sent under \<^verbatim>\<open>content\<close>.  Then the bytes read are the bytes uploaded, whatever they
  are.
\<close>

theorem evidence_wire_round_trip:
  assumes "snd (snd (PG_AddEvidence (logged db) i e content a (s0, []))) = [(st, JObj sent)]"
    "map_of sent ''content'' = Some x"
    "db' (statement ''registry.get_evidence_content'') (JObj [(''client_id'', JStr k), (''evidence_id'', JStr j)]) s =
       (success_reply (JObj [(''content'', x), (''mime'', JStr m)]), s')"
  shows "PG_GetEvidenceContent db' k j s = (Inr (content, m), s')"
proof -
  let ?kvs = "[(''client_id'', Some (JStr i)), (''filename'', Some (JStr (ev_Filename e))),
     (''mime'', Some (JStr (ev_Mime e))), (''sha256'', Some (JStr (ev_SHA256 e))),
     (''size_bytes'', Some (JNum (ev_SizeBytes e))), (''content'', Some (JStr (std_encode content))),
     (''uploaded_by'', Some (JStr a)), (''actor'', Some (JStr a))]"
  from sent_entry [of db "''registry.add_evidence''" ?kvs s0 st sent "''content''" x] assms(1,2)
  have x: "x = JStr (std_encode content)" by simp
  note call_success_reply [of db' "''registry.get_evidence_content''" "JObj [(''client_id'', JStr k), (''evidence_id'', JStr j)]" s
    "JObj [(''content'', x), (''mime'', JStr m)]" s', OF assms(3)]
  then show ?thesis
    by (simp add: PG_GetEvidenceContent_def marshal_strings_def marshal_map_def decoded_def unmarshal_def
        dec_members_def member_def dec_field_def x std_decode_encode)
qed

text \<open>A database that answers every statement alike.\<close>

definition constant_db :: "json \<Rightarrow> unit db" where
  "constant_db d stmt pi s = (success_reply d, s)"

theorem evidence_wire_round_trip_witness:
  "PG_GetEvidenceContent (constant_db (JObj [(''content'', JStr (std_encode ''%PDF'')), (''mime'', JStr ''application/pdf'')]))
     ''c'' ''e'' () = (Inr (''%PDF'', ''application/pdf''), ())"
proof -
  have "\<exists>sent. snd (snd (PG_AddEvidence (logged (constant_db JNull)) ''c'' zero_Evidence ''%PDF'' ''api'' ((), []))) =
      [(statement ''registry.add_evidence'', JObj sent)] \<and> map_of sent ''content'' = Some (JStr (std_encode ''%PDF''))"
    by (simp add: call_frame marshal_entries_def logged_def case_prod_beta marshal_map_def)
  then obtain sent where "snd (snd (PG_AddEvidence (logged (constant_db JNull)) ''c'' zero_Evidence ''%PDF'' ''api'' ((), []))) =
      [(statement ''registry.add_evidence'', JObj sent)]" "map_of sent ''content'' = Some (JStr (std_encode ''%PDF''))" by blast
  then show ?thesis by (rule evidence_wire_round_trip) (simp add: constant_db_def del: std_encode.simps)
qed

definition wire_use :: IntendedUse where
  "wire_use = \<lparr>iu_ID = ''1'', iu_IntendedUseID = ''pending-1'', iu_Purpose = RawJSON (JArr []),
     iu_Credentials = [\<lparr>rc_Format = ''mso_mdoc'', rc_DoctypesOrVCTs = [''pid''], rc_AllClaims = False,
       rc_Claims = [[JStr ''age'', JStr ''over18'']]\<rparr>], iu_RevokedAt = []\<rparr>"

theorem intended_uses_wire_round_trip_witness:
  "\<exists>j. PG_ListIntendedUses (constant_db (JObj [(''intended_uses'', j)])) ''c'' () = (Inr [wire_use], ())"
proof -
  obtain j where j: "enc_IntendedUses [wire_use] = Some j"
    by (simp add: enc_IntendedUses_def enc_IntendedUse_def wire_use_def marshal_raw_def)
  have "\<exists>sent. snd (snd (PG_SaveWRPDocument (logged (constant_db JNull)) ''c'' RawNil [wire_use] ''api'' ((), []))) =
      [(statement ''registry.save_wrp_document'', JObj sent)] \<and> map_of sent ''intended_uses'' = Some j"
    by (simp add: PG_SaveWRPDocument_def call_frame marshal_entries_def logged_def case_prod_beta marshal_map_def j
        marshal_raw_def)
  then obtain sent where "snd (snd (PG_SaveWRPDocument (logged (constant_db JNull)) ''c'' RawNil [wire_use] ''api'' ((), []))) =
      [(statement ''registry.save_wrp_document'', JObj sent)]" "map_of sent ''intended_uses'' = Some j" by blast
  from intended_uses_wire_round_trip [OF _ this, of "constant_db (JObj [(''intended_uses'', j)])" "()" "()"] show ?thesis
    by (intro exI [of _ j]) (simp add: constant_db_def wire_use_def claims_plain_def)
qed

end
