(* ===== verification/GoTimeFacts.thy ===== *)
theory GoTimeFacts
  imports GoTime
begin

text \<open>
  Reading a time back: the JSON form of a UTC time of the years 0 to 9999 is read as that time.  The
  rows of the production store carry their times in this form.
\<close>

section \<open>The calendar\<close>

definition years_sum :: "nat \<Rightarrow> nat \<Rightarrow> nat" where
  "years_sum a b = sum_list (map (\<lambda>k. year_days (int k)) [a..<b])"

lemma years_sum_same [simp]: "years_sum a a = 0"
  by (simp add: years_sum_def)

lemma years_sum_split: "a \<le> b \<Longrightarrow> b \<le> c \<Longrightarrow> years_sum a c = years_sum a b + years_sum b c"
proof -
  assume "a \<le> b" "b \<le> c"
  then have "[a..<c] = [a..<b] @ [b..<c]" using upt_add_eq_append [of a b "c - b"] by simp
  then show ?thesis by (simp add: years_sum_def)
qed

lemma years_sum_first: "a < b \<Longrightarrow> years_sum a b = year_days (int a) + years_sum (Suc a) b"
  by (simp add: years_sum_def upt_conv_Cons)

lemma years_sum_snoc: "years_sum 0 (Suc n) = years_sum 0 n + year_days (int n)"
  by (simp add: years_sum_def)

lemma leap_nat: "leap (int n) \<longleftrightarrow> n mod 4 = 0 \<and> (n mod 100 \<noteq> 0 \<or> n mod 400 = 0)"
  unfolding leap_def by (simp add: of_nat_mod [symmetric, where 'a = int, of _ "numeral _", simplified])

lemma div_next: "0 < q \<Longrightarrow> (n + q) div q = (n + (q - 1)) div q + (if n mod q = 0 then 1 else 0)" for n q :: nat
  using div_Suc [of "n + (q - 1)" q] by (auto simp: algebra_simps)

text \<open>The number of leap years before a year.\<close>

lemma years_sum_closed:
  "int (years_sum 0 n) = 365 * int n + int ((n + 3) div 4) - int ((n + 99) div 100) + int ((n + 399) div 400)"
proof (induction n)
  case (Suc n)
  have "n mod 400 = 0 \<Longrightarrow> n mod 100 = 0" "n mod 100 = 0 \<Longrightarrow> n mod 4 = 0"
    using dvd_trans [of 100 400 n] dvd_trans [of 4 100 n] by (simp_all add: mod_eq_0_iff_dvd)
  then have "int (year_days (int n)) = 365 + (if n mod 4 = 0 then 1 else 0) - (if n mod 100 = 0 then 1 else 0) +
      (if n mod 400 = 0 then 1 else 0)"
    by (auto simp: year_days_def leap_nat)
  moreover have "int ((n + 4) div 4) = int ((n + 3) div 4) + (if n mod 4 = 0 then 1 else 0)"
    "int ((n + 100) div 100) = int ((n + 99) div 100) + (if n mod 100 = 0 then 1 else 0)"
    "int ((n + 400) div 400) = int ((n + 399) div 400) + (if n mod 400 = 0 then 1 else 0)"
    using div_next [of 4 n] div_next [of 100 n] div_next [of 400 n] by simp_all
  moreover have "Suc n + 3 = n + 4" "Suc n + 99 = n + 100" "Suc n + 399 = n + 400" by simp_all
  ultimately show ?case using Suc.IH by (simp only: years_sum_snoc of_nat_add of_nat_Suc) simp
qed (simp add: years_sum_def)

lemma years_sum_period: "years_sum (400 * c) (400 * c + 400) = 146097"
proof -
  have "years_sum 0 (400 * c + 400) = years_sum 0 (400 * c) + years_sum (400 * c) (400 * c + 400)"
    by (rule years_sum_split) simp_all
  moreover have whole: "int (years_sum 0 (400 * b)) = 146097 * int b" for b
  proof -
    have "(400 * b + 3) div 4 = 100 * b" "(400 * b + 99) div 100 = 4 * b" "(400 * b + 399) div 400 = b" by presburger+
    with years_sum_closed [of "400 * b"] show ?thesis by simp
  qed
  ultimately show ?thesis using whole [of c] whole [of "c + 1"] by (simp add: algebra_simps)
qed

lemma split_years_sum:
  "split_years (int n) d = (y, d') \<Longrightarrow> \<exists>m. y = int m \<and> n \<le> m \<and> d' < year_days y \<and> d = years_sum n m + d'"
proof (induction d arbitrary: n rule: less_induct)
  case (less d)
  show ?case
  proof (cases "d < year_days (int n)")
    case True
    with less.prems show ?thesis by (intro exI [of _ n]) (simp add: split_years.simps)
  next
    case False
    then have "d - year_days (int n) < d" by (auto simp: year_days_def split: if_splits)
    moreover have "split_years (int (Suc n)) (d - year_days (int n)) = (y, d')"
      using less.prems False split_years.simps [of "int n" d] by (simp add: add.commute)
    ultimately obtain m where m: "y = int m" "Suc n \<le> m" "d' < year_days y" "d - year_days (int n) = years_sum (Suc n) m + d'"
      using less.IH by blast
    with False years_sum_first [of n m] show ?thesis by (intro exI [of _ m]) simp
  qed
qed

lemma split_months_sum:
  "split_months m ls d = (m', d') \<Longrightarrow> d < sum_list ls \<Longrightarrow>
     \<exists>k < length ls. m' = m + k \<and> d = sum_list (take k ls) + d' \<and> d' < ls ! k"
proof (induction m ls d rule: split_months.induct)
  case (2 m l ls d)
  show ?case
  proof (cases "d < l")
    case True
    with 2 show ?thesis by (intro exI [of _ 0]) simp
  next
    case False
    with 2 have "split_months (Suc m) ls (d - l) = (m', d')" "d - l < sum_list ls" by auto
    with 2(1) [OF False] obtain k where "k < length ls" "m' = Suc m + k" "d - l = sum_list (take k ls) + d'" "d' < ls ! k"
      by blast
    with False show ?thesis by (intro exI [of _ "Suc k"]) simp
  qed
qed simp

lemma month_days_sum: "sum_list (month_days y) = year_days y"
  by (simp add: month_days_def year_days_def)

lemma month_days_le: "k < 12 \<Longrightarrow> month_days y ! k \<le> 31"
proof -
  assume "k < 12"
  then have "month_days y ! k \<in> set (month_days y)" by (intro nth_mem) (simp add: month_days_def)
  moreover have "\<forall>l \<in> set (month_days y). l \<le> 31" by (simp add: month_days_def)
  ultimately show ?thesis by blast
qed

text \<open>The days of the years 0 to 9999.\<close>

definition day_ok :: "int \<Rightarrow> bool" where
  "day_ok days \<longleftrightarrow> 0 \<le> days + 719528 \<and> days + 719528 < 25 * 146097"

lemma civil_inverse:
  assumes "day_ok days"
  obtains y m d where "civil days = (int y, m, d)" "days_from_civil y m d = days" "y \<le> 9999"
    "1 \<le> m" "m \<le> 12" "1 \<le> d" "d \<le> month_days (int y) ! (m - 1)" "d \<le> 31"
proof -
  define z where "z = nat (days + 719528)"
  have z: "int z = days + 719528" "z < 25 * 146097" using assms by (auto simp: z_def day_ok_def nat_less_iff)
  define c where "c = z div 146097"
  define r where "r = z mod 146097"
  have zr: "z = 146097 * c + r" "r < 146097" by (simp_all add: c_def r_def)
  have c: "c \<le> 24" using z(2) zr by simp
  have start: "400 * (int z div 146097) = int (400 * c)" "nat (int z mod 146097) = r"
    by (simp_all add: c_def r_def zdiv_int zmod_int nat_mod_distrib)
  obtain y0 d0 where sy: "split_years (int (400 * c)) r = (y0, d0)" by fastforce
  from split_years_sum [OF sy] obtain y where
    y: "y0 = int y" "400 * c \<le> y" "d0 < year_days y0" "r = years_sum (400 * c) y + d0" by blast
  have "y < 400 * c + 400"
  proof (rule ccontr)
    assume "\<not> y < 400 * c + 400"
    with years_sum_split [of "400 * c" "400 * c + 400" y] y(4) zr(2) show False
      by (simp add: years_sum_period)
  qed
  with y(2) have yc: "y div 400 = c" by (intro div_nat_eqI) simp_all
  obtain m d1 where sm: "split_months 1 (month_days (int y)) d0 = (m, d1)" by fastforce
  have "d0 < sum_list (month_days (int y))" "length (month_days (int y)) = 12"
    using y(1,3) by (simp_all add: month_days_sum) (simp add: month_days_def)
  with split_months_sum [OF sm] obtain k where
    k: "k < 12" "m = 1 + k" "d0 = sum_list (take k (month_days (int y))) + d1" "d1 < month_days (int y) ! k"
    by auto
  have "civil days = (int y, m, d1 + 1)"
    using sy sm y(1) by (simp add: civil_def z(1) [symmetric] start)
  moreover have "days_from_civil y m (d1 + 1) = days"
  proof -
    have "days_from_civil y m (d1 + 1) =
        146097 * int c + int (years_sum (400 * c) y) + int (sum_list (take k (month_days (int y)))) + int d1 - 719528"
      by (simp add: days_from_civil_def yc k(2) years_sum_def)
    also have "\<dots> = int z - 719528" by (simp add: zr(1) y(4) k(3))
    finally show ?thesis using z(1) by simp
  qed
  moreover have "y \<le> 9999" using yc c by simp
  moreover have "d1 + 1 \<le> 31" using k(4) month_days_le [OF k(1), of "int y"] by simp
  ultimately show thesis using that [of y m "d1 + 1"] k by simp
qed

section \<open>The text\<close>

lemma parse_uint_pad: "lo \<le> n \<Longrightarrow> n \<le> hi \<Longrightarrow> parse_uint (pad0 w (nat_dec n)) lo hi = Some n"
  by (auto simp: parse_uint_def list_all_iff intro: digits_pad0 digits_nat_dec)

lemma length_padded: "0 < w \<Longrightarrow> n < 10 ^ w \<Longrightarrow> length (pad0 w (nat_dec n)) = w"
  by (simp add: length_nat_dec length_pad0)

lemma parse_format_date:
  assumes "day_ok (t div (86400 * 10 ^ 9))"
  shows "parse_date (format_date t) = Some (t div (86400 * 10 ^ 9)) \<and> length (format_date t) = 10 \<and>
    format_date t ! 4 = CHR ''-'' \<and> format_date t ! 7 = CHR ''-''"
proof -
  obtain y m d where c: "civil (t div (86400 * 10 ^ 9)) = (int y, m, d)" "days_from_civil y m d = t div (86400 * 10 ^ 9)"
    "y \<le> 9999" "1 \<le> m" "m \<le> 12" "1 \<le> d" "d \<le> month_days (int y) ! (m - 1)" "d \<le> 31"
    by (rule civil_inverse [OF assms])
  define Y where "Y = pad0 4 (nat_dec y)"
  define M where "M = pad0 2 (nat_dec m)"
  define D where "D = pad0 2 (nat_dec d)"
  have len: "length Y = 4" "length M = 2" "length D = 2"
    using c(3,5,8) by (simp_all add: Y_def M_def D_def length_padded)
  have uint: "parse_uint Y 0 9999 = Some y" "parse_uint M 1 12 = Some m"
    "parse_uint D 1 (month_days (int y) ! (m - 1)) = Some d"
    unfolding Y_def M_def D_def by (rule parse_uint_pad; use c in simp)+
  have f: "format_date t = Y @ ''-'' @ M @ ''-'' @ D"
    unfolding format_date_def c(1) by (simp add: year_text_def Y_def M_def D_def)
  have "take 4 (format_date t) = Y" "take 2 (drop 5 (format_date t)) = M" "take 2 (drop 8 (format_date t)) = D"
    by (simp_all add: f len)
  then have "parse_date (format_date t) = Some (days_from_civil y m d)" using uint by (simp add: parse_date_def)
  with c(2) show ?thesis by (simp add: f len nth_append)
qed

lemma parse_clock_text:
  assumes "s < 86400"
  shows "parse_clock (pad0 2 (nat_dec (s div 3600)) @ '':'' @ pad0 2 (nat_dec (s div 60 mod 60)) @ '':'' @
    pad0 2 (nat_dec (s mod 60))) = Some s"
proof -
  define H where "H = pad0 2 (nat_dec (s div 3600))"
  define M where "M = pad0 2 (nat_dec (s div 60 mod 60))"
  define S where "S = pad0 2 (nat_dec (s mod 60))"
  have "s div 3600 < 24" using assms by (intro less_mult_imp_div_less) simp
  moreover have "s div 60 mod 60 < 60" "s mod 60 < 60" by simp_all
  ultimately have h: "s div 3600 \<le> 23" "s div 60 mod 60 \<le> 59" "s mod 60 \<le> 59" by linarith+
  have len: "length H = 2" "length M = 2" "length S = 2"
    using h by (simp_all add: H_def M_def S_def length_padded)
  have uint: "parse_uint H 0 23 = Some (s div 3600)" "parse_uint M 0 59 = Some (s div 60 mod 60)"
    "parse_uint S 0 59 = Some (s mod 60)"
    unfolding H_def M_def S_def by (rule parse_uint_pad; use h in simp)+
  have "3600 * (s div 3600) + 60 * (s div 60 mod 60) + s mod 60 = s"
  proof -
    have "s div 3600 = s div 60 div 60" by (simp add: div_mult2_eq [symmetric])
    moreover have "60 * (s div 60 div 60) + s div 60 mod 60 = s div 60" by simp
    ultimately show ?thesis using mult_div_mod_eq [of 60 s] by linarith
  qed
  with uint len show ?thesis by (simp add: parse_clock_def H_def [symmetric] M_def [symmetric] S_def [symmetric])
qed

lemma dec_val_zeros: "dec_val (s @ replicate n (CHR ''0'')) = dec_val s * 10 ^ n"
  by (simp add: dec_val_append dec_val_replicate0 [of n "[]", simplified]) (simp add: dec_val_def)

lemma parse_fraction_text:
  assumes "ns < 10 ^ 9" shows "parse_fraction (fraction_text ns @ ''Z'') = (ns, ''Z'')"
proof (cases "ns = 0")
  case True
  then show ?thesis by (simp add: fraction_text_def parse_fraction_def)
next
  case False
  let ?p = "pad0 9 (nat_dec ns)" and ?t = "trim_right_char (CHR ''0'') (pad0 9 (nat_dec ns))"
  obtain n where n: "?p = ?t @ replicate n (CHR ''0'')" using trim_right_char_prefix by blast
  have len: "length ?p = 9" using assms by (simp add: length_padded)
  then have n9: "length ?t + n = 9" using n by (metis length_append length_replicate)
  have dig: "\<forall>c \<in> set ?t. is_digit c"
    using set_trim_right_char [of "CHR ''0''" ?p] by (auto intro: digits_pad0 digits_nat_dec)
  have val: "dec_val ?t * 10 ^ n = ns" using dec_val_zeros [of ?t n] n by (metis dec_val_nat_dec dec_val_pad0)
  with False have "?t \<noteq> []" by (auto simp: dec_val_def)
  then obtain a u where au: "?t = a # u" by (cases ?t) auto
  have Z: "\<not> is_digit (CHR ''Z'')" by (simp add: is_digit_def byte_of_def)
  have "takeWhile is_digit (?t @ ''Z'') = ?t" "dropWhile is_digit (?t @ ''Z'') = ''Z''"
    using dig Z by (simp_all add: takeWhile_append dropWhile_append)
  moreover have "9 - length ?t = n" "length ?t \<le> 9" using n9 by auto
  ultimately have "(let ds = take 9 (takeWhile is_digit (?t @ ''Z'')) in
      (dec_val ds * 10 ^ (9 - length ds), dropWhile is_digit (?t @ ''Z''))) = (ns, ''Z'')"
    using val by simp
  moreover have "is_digit a" using dig au by simp
  ultimately show ?thesis using False au by (simp add: fraction_text_def parse_fraction_def)
qed

text \<open>The times of the years 0 to 9999.\<close>

definition time_ok :: "time \<Rightarrow> bool" where
  "time_ok t \<longleftrightarrow> day_ok (t div (86400 * 10 ^ 9))"

lemma time_ok_zero [simp]: "time_ok zero_time"
  by (simp add: time_ok_def day_ok_def zero_time_def)

lemma time_parts:
  fixes t :: int
  shows "t = (t div (86400 * 10 ^ 9) * 86400 + t div 10 ^ 9 mod 86400) * 10 ^ 9 + t mod 10 ^ 9"
proof -
  have "t div (86400 * 10 ^ 9) = t div 10 ^ 9 div 86400" by (simp add: zdiv_zmult2_eq [symmetric] mult.commute)
  then have "t div (86400 * 10 ^ 9) * 86400 + t div 10 ^ 9 mod 86400 = t div 10 ^ 9"
    by (simp only: div_mult_mod_eq)
  then show ?thesis by (simp only: div_mult_mod_eq)
qed

lemma rfc3339_round_trip: "time_ok t \<Longrightarrow> parse_rfc3339 (format_rfc3339nano t) = Some t"
proof -
  assume ok: "time_ok t"
  define s where "s = nat (t div 10 ^ 9 mod 86400)"
  define ns where "ns = nat (t mod 10 ^ 9)"
  have s: "s < 86400" "int s = t div 10 ^ 9 mod 86400" "ns < 10 ^ 9" "int ns = t mod 10 ^ 9"
    by (simp_all add: s_def ns_def)
  define D where "D = format_date t"
  define C where "C = pad0 2 (nat_dec (s div 3600)) @ '':'' @ pad0 2 (nat_dec (s div 60 mod 60)) @ '':'' @ pad0 2 (nat_dec (s mod 60))"
  define F where "F = fraction_text ns @ ''Z''"
  have D: "parse_date D = Some (t div (86400 * 10 ^ 9))" "length D = 10" "D ! 4 = CHR ''-''" "D ! 7 = CHR ''-''"
    using parse_format_date [OF ok [unfolded time_ok_def]] by (simp_all add: D_def)
  have "s div 3600 < 100" using s(1) by simp
  then have C: "parse_clock C = Some s" "length C = 8" "C ! 2 = CHR '':''" "C ! 5 = CHR '':''"
    using parse_clock_text [OF s(1)] by (simp_all add: C_def length_padded nth_append)
  have F: "parse_fraction F = (ns, ''Z'')" "F \<noteq> []" using parse_fraction_text [OF s(3)] by (simp_all add: F_def)
  have f: "format_rfc3339nano t = D @ ''T'' @ C @ F"
    by (simp add: format_rfc3339nano_def D_def C_def F_def s_def ns_def Let_def)
  have "parse_rfc3339 (D @ ''T'' @ C @ F) = map_option (\<lambda>off. (t div (86400 * 10 ^ 9) * 86400 + int s - off) * 10 ^ 9 + int ns) (parse_zone ''Z'')"
    using D C F by (simp add: parse_rfc3339_def nth_append)
  also have "\<dots> = Some ((t div (86400 * 10 ^ 9) * 86400 + t div 10 ^ 9 mod 86400) * 10 ^ 9 + t mod 10 ^ 9)"
    by (simp only: s(2,4) parse_zone_def) simp
  finally show ?thesis unfolding f by (simp only: time_parts [symmetric])
qed

end
