(* ===== verification/PgProcedures.thy ===== *)
theory PgProcedures
  imports PgFacts GoTimeFacts
begin

text \<open>
  A database with the twenty procedures.  The in-memory store is documented to mirror the semantics of
  the procedures; \<open>procedures_db\<close> is the database that takes this at its word.  It keeps the in-memory
  store's state; a procedure reads its arguments from the JSON object it is given, does what the method
  of the in-memory store does, and answers with an envelope whose data is the JSON of the result.  An
  error is a raised exception with an envelope.
\<close>

declare fold_name.simps [simp del]

section \<open>Arguments\<close>

definition argument :: "json \<Rightarrow> string \<Rightarrow> json" where
  "argument pi k = (case pi of JObj kvs \<Rightarrow> (case map_of kvs k of Some j \<Rightarrow> j | None \<Rightarrow> JNull) | _ \<Rightarrow> JNull)"

definition text_arg :: "json \<Rightarrow> string \<Rightarrow> string" where
  "text_arg pi k = (case argument pi k of JStr s \<Rightarrow> s | _ \<Rightarrow> [])"

definition number_arg :: "json \<Rightarrow> string \<Rightarrow> int" where
  "number_arg pi k = (case argument pi k of JNum n \<Rightarrow> n | _ \<Rightarrow> 0)"

definition list_arg :: "'a list decoder \<Rightarrow> json \<Rightarrow> string \<Rightarrow> 'a list" where
  "list_arg dec pi k = (case dec [] (argument pi k) of Some vs \<Rightarrow> vs | None \<Rightarrow> [])"

definition texts_arg :: "json \<Rightarrow> string \<Rightarrow> string list" where
  "texts_arg = list_arg (dec_list [] dec_string)"

definition uses_arg :: "json \<Rightarrow> string \<Rightarrow> IntendedUse list" where
  "uses_arg = list_arg (dec_list zero_IntendedUse dec_IntendedUse)"

definition bytes_arg :: "json \<Rightarrow> string \<Rightarrow> bytes" where
  "bytes_arg pi k = (case std_decode (text_arg pi k) of Some b \<Rightarrow> b | None \<Rightarrow> [])"

definition evidence_arg :: "json \<Rightarrow> Evidence" where
  "evidence_arg pi = \<lparr>ev_ID = [], ev_Filename = text_arg pi ''filename'', ev_Mime = text_arg pi ''mime'',
     ev_SHA256 = text_arg pi ''sha256'', ev_SizeBytes = number_arg pi ''size_bytes'', ev_CreatedAt = zero_time\<rparr>"

section \<open>Rows\<close>

definition raw_entry :: "string \<Rightarrow> raw \<Rightarrow> (string \<times> json) list" where
  "raw_entry k r = (case r of RawJSON j \<Rightarrow> [(k, j)] | _ \<Rightarrow> [])"

definition time_json :: "time \<Rightarrow> json" where
  "time_json t = JStr (format_rfc3339nano t)"

definition client_json :: "ClientFull \<Rightarrow> json" where
  "client_json c = JObj
     ([(''id'', JStr (cf_ID c)), (''name'', JStr (cf_Name c)), (''status'', JStr (cf_Status c)),
       (''registry_uri'', JStr (cf_RegistryURI c)), (''client_identifier'', JStr (cf_ClientIdentifier c)),
       (''default_webhook_url'', JStr (cf_DefaultWebhook c)), (''allowed_origins'', strings_json (cf_AllowedOrigins c))] @
      raw_entry ''policy'' (cf_Policy c) @ [(''slug'', JStr (cf_Slug c))] @
      raw_entry ''wrp_document'' (cf_WRPDocument c) @ [(''contact_emails'', strings_json (cf_ContactEmails c))])"

definition summary_json :: "ClientSummary \<Rightarrow> json" where
  "summary_json c = JObj [(''id'', JStr (cs_ID c)), (''name'', JStr (cs_Name c)), (''status'', JStr (cs_Status c)),
     (''slug'', JStr (cs_Slug c)), (''updated_at'', time_json (cs_UpdatedAt c))]"

definition use_json :: "IntendedUse \<Rightarrow> json" where
  "use_json iu = JObj
     ([(''id'', JStr (iu_ID iu)), (''intended_use_id'', JStr (iu_IntendedUseID iu))] @ raw_entry ''purpose'' (iu_Purpose iu) @
      [(''credentials'', JArr (map enc_RegisteredCredentialJSON (iu_Credentials iu))), (''revoked_at'', JStr (iu_RevokedAt iu))])"

definition evidence_json :: "Evidence \<Rightarrow> json" where
  "evidence_json e = JObj [(''id'', JStr (ev_ID e)), (''filename'', JStr (ev_Filename e)), (''mime'', JStr (ev_Mime e)),
     (''sha256'', JStr (ev_SHA256 e)), (''size_bytes'', JNum (ev_SizeBytes e)), (''created_at'', time_json (ev_CreatedAt e))]"

definition audit_json :: "AuditEntry \<Rightarrow> json" where
  "audit_json e = JObj ([(''id'', JStr (ae_ID e)), (''at'', time_json (ae_At e)), (''actor'', JStr (ae_Actor e)),
     (''client_id'', JStr (ae_ClientID e)), (''action'', JStr (ae_Action e))] @ raw_entry ''detail'' (ae_Detail e))"

definition deletion_json :: "DeletionRequest \<Rightarrow> json" where
  "deletion_json r = JObj [(''id'', JStr (dr_ID r)), (''client_id'', JStr (dr_ClientID r)),
     (''session_id'', JStr (dr_SessionID r)), (''attribute_names'', strings_json (dr_AttributeNames r)),
     (''requested_at'', time_json (dr_RequestedAt r))]"

definition rows_json :: "string \<Rightarrow> ('a \<Rightarrow> json) \<Rightarrow> 'a list \<Rightarrow> json" where
  "rows_json name row rs = JObj [(name, JArr (map row rs))]"

section \<open>Replies\<close>

definition raised :: "string \<Rightarrow> db_reply" where
  "raised code = QueryError (LibError ''pgconn.PgError'')
     (Some (''P0001'', RawJSON (JObj [(''result'', JStr ''error''), (''code'', JStr code)])))"

text \<open>The codes the store returns have the prefix \<^verbatim>\<open>err:\<close>, which \<^verbatim>\<open>resultError\<close> puts before the code of an
  envelope.\<close>

fun answering :: "('a \<Rightarrow> json) \<Rightarrow> 'a result \<times> 's \<Rightarrow> db_reply \<times> 's" where
  "answering row (Inr v, s) = (success_reply (row v), s)"
| "answering row (Inl (FromResultCode code), s) = (raised (drop 4 code), s)"
| "answering row (Inl e, s) = (QueryError (LibError ''procedure'') None, s)"

abbreviation done_json :: "unit \<Rightarrow> json" where "done_json \<equiv> \<lambda>_. JNull"

section \<open>The procedures\<close>

text \<open>The replace-all of intended uses writes no audit entry of its own: the production store appends it in
  a call of its own.\<close>

definition set_uses :: "string \<Rightarrow> IntendedUse list \<Rightarrow> fake \<Rightarrow> unit result \<times> fake" where
  "set_uses clientID ius f =
     (case map_of (clients f) clientID of
        None \<Rightarrow> (fail ''registry:not_found'', f)
      | Some _ \<Rightarrow>
          if list_ex (\<lambda>iu. iu_IntendedUseID iu = []) ius then (fail ''registry:invalid'', f)
          else (Inr (), replaceIntendedUsesLocked clientID ius f))"

definition procedure_table :: "(string \<times> (json \<Rightarrow> fake \<Rightarrow> db_reply \<times> fake)) list" where
  "procedure_table =
     [(''registry.transition_client'', \<lambda>pi f. answering done_json
         (Fake_TransitionClient (text_arg pi ''client_id'') (text_arg pi ''to_state'') (text_arg pi ''actor'')
           (text_arg pi ''evidence_ref'') (text_arg pi ''reason'') f)),
      (''registry.get_client_full'', \<lambda>pi f. answering client_json (Fake_GetClientFull (text_arg pi ''client_id'') f)),
      (''registry.list_clients_by_state'', \<lambda>pi f. answering (\<lambda>g. rows_json ''clients'' summary_json (concat (map snd g)))
         (Fake_ListClientsByState f)),
      (''registry.create_draft_client'', \<lambda>pi f. answering (\<lambda>i. JObj [(''id'', JStr i)])
         (Fake_CreateDraftClient (text_arg pi ''name'') (text_arg pi ''email'') (text_arg pi ''actor'') f)),
      (''registry.set_client_registrar_identity'', \<lambda>pi f. answering done_json
         (Fake_SetClientRegistrarIdentity (text_arg pi ''client_id'') (text_arg pi ''registry_uri'')
           (text_arg pi ''client_identifier'') (text_arg pi ''actor'') f)),
      (''registry.set_client_webhook'', \<lambda>pi f. answering done_json
         (Fake_SetClientWebhook (text_arg pi ''client_id'') (text_arg pi ''webhook_url'') (text_arg pi ''actor'') f)),
      (''registry.set_client_allowed_origins'', \<lambda>pi f. answering done_json
         (Fake_SetClientAllowedOrigins (text_arg pi ''client_id'') (texts_arg pi ''allowed_origins'') (text_arg pi ''actor'') f)),
      (''registry.set_client_dcapi_mode'', \<lambda>pi f. answering done_json
         (Fake_SetClientDCAPIMode (text_arg pi ''client_id'') (text_arg pi ''mode'') (text_arg pi ''actor'') f)),
      (''registry.create_api_key'', \<lambda>pi f. answering done_json
         (Fake_CreateAPIKey (text_arg pi ''client_id'') (text_arg pi ''prefix'') (text_arg pi ''secret_hash'') f)),
      (''registry.save_wrp_document'', \<lambda>pi f. answering done_json
         (Fake_SaveWRPDocument (text_arg pi ''client_id'') (RawJSON (argument pi ''doc'')) (uses_arg pi ''intended_uses'')
           (text_arg pi ''actor'') f)),
      (''registry.list_intended_uses'', \<lambda>pi f. answering (rows_json ''intended_uses'' use_json)
         (Fake_ListIntendedUses (text_arg pi ''client_id'') f)),
      (''registry.set_intended_uses'', \<lambda>pi f. answering done_json
         (set_uses (text_arg pi ''client_id'') (uses_arg pi ''intended_uses'') f)),
      (''registry.add_evidence'', \<lambda>pi f. answering (\<lambda>p. JObj [(''id'', JStr (fst p)), (''created_at'', time_json (ev_CreatedAt (snd p)))])
         (Fake_AddEvidence (text_arg pi ''client_id'') (evidence_arg pi) (bytes_arg pi ''content'') (text_arg pi ''actor'') f)),
      (''registry.list_evidence'', \<lambda>pi f. answering (rows_json ''evidence'' evidence_json)
         (Fake_ListEvidence (text_arg pi ''client_id'') f)),
      (''registry.get_evidence_content'', \<lambda>pi f. answering
         (\<lambda>p. JObj [(''content'', JStr (std_encode (fst p))), (''mime'', JStr (snd p))])
         (Fake_GetEvidenceContent (text_arg pi ''client_id'') (text_arg pi ''evidence_id'') f)),
      (''registry.purge_offboarded'', \<lambda>pi f. answering done_json
         (Fake_PurgeOffboarded (text_arg pi ''client_id'') (text_arg pi ''actor'') f)),
      (''audit.append'', \<lambda>pi f. answering done_json
         (Fake_AppendAudit (text_arg pi ''actor'') (text_arg pi ''client_id'') (text_arg pi ''action'')
           (RawJSON (argument pi ''detail'')) f)),
      (''audit.list_entries'', \<lambda>pi f. answering (rows_json ''entries'' audit_json)
         (Fake_ListAuditEntries (text_arg pi ''client_id'') (number_arg pi ''limit'') f)),
      (''audit.log_deletion_request'', \<lambda>pi f. answering (\<lambda>i. JObj [(''id'', JStr i)])
         (Fake_LogDeletionRequest (text_arg pi ''client_id'') (text_arg pi ''session_id'') (texts_arg pi ''attribute_names'') f)),
      (''audit.list_deletion_requests'', \<lambda>pi f. answering (rows_json ''requests'' deletion_json)
         (Fake_ListDeletionRequests (text_arg pi ''client_id'') (number_arg pi ''limit'') f))]"

definition procedures_db :: "fake db" where
  "procedures_db stmt pi f =
     (case map_of (map (\<lambda>(name, proc). (statement name, proc)) procedure_table) stmt of
        Some proc \<Rightarrow> proc pi f
      | None \<Rightarrow> (QueryError (LibError ''undefined_procedure'') None, f))"

lemma procedures_named: "set procedures = fst ` set procedure_table"
  unfolding procedures_def procedure_table_def by auto

end
