(* ===== verification/PgMirror.thy ===== *)
theory PgMirror
  imports PgProcedures
begin

text \<open>
  The production store on a database that implements the procedures.  Every method gives what the
  in-memory store gives: nothing is renamed, dropped or misread between the arguments, the statement,
  the envelope and the decoded rows.
\<close>

section \<open>Rows on the wire\<close>

lemma row_names [simp]:
  "fold_name ''name'' = ''name''" "fold_name ''status'' = ''status''" "fold_name ''registry_uri'' = ''registry_uri''"
  "fold_name ''client_identifier'' = ''client_identifier''" "fold_name ''default_webhook_url'' = ''default_webhook_url''"
  "fold_name ''allowed_origins'' = ''allowed_origins''" "fold_name ''policy'' = ''policy''" "fold_name ''slug'' = ''slug''"
  "fold_name ''wrp_document'' = ''wrp_document''" "fold_name ''contact_emails'' = ''contact_emails''"
  "fold_name ''updated_at'' = ''updated_at''" "fold_name ''filename'' = ''filename''" "fold_name ''sha256'' = ''sha256''"
  "fold_name ''size_bytes'' = ''size_bytes''" "fold_name ''created_at'' = ''created_at''" "fold_name ''at'' = ''at''"
  "fold_name ''actor'' = ''actor''" "fold_name ''client_id'' = ''client_id''" "fold_name ''action'' = ''action''"
  "fold_name ''detail'' = ''detail''" "fold_name ''session_id'' = ''session_id''"
  "fold_name ''attribute_names'' = ''attribute_names''" "fold_name ''requested_at'' = ''requested_at''"
  by code_simp+

lemmas members_simps = dec_members_def member_def dec_field_def dec_raw_def raw_entry_def time_json_def rfc3339_round_trip

text \<open>What a row must satisfy to be carried: a policy is a JSON object, other JSON columns are JSON texts
  (a registration document may be absent), claim paths have ordered keys, times lie in the years 0 to
  9999, sizes are 64-bit integers.\<close>

definition client_ok :: "ClientFull \<Rightarrow> bool" where
  "client_ok c \<longleftrightarrow> (\<exists>kvs. cf_Policy c = RawJSON (JObj kvs)) \<and> (\<forall>b. cf_WRPDocument c \<noteq> RawBad b)"

definition use_ok :: "IntendedUse \<Rightarrow> bool" where
  "use_ok iu \<longleftrightarrow> (\<exists>j. iu_Purpose iu = RawJSON j) \<and> list_all claims_plain (iu_Credentials iu)"

definition int64 :: "int \<Rightarrow> bool" where
  "int64 n \<longleftrightarrow> - (2 ^ 63) \<le> n \<and> n < 2 ^ 63"

definition evidence_ok :: "Evidence \<Rightarrow> bool" where
  "evidence_ok e \<longleftrightarrow> int64 (ev_SizeBytes e) \<and> time_ok (ev_CreatedAt e)"

definition entry_ok :: "AuditEntry \<Rightarrow> bool" where
  "entry_ok e \<longleftrightarrow> time_ok (ae_At e) \<and> (\<exists>j. ae_Detail e = RawJSON j)"

lemma client_wire:
  assumes "client_ok c" shows "dec_ClientFull zero_ClientFull (client_json c) = Some c"
proof -
  obtain kvs where "cf_Policy c = RawJSON (JObj kvs)" using assms by (auto simp: client_ok_def)
  with assms show ?thesis
    by (cases c; cases "cf_WRPDocument c")
       (simp_all add: client_ok_def client_json_def dec_ClientFull_def zero_ClientFull_def members_simps del: dec_list.simps)
qed

lemma summary_wire:
  "time_ok (cs_UpdatedAt c) \<Longrightarrow> dec_ClientSummary zero_ClientSummary (summary_json c) = Some c"
  by (cases c) (simp add: summary_json_def dec_ClientSummary_def zero_ClientSummary_def members_simps)

lemma credentials_wire:
  assumes "list_all claims_plain cs"
  shows "dec_list zero_RegisteredCredentialJSON dec_RegisteredCredentialJSON [] (JArr (map enc_RegisteredCredentialJSON cs)) = Some cs"
proof -
  have "those (map (dec_RegisteredCredentialJSON zero_RegisteredCredentialJSON \<circ> enc_RegisteredCredentialJSON) cs) =
      Some (map (\<lambda>c. c) cs)"
    using assms by (intro those_map_Some) (simp add: credential_wire list_all_iff)
  then show ?thesis by simp
qed

lemma use_wire: "use_ok iu \<Longrightarrow> dec_IntendedUse zero_IntendedUse (use_json iu) = Some iu"
  using credentials_wire [of "iu_Credentials iu"]
  by (cases iu) (auto simp: use_ok_def use_json_def dec_IntendedUse_def zero_IntendedUse_def members_simps simp del: dec_list.simps)

lemma evidence_wire: "evidence_ok e \<Longrightarrow> dec_Evidence zero_Evidence (evidence_json e) = Some e"
  by (cases e) (simp add: evidence_ok_def int64_def evidence_json_def dec_Evidence_def zero_Evidence_def members_simps)

lemma entry_wire: "entry_ok e \<Longrightarrow> dec_AuditEntry zero_AuditEntry (audit_json e) = Some e"
  by (cases e) (auto simp: entry_ok_def audit_json_def dec_AuditEntry_def zero_AuditEntry_def members_simps)

lemma deletion_wire:
  "time_ok (dr_RequestedAt r) \<Longrightarrow> dec_DeletionRequest zero_DeletionRequest (deletion_json r) = Some r"
  by (cases r) (simp add: deletion_json_def dec_DeletionRequest_def zero_DeletionRequest_def members_simps del: dec_list.simps)

lemma rows_wire:
  assumes "\<And>r. r \<in> set rs \<Longrightarrow> dec z (row r) = Some r"
  shows "unmarshal (dec_one name (dec_list z dec)) [] (RawJSON (rows_json name row rs)) = Some rs"
proof -
  have "those (map (dec z \<circ> row) rs) = Some (map (\<lambda>r. r) rs)" using assms by (intro those_map_Some) simp
  then show ?thesis by (simp add: unmarshal_def dec_one_def rows_json_def members_simps)
qed

text \<open>Flattening groups and grouping again gives the groups.\<close>

lemma update_absent: "k \<notin> fst ` set m \<Longrightarrow> AList.update k v m = m @ [(k, v)]"
  by (induction m) auto

lemma update_last: "k \<notin> fst ` set m \<Longrightarrow> AList.update k v (m @ [(k, u)]) = m @ [(k, v)]"
  by (induction m) auto

lemma group_group:
  assumes "st \<notin> fst ` set g" "cs \<noteq> []" "\<forall>c \<in> set cs. cs_Status c = st"
  shows "foldl group_into g cs = g @ [(st, cs)]"
  using assms(2,3)
proof (induction cs rule: rev_induct)
  case (snoc c cs)
  have none: "map_of g st = None" using assms(1) by (simp add: map_of_eq_None_iff)
  show ?case
  proof (cases "cs = []")
    case True
    with snoc.prems none assms(1) show ?thesis by (simp add: group_into_def update_absent)
  next
    case False
    with snoc have "foldl group_into g (cs @ [c]) = group_into (g @ [(st, cs)]) c" by simp
    also have "\<dots> = g @ [(st, cs @ [c])]"
      using snoc.prems none assms(1) by (simp add: group_into_def update_last map_add_def)
    finally show ?thesis .
  qed
qed simp

lemma group_flatten:
  assumes "distinct (map fst g)" "\<forall>(st, cs) \<in> set g. cs \<noteq> [] \<and> (\<forall>c \<in> set cs. cs_Status c = st)"
  shows "group_by_status (concat (map snd g)) = g"
  using assms
proof (induction g rule: rev_induct)
  case Nil
  show ?case by (simp add: group_by_status_def)
next
  case (snoc p g)
  obtain st cs where p: "p = (st, cs)" by (cases p)
  from snoc have "group_by_status (concat (map snd g)) = g" by simp
  moreover have "st \<notin> fst ` set g" "cs \<noteq> []" "\<forall>c \<in> set cs. cs_Status c = st" using snoc.prems p by auto
  ultimately show ?case using group_group [of st g cs] p by (simp add: group_by_status_def)
qed

lemma listed_groups:
  assumes "Fake_ListClientsByState f = (Inr g, f')" shows "group_by_status (concat (map snd g)) = g"
proof (rule group_flatten)
  let ?g = "group_by_status (map (summary_of f) (map snd (clients f)))"
  have g: "g = map (\<lambda>(st, cs). (st, sort_key cs_ID cs)) ?g" using assms by (auto simp: Fake_ListClientsByState_def Let_def)
  have "map fst g = map fst ?g" by (auto simp: g)
  then show "distinct (map fst g)" by (simp add: distinct_group_by_status)
  show "\<forall>(st, cs) \<in> set g. cs \<noteq> [] \<and> (\<forall>c \<in> set cs. cs_Status c = st)"
  proof clarify
    fix st cs assume "(st, cs) \<in> set g"
    then obtain cs0 where cs0: "(st, cs0) \<in> set ?g" "cs = sort_key cs_ID cs0" by (auto simp: g)
    from cs0(1) have "map_of ?g st = Some cs0" by (intro map_of_is_SomeI distinct_group_by_status)
    then have "cs0 \<noteq> []" "\<forall>c \<in> set cs0. cs_Status c = st" by (auto simp: map_of_group_by_status Let_def split: if_splits)
    with cs0(2) show "cs \<noteq> [] \<and> (\<forall>c \<in> set cs. cs_Status c = st)" by (metis set_empty set_sort)
  qed
qed

end
