(* ===== verification/PgMirrorStore.thy ===== *)
theory PgMirrorStore
  imports PgMirror
begin

text \<open>
  A database that implements the procedures, and the production store on it, method by method.
\<close>

section \<open>Calls of an implemented procedure\<close>

text \<open>A database implements the procedures when its replies are those of \<open>procedures_db\<close> on the
  in-memory store its state stands for.\<close>

definition implements :: "'s db \<Rightarrow> ('s \<Rightarrow> fake) \<Rightarrow> bool" where
  "implements db view \<longleftrightarrow> (\<forall>stmt pi s. map_prod id view (db stmt pi s) = procedures_db stmt pi (view s))"

definition store_error :: "'a result \<Rightarrow> bool" where
  "store_error q \<longleftrightarrow> (\<forall>e. q = Inl e \<longrightarrow> (\<exists>code. code \<noteq> [] \<and> e = FromResultCode (''err:'' @ code)))"

lemma store_error_simps [simp]: "code \<noteq> [] \<Longrightarrow> store_error (fail code)" "store_error (Inr v)"
  by (simp_all add: store_error_def fail_def)

lemma statement_inject [simp]: "statement p = statement q \<longleftrightarrow> p = q"
  by (simp add: statement_def)

lemma argument_marshal [simp]:
  "distinct (map fst kvs) \<Longrightarrow> argument (marshal_map kvs) k = (case map_of kvs k of Some j \<Rightarrow> j | None \<Rightarrow> JNull)"
  by (simp add: argument_def marshal_map_def map_of_sort_key)

lemma parse_raised: "parseEnvelope (RawJSON (JObj [(''result'', JStr ''error''), (''code'', JStr code)])) = Inr (RawNil, code)"
  by (simp add: parseEnvelope_def unmarshal_def dec_envelope_def dec_members_def member_def dec_field_def
      zero_envelope_def dec_raw_def)

lemma call_procedure:
  assumes "implements db view" "procedures_db (statement proc) pi (view s) = answering row q" "store_error (fst q)"
  shows "map_prod id view (call db proc (Some pi) s) = (map_sum id (\<lambda>v. RawJSON (row v)) (fst q), snd q)"
proof -
  obtain r s' where r: "db (statement proc) pi s = (r, s')" by fastforce
  with assms(1,2) have a: "answering row q = (r, view s')" by (metis implements_def map_prod_simp id_apply)
  obtain v g where q: "q = (v, g)" by fastforce
  show ?thesis
  proof (cases v)
    case (Inl e)
    with assms(3) q obtain code where code: "code \<noteq> []" "e = FromResultCode (''err:'' @ code)"
      by (auto simp: store_error_def)
    with a q Inl have "r = raised code" "view s' = g" by auto
    with call_reply [of db proc pi s r s', OF r] q Inl code show ?thesis
      by (simp add: raised_def parse_raised fail_def)
  next
    case (Inr u)
    with a q have "r = success_reply (row u)" "view s' = g" by auto
    with call_reply [of db proc pi s r s', OF r] q Inr show ?thesis
      by (simp add: success_reply_def parse_success)
  qed
qed

lemma only_error_procedure:
  assumes "implements db view" "procedures_db (statement proc) pi (view s) = answering done_json q" "store_error (fst q)"
  shows "map_prod id view (only_error (call db proc (Some pi) s)) = q"
  using call_procedure [OF assms]
  by (cases "call db proc (Some pi) s"; cases q; cases "fst q") (auto simp: only_error_def split: sum.splits)

lemma decoded_procedure:
  assumes "implements db view" "procedures_db (statement proc) pi (view s) = answering row q" "store_error (fst q)"
    "\<And>v. fst q = Inr v \<Longrightarrow> unmarshal dec z (RawJSON (row v)) = Some (h v)"
  shows "map_prod id view (decoded dec z (call db proc (Some pi) s)) = (map_sum id h (fst q), snd q)"
  using call_procedure [OF assms(1-3)] assms(4)
  by (cases "call db proc (Some pi) s"; cases q; cases "fst q") (auto simp: decoded_def split: sum.splits)

lemmas procedure_simps = procedures_db_def procedure_table_def text_arg_def number_arg_def texts_arg_def list_arg_def

lemma map_sum_ident [simp]: "map_sum id (\<lambda>v. v) q = q" "map_sum (\<lambda>v. v) (\<lambda>v. v) q = q"
  by (cases q; simp)+

section \<open>Stores whose rows can be carried\<close>

definition values_ok :: "('v \<Rightarrow> bool) \<Rightarrow> 'v gomap \<Rightarrow> bool" where
  "values_ok P m \<longleftrightarrow> (\<forall>v \<in> snd ` set m. P v)"

lemma values_ok_Nil [simp]: "values_ok P []"
  by (simp add: values_ok_def)

lemma values_ok_update [simp]: "values_ok P m \<Longrightarrow> P v \<Longrightarrow> values_ok P (AList.update k v m)"
  unfolding values_ok_def by (induction m) auto

lemma values_ok_lookup: "values_ok P m \<Longrightarrow> map_of m k = Some v \<Longrightarrow> P v"
  unfolding values_ok_def by (force dest: map_of_SomeD)

definition wire_ok :: "fake \<Rightarrow> bool" where
  "wire_ok f \<longleftrightarrow>
     values_ok client_ok (clients f) \<and> values_ok time_ok (clientUpdatedAt f) \<and>
     values_ok (values_ok use_ok) (intendedUses f) \<and> values_ok (\<lambda>r. evidence_ok (fe_Evidence r)) (evidence f) \<and>
     (\<forall>e \<in> set (auditLog f). entry_ok e) \<and>
     values_ok (\<lambda>rs. \<forall>r \<in> set rs. time_ok (dr_RequestedAt r)) (deletionRequests f) \<and> (\<forall>n. time_ok (fk_clock f n))"

lemma wire_ok_sel:
  "wire_ok f \<Longrightarrow> values_ok client_ok (clients f)" "wire_ok f \<Longrightarrow> values_ok time_ok (clientUpdatedAt f)"
  "wire_ok f \<Longrightarrow> values_ok (values_ok use_ok) (intendedUses f)"
  "wire_ok f \<Longrightarrow> values_ok (\<lambda>r. evidence_ok (fe_Evidence r)) (evidence f)"
  "wire_ok f \<Longrightarrow> e \<in> set (auditLog f) \<Longrightarrow> entry_ok e"
  "wire_ok f \<Longrightarrow> values_ok (\<lambda>rs. \<forall>r \<in> set rs. time_ok (dr_RequestedAt r)) (deletionRequests f)"
  by (simp_all add: wire_ok_def)

lemma wire_ok_client: "wire_ok f \<Longrightarrow> map_of (clients f) i = Some c \<Longrightarrow> client_ok c"
  by (rule values_ok_lookup [OF wire_ok_sel(1)])

lemma wire_ok_summary:
  assumes "wire_ok f" shows "time_ok (cs_UpdatedAt (summary_of f c))"
  using values_ok_lookup [OF wire_ok_sel(2) [OF assms], of "cf_ID c"]
  by (cases "map_of (clientUpdatedAt f) (cf_ID c)") (simp_all add: summary_of_def)

lemma wire_ok_uses:
  assumes "wire_ok f" "iu \<in> set (listed_uses i f)" shows "use_ok iu"
proof -
  have "values_ok use_ok (gomap_list (intendedUses f) i)"
    using values_ok_lookup [OF wire_ok_sel(3) [OF assms(1)], of i]
    by (cases "map_of (intendedUses f) i") (simp_all add: gomap_list_def)
  moreover obtain k where "map_of (gomap_list (intendedUses f) i) k = Some iu"
    using assms(2) by (auto simp: listed_uses_def List.map_filter_def)
  ultimately show ?thesis by (rule values_ok_lookup)
qed

lemma wire_ok_deletions:
  assumes "wire_ok f" "r \<in> set (gomap_list (deletionRequests f) i)" shows "time_ok (dr_RequestedAt r)"
  using values_ok_lookup [OF wire_ok_sel(6) [OF assms(1)], of i] assms(2)
  by (cases "map_of (deletionRequests f) i") (simp_all add: gomap_list_def)

lemma in_newest: "r \<in> set (newest k rs) \<Longrightarrow> r \<in> set rs"
  by (auto simp: newest_def dest: in_set_takeD)

lemma uses_wire:
  assumes "enc_IntendedUses ius = Some j" "list_all use_ok ius"
  shows "dec_list zero_IntendedUse dec_IntendedUse [] j = Some ius"
  by (rule intended_uses_wire [OF assms(1)]) (use assms(2) in \<open>force simp: use_ok_def list_all_iff\<close>)

lemma uses_encoded:
  assumes "list_all use_ok ius" shows "\<exists>j. enc_IntendedUses ius = Some j"
proof -
  define enc where "enc iu = the (enc_IntendedUse iu)" for iu
  have "those (map enc_IntendedUse ius) = Some (map enc ius)"
    using assms by (intro those_map_Some) (auto simp: enc_def list_all_iff use_ok_def enc_IntendedUse_def marshal_raw_def)
  then show ?thesis by (simp add: enc_IntendedUses_def)
qed

section \<open>The methods\<close>

locale implementing =
  fixes db :: "'s db" and view :: "'s \<Rightarrow> fake"
  assumes implements: "implements db view"
begin

lemmas by_error = only_error_procedure [OF implements]
lemmas by_rows = decoded_procedure [OF implements]

lemma Transition:
  "map_prod id view (PG_TransitionClient db i st a ev rs s) = Fake_TransitionClient i st a ev rs (view s)"
  unfolding PG_TransitionClient_def marshal_strings_def
  by (rule by_error) (simp_all add: procedure_simps, simp add: Fake_TransitionClient_def Let_def split: option.split)

lemma SetIdentity:
  "map_prod id view (PG_SetClientRegistrarIdentity db i u ci a s) = Fake_SetClientRegistrarIdentity i u ci a (view s)"
  unfolding PG_SetClientRegistrarIdentity_def marshal_strings_def
  by (rule by_error) (simp_all add: procedure_simps, simp add: Fake_SetClientRegistrarIdentity_def Let_def split: option.split)

lemma SetWebhook: "map_prod id view (PG_SetClientWebhook db i u a s) = Fake_SetClientWebhook i u a (view s)"
  unfolding PG_SetClientWebhook_def marshal_strings_def
  by (rule by_error) (simp_all add: procedure_simps, simp add: Fake_SetClientWebhook_def Let_def split: option.split)

lemma SetOrigins: "map_prod id view (PG_SetClientAllowedOrigins db i os a s) = Fake_SetClientAllowedOrigins i os a (view s)"
  unfolding PG_SetClientAllowedOrigins_def marshal_entries_def
  by (simp, rule by_error)
     (simp_all add: procedure_simps del: dec_list.simps, simp add: Fake_SetClientAllowedOrigins_def Let_def split: option.split)

lemma SetMode:
  assumes "wire_ok (view s)"
  shows "map_prod id view (PG_SetClientDCAPIMode db i md a s) = Fake_SetClientDCAPIMode i md a (view s)"
  unfolding PG_SetClientDCAPIMode_def marshal_strings_def
proof (rule by_error)
  show "store_error (fst (Fake_SetClientDCAPIMode i md a (view s)))"
  proof (cases "map_of (clients (view s)) i")
    case (Some c)
    from wire_ok_client [OF assms this] obtain kvs where "cf_Policy c = RawJSON (JObj kvs)" by (auto simp: client_ok_def)
    with Some show ?thesis by (simp add: Fake_SetClientDCAPIMode_def merge_policy_def Let_def)
  qed (simp add: Fake_SetClientDCAPIMode_def)
qed (simp add: procedure_simps)

lemma CreateKey: "map_prod id view (PG_CreateAPIKey db i p h s) = Fake_CreateAPIKey i p h (view s)"
  unfolding PG_CreateAPIKey_def marshal_strings_def
  by (rule by_error) (simp_all add: procedure_simps, simp add: Fake_CreateAPIKey_def Let_def split: option.split)

lemma Purge: "map_prod id view (PG_PurgeOffboarded db i a s) = Fake_PurgeOffboarded i a (view s)"
  unfolding PG_PurgeOffboarded_def marshal_strings_def
  by (rule by_error) (simp_all add: procedure_simps, simp add: Fake_PurgeOffboarded_def Let_def split: option.split)

lemma SaveDocument:
  assumes "list_all use_ok ius"
  shows "map_prod id view (PG_SaveWRPDocument db i (RawJSON j) ius a s) = Fake_SaveWRPDocument i (RawJSON j) ius a (view s)"
proof -
  obtain us where us: "enc_IntendedUses ius = Some us" using uses_encoded [OF assms] by blast
  show ?thesis
    unfolding PG_SaveWRPDocument_def marshal_entries_def us marshal_raw_def
    by (simp, rule by_error)
       (simp_all add: procedure_simps uses_arg_def uses_wire [OF us assms] del: dec_list.simps,
        simp add: Fake_SaveWRPDocument_def Let_def split: option.split)
qed

lemma Append:
  assumes "\<forall>b. d \<noteq> RawBad b"
  shows "map_prod id view (PG_AppendAudit db a i n d s) = Fake_AppendAudit a i n d (view s)"
proof -
  define j where "j = (case d of RawJSON j \<Rightarrow> j | _ \<Rightarrow> JObj [])"
  have d: "marshal_raw (if d = RawNil then RawJSON (JObj []) else d) = Some j" "emptyDetail d = RawJSON j"
    "emptyDetail (RawJSON j) = RawJSON j"
    using assms by (auto simp: j_def marshal_raw_def emptyDetail_def split: raw.split)
  have same: "Fake_AppendAudit a i n (RawJSON j) (view s) = Fake_AppendAudit a i n d (view s)"
    by (simp add: Fake_AppendAudit_def audit_def d)
  have "map_prod id view (PG_AppendAudit db a i n d s) = Fake_AppendAudit a i n (RawJSON j) (view s)"
    unfolding PG_AppendAudit_def marshal_entries_def Let_def d
    by (cases "i = []"; simp; rule by_error) (simp_all add: procedure_simps, simp_all add: Fake_AppendAudit_def)
  with same show ?thesis by simp
qed

text \<open>The replace-all of intended uses is two calls: the change, and the audit entry.\<close>

lemma replace_then_audit:
  assumes "list_all use_ok ius"
  shows "map_prod id view (PG_SetIntendedUses db i ius a s) =
    (case set_uses i ius (view s) of
       (Inl e, f) \<Rightarrow> (Inl e, f)
     | (Inr _, f) \<Rightarrow> Fake_AppendAudit a i ''client.set_intended_uses'' (count_detail ius) f)"
proof -
  obtain us where us: "enc_IntendedUses ius = Some us" using uses_encoded [OF assms] by blast
  let ?pi = "marshal_map [(''client_id'', JStr i), (''intended_uses'', us)]"
  obtain r s1 where c: "call db ''registry.set_intended_uses'' (Some ?pi) s = (r, s1)" by fastforce
  obtain q f where q: "set_uses i ius (view s) = (q, f)" by fastforce
  have "map_prod id view (call db ''registry.set_intended_uses'' (Some ?pi) s) =
      (map_sum id (\<lambda>v. RawJSON (done_json v)) (fst (set_uses i ius (view s))), snd (set_uses i ius (view s)))"
    by (rule call_procedure [OF implements])
       (simp_all add: procedure_simps uses_arg_def uses_wire [OF us assms] del: dec_list.simps,
        simp add: set_uses_def split: option.split)
  with c q have r: "r = map_sum id (\<lambda>v. RawJSON JNull) q" "view s1 = f" by simp_all
  have pg: "PG_SetIntendedUses db i ius a s =
      (case r of Inl e \<Rightarrow> (Inl e, s1) | Inr _ \<Rightarrow> PG_AppendAudit db a i ''client.set_intended_uses'' (count_detail ius) s1)"
    unfolding PG_SetIntendedUses_def marshal_entries_def using c by (cases r) (simp_all add: us count_detail_def)
  show ?thesis
    unfolding pg q using r Append [of "count_detail ius" a i "''client.set_intended_uses''" s1]
    by (cases q) (simp_all add: count_detail_def)
qed

lemma SetUses:
  assumes "list_all use_ok ius" "a \<noteq> []"
  shows "map_prod id view (PG_SetIntendedUses db i ius a s) = Fake_SetIntendedUses i ius a (view s)"
  unfolding replace_then_audit [OF assms(1)] using assms(2)
  by (auto simp: set_uses_def Fake_SetIntendedUses_def Fake_AppendAudit_def fail_def Let_def split: option.split)

text \<open>The methods that answer with rows.\<close>

lemma GetClient:
  assumes "wire_ok (view s)"
  shows "map_prod id view (PG_GetClientFull db i s) = Fake_GetClientFull i (view s)"
proof -
  have "map_prod id view (PG_GetClientFull db i s) =
      (map_sum id (\<lambda>c. c) (fst (Fake_GetClientFull i (view s))), snd (Fake_GetClientFull i (view s)))"
    unfolding PG_GetClientFull_def marshal_strings_def
    by (rule by_rows [where row = client_json])
       (use wire_ok_client [OF assms, of i] in \<open>auto simp: procedure_simps Fake_GetClientFull_def unmarshal_def client_wire
          simp del: dec_list.simps split: option.splits\<close>)
  then show ?thesis by simp
qed

lemma CreateDraft: "map_prod id view (PG_CreateDraftClient db nm em a s) = Fake_CreateDraftClient nm em a (view s)"
proof -
  have row: "unmarshal (dec_one ''id'' dec_string) [] (RawJSON (JObj [(''id'', JStr v)])) = Some v" for v
    by (simp add: unmarshal_def dec_one_def members_simps)
  have ok: "store_error (fst (Fake_CreateDraftClient nm em a (view s)))"
    by (simp add: Fake_CreateDraftClient_def nextID_eq Let_def)
  have "map_prod id view (PG_CreateDraftClient db nm em a s) =
      (map_sum id (\<lambda>v. v) (fst (Fake_CreateDraftClient nm em a (view s))), snd (Fake_CreateDraftClient nm em a (view s)))"
    unfolding PG_CreateDraftClient_def marshal_strings_def Let_def
    by (rule by_rows [where row = "\<lambda>i. JObj [(''id'', JStr i)]"], cases "em = []") (simp_all add: procedure_simps row ok)
  then show ?thesis by simp
qed

lemma ListClients:
  assumes "wire_ok (view s)"
  shows "map_prod id view (PG_ListClientsByState db s) = Fake_ListClientsByState (view s)"
proof -
  obtain g where g: "Fake_ListClientsByState (view s) = (Inr g, view s)" by (simp add: Fake_ListClientsByState_def Let_def)
  have groups: "g = map (\<lambda>(st, cs). (st, sort_key cs_ID cs)) (group_by_status (map (summary_of (view s)) (map snd (clients (view s)))))"
    using g by (simp add: Fake_ListClientsByState_def Let_def)
  have "time_ok (cs_UpdatedAt c)" if "c \<in> set (concat (map snd g))" for c
  proof -
    from that obtain st cs where "(st, cs) \<in> set (group_by_status (map (summary_of (view s)) (map snd (clients (view s)))))"
      "c \<in> set cs" by (auto simp: groups)
    then have "map_of (group_by_status (map (summary_of (view s)) (map snd (clients (view s))))) st = Some cs"
      by (intro map_of_is_SomeI distinct_group_by_status)
    with \<open>c \<in> set cs\<close> have "c \<in> set (map (summary_of (view s)) (map snd (clients (view s))))"
      by (auto simp: map_of_group_by_status Let_def split: if_splits)
    then show ?thesis using wire_ok_summary [OF assms] by auto
  qed
  then have rows: "unmarshal (dec_one ''clients'' (dec_list zero_ClientSummary dec_ClientSummary)) []
      (RawJSON (rows_json ''clients'' summary_json (concat (map snd g)))) = Some (concat (map snd g))"
    by (intro rows_wire summary_wire)
  have "map_prod id view (decoded (dec_one ''clients'' (dec_list zero_ClientSummary dec_ClientSummary)) []
      (call db ''registry.list_clients_by_state'' (Some (marshal_map [])) s)) =
      (map_sum id (\<lambda>g. concat (map snd g)) (fst (Fake_ListClientsByState (view s))), snd (Fake_ListClientsByState (view s)))"
    by (rule by_rows [where row = "\<lambda>g. rows_json ''clients'' summary_json (concat (map snd g))"])
       (use rows in \<open>simp_all add: procedure_simps g del: dec_list.simps\<close>)
  with g listed_groups [OF g] show ?thesis
    unfolding PG_ListClientsByState_def marshal_strings_def
    by (auto simp del: dec_list.simps split: prod.split sum.splits)
qed

lemma rows_method:
  assumes "procedures_db (statement proc) (marshal_map kvs) (view s) = answering (rows_json name row) (Inr rs, g)"
    "\<And>r. r \<in> set rs \<Longrightarrow> dec z (row r) = Some r"
  shows "map_prod id view (decoded (dec_one name (dec_list z dec)) [] (call db proc (Some (marshal_map kvs)) s)) = (Inr rs, g)"
  using by_rows [OF assms(1), of "dec_one name (dec_list z dec)" "[]" "\<lambda>v. v"] rows_wire [of rs dec z row name] assms(2)
  by simp

lemma ListUses:
  assumes "wire_ok (view s)"
  shows "map_prod id view (PG_ListIntendedUses db i s) = Fake_ListIntendedUses i (view s)"
  unfolding PG_ListIntendedUses_def marshal_strings_def Fake_ListIntendedUses_def list.map prod.case
  by (rule rows_method [where row = use_json])
     (simp add: procedure_simps Fake_ListIntendedUses_def, rule use_wire [OF wire_ok_uses [OF assms]])

lemma ListEvidences:
  assumes "wire_ok (view s)"
  shows "map_prod id view (PG_ListEvidence db i s) = Fake_ListEvidence i (view s)"
  unfolding PG_ListEvidence_def marshal_strings_def Fake_ListEvidence_def list.map prod.case
  by (rule rows_method [where row = evidence_json])
     (simp add: procedure_simps Fake_ListEvidence_def, rule evidence_wire,
      use wire_ok_sel(4) [OF assms] in \<open>auto simp: values_ok_def\<close>)

lemma ListAudit:
  assumes "wire_ok (view s)"
  shows "map_prod id view (PG_ListAuditEntries db i n s) = Fake_ListAuditEntries i n (view s)"
  unfolding PG_ListAuditEntries_def marshal_entries_def Fake_ListAuditEntries_def
  by (simp, rule rows_method [where row = audit_json])
     (simp add: procedure_simps Fake_ListAuditEntries_def, rule entry_wire,
      rule wire_ok_sel(5) [OF assms], drule in_newest, simp)

lemma ListDeletions:
  assumes "wire_ok (view s)"
  shows "map_prod id view (PG_ListDeletionRequests db i n s) = Fake_ListDeletionRequests i n (view s)"
  unfolding PG_ListDeletionRequests_def marshal_entries_def Fake_ListDeletionRequests_def
  by (simp, rule rows_method [where row = deletion_json])
     (simp add: procedure_simps Fake_ListDeletionRequests_def, rule deletion_wire,
      erule wire_ok_deletions [OF assms in_newest])

lemma LogDeletion: "map_prod id view (PG_LogDeletionRequest db i sid ns s) = Fake_LogDeletionRequest i sid ns (view s)"
proof -
  have row: "unmarshal (dec_one ''id'' dec_string) [] (RawJSON (JObj [(''id'', JStr v)])) = Some v" for v
    by (simp add: unmarshal_def dec_one_def members_simps)
  have ok: "store_error (fst (Fake_LogDeletionRequest i sid ns (view s)))"
    by (simp add: Fake_LogDeletionRequest_def nextID_eq now_utc_def Let_def)
  have "map_prod id view (PG_LogDeletionRequest db i sid ns s) =
      (map_sum id (\<lambda>v. v) (fst (Fake_LogDeletionRequest i sid ns (view s))), snd (Fake_LogDeletionRequest i sid ns (view s)))"
    unfolding PG_LogDeletionRequest_def marshal_entries_def
    by (simp del: map_sum_ident, rule by_rows [where row = "\<lambda>i. JObj [(''id'', JStr i)]"]) (simp_all add: procedure_simps row ok del: dec_list.simps)
  then show ?thesis by simp
qed

lemma AddEvidence:
  assumes "wire_ok (view s)"
  shows "map_prod id view (PG_AddEvidence db i e content a s) = Fake_AddEvidence i e content a (view s)"
proof -
  let ?dec = "dec_members [member ''id'' dec_string fst (\<lambda>v p. (v, snd p)), member ''created_at'' dec_time snd (\<lambda>v p. (fst p, v))]"
  let ?e = "e\<lparr>ev_ID := [], ev_CreatedAt := zero_time\<rparr>"
  let ?q = "Fake_AddEvidence i ?e content a (view s)"
  have same: "Fake_AddEvidence i e content a (view s) = ?q"
    by (simp add: Fake_AddEvidence_def nextID_eq now_utc_def Let_def split: option.split)
  have row: "unmarshal ?dec ([], zero_time) (RawJSON (JObj [(''id'', JStr (fst p)), (''created_at'', time_json (ev_CreatedAt (snd p)))])) =
      Some (fst p, ev_CreatedAt (snd p))" if "fst ?q = Inr p" for p
  proof -
    have "time_ok (ev_CreatedAt (snd p))"
      using that assms by (auto simp: Fake_AddEvidence_def nextID_eq now_utc_def Let_def wire_ok_def split: option.splits)
    then show ?thesis by (simp add: unmarshal_def members_simps)
  qed
  have arg: "\<lparr>ev_ID = [], ev_Filename = ev_Filename e, ev_Mime = ev_Mime e, ev_SHA256 = ev_SHA256 e,
      ev_SizeBytes = ev_SizeBytes e, ev_CreatedAt = zero_time\<rparr> = ?e" by simp
  obtain r s1 where d: "decoded ?dec ([], zero_time) (call db ''registry.add_evidence''
      (marshal_entries [(''client_id'', Some (JStr i)), (''filename'', Some (JStr (ev_Filename e))),
         (''mime'', Some (JStr (ev_Mime e))), (''sha256'', Some (JStr (ev_SHA256 e))),
         (''size_bytes'', Some (JNum (ev_SizeBytes e))), (''content'', Some (JStr (std_encode content))),
         (''uploaded_by'', Some (JStr a)), (''actor'', Some (JStr a))]) s) = (r, s1)" by fastforce
  have "map_prod id view (r, s1) = (map_sum id (\<lambda>p. (fst p, ev_CreatedAt (snd p))) (fst ?q), snd ?q)"
    unfolding d [symmetric] marshal_entries_def
    by (simp, rule by_rows [where row = "\<lambda>p. JObj [(''id'', JStr (fst p)), (''created_at'', time_json (ev_CreatedAt (snd p)))]"])
       (simp_all add: procedure_simps evidence_arg_def bytes_arg_def arg row std_decode_encode del: std_encode.simps,
        simp add: Fake_AddEvidence_def nextID_eq now_utc_def Let_def split: option.split)
  then show ?thesis
    unfolding same PG_AddEvidence_def d
    by (auto simp: Fake_AddEvidence_def nextID_eq now_utc_def Let_def fail_def split: option.splits)
qed

lemma GetContent:
  "map_prod id view (PG_GetEvidenceContent db i j s) = Fake_GetEvidenceContent i j (view s)"
proof -
  let ?dec = "dec_members [member ''content'' dec_string fst (\<lambda>v p. (v, snd p)), member ''mime'' dec_string snd (\<lambda>v p. (fst p, v))]"
  let ?q = "Fake_GetEvidenceContent i j (view s)"
  have row: "unmarshal ?dec ([], []) (RawJSON (JObj [(''content'', JStr c), (''mime'', JStr m)])) = Some (c, m)" for c m
    by (simp add: unmarshal_def members_simps)
  obtain r s1 where d: "decoded ?dec ([], []) (call db ''registry.get_evidence_content''
      (marshal_strings [(''client_id'', i), (''evidence_id'', j)]) s) = (r, s1)" by fastforce
  have "map_prod id view (r, s1) = (map_sum id (\<lambda>p. (std_encode (fst p), snd p)) (fst ?q), snd ?q)"
    unfolding d [symmetric] marshal_strings_def
    by (rule by_rows [where row = "\<lambda>p. JObj [(''content'', JStr (std_encode (fst p))), (''mime'', JStr (snd p))]"])
       (simp_all add: procedure_simps row del: std_encode.simps,
        simp add: Fake_GetEvidenceContent_def split: option.split)
  then show ?thesis
    unfolding PG_GetEvidenceContent_def d
    by (auto simp: Fake_GetEvidenceContent_def fail_def std_decode_encode simp del: std_encode.simps split: option.splits if_splits)
qed

end

end
