(* ===== verification/PgMirrorFacts.thy ===== *)
theory PgMirrorFacts
  imports PgMirrorStore
begin

text \<open>
  What the store keeps of its rows, so that the agreement of the two stores lasts through any calls.
\<close>

section \<open>The two stores agree\<close>



section \<open>Rows stay fit for the wire\<close>

lemma clock_sel [simp]:
  "fk_clock (touch i f) = fk_clock f" "fk_clock (audit a i n d f) = fk_clock f" "fk_clock (put_client i c f) = fk_clock f"
  "deletionRequests (touch i f) = deletionRequests f" "deletionRequests (audit a i n d f) = deletionRequests f"
  by (simp_all add: touch_def audit_def nextID_eq now_utc_def put_client_def Let_def)

lemma wire_ok_NewFake: "(\<And>n. time_ok (clk n)) \<Longrightarrow> wire_ok (NewFake clk)"
  by (simp add: wire_ok_def NewFake_def)

lemma wire_ok_touch: "wire_ok f \<Longrightarrow> wire_ok (touch i f)"
  unfolding wire_ok_def by simp

lemma wire_ok_put: "wire_ok f \<Longrightarrow> client_ok c \<Longrightarrow> wire_ok (put_client i c f)"
  unfolding wire_ok_def by (simp add: put_client_def)

lemma wire_ok_counters [simp]: "wire_ok (f\<lparr>seq := n\<rparr>) = wire_ok f" "wire_ok (f\<lparr>fk_ticks := n\<rparr>) = wire_ok f"
  by (simp_all add: wire_ok_def)

lemma wire_ok_audit: "wire_ok f \<Longrightarrow> \<forall>b. d \<noteq> RawBad b \<Longrightarrow> wire_ok (audit a i n d f)"
  unfolding wire_ok_def by (cases d) (simp_all add: audit_def nextID_eq now_utc_def entry_ok_def emptyDetail_def Let_def)

lemma replace_clock [simp]: "fk_clock (replaceIntendedUsesLocked i ius f) = fk_clock f"
proof -
  obtain m g where mg: "replace_rows (gomap_list (intendedUses f) i) ius [] f = (m, g)" by fastforce
  from replace_rows_frame [OF mg] have "fk_clock g = fk_clock f" by (metis fake.select_convs(10) fake.surjective fake.update_convs(9))
  with mg show ?thesis by (simp add: replaceIntendedUsesLocked_def)
qed

lemma wire_ok_replace:
  assumes "wire_ok f" "list_all use_ok ius"
  shows "wire_ok (replaceIntendedUsesLocked i ius f)"
proof -
  have "use_ok iu" if "(k, iu) \<in> set (replaced_map i ius f)" for k iu
  proof -
    have "distinct (map fst (replaced_map i ius f))" by (simp add: replaced_map_def replace_rows_distinct)
    with that have "map_of (replaced_map i ius f) k = Some iu" by simp
    from replaced_map_value [OF this] obtain iu0 where iu0: "iu0 \<in> set ius" "iu = iu0\<lparr>iu_ID := iu_ID iu\<rparr>"
      by (auto simp: resubmits_def)
    have "use_ok iu0" using iu0(1) assms(2) by (simp add: list_all_iff)
    then have "use_ok (iu0\<lparr>iu_ID := iu_ID iu\<rparr>)" by (simp add: use_ok_def)
    with iu0(2) show ?thesis by simp
  qed
  then have "values_ok use_ok (replaced_map i ius f)" by (auto simp: values_ok_def)
  with assms(1) show ?thesis
    unfolding wire_ok_def by simp
qed

text \<open>What a call may write.\<close>

fun writes_ok :: "store_call \<Rightarrow> bool" where
  "writes_ok (CallSaveWRPDocument i doc ius a) \<longleftrightarrow> (\<exists>j. doc = RawJSON j) \<and> list_all use_ok ius"
| "writes_ok (CallSetIntendedUses i ius a) \<longleftrightarrow> list_all use_ok ius"
| "writes_ok (CallAddEvidence i e ct a) \<longleftrightarrow> int64 (ev_SizeBytes e)"
| "writes_ok (CallAppendAudit a i n d) \<longleftrightarrow> (\<forall>b. d \<noteq> RawBad b)"
| "writes_ok _ \<longleftrightarrow> True"

lemma wire_ok_edit:
  "wire_ok f \<Longrightarrow> client_ok c \<Longrightarrow> \<forall>b. d \<noteq> RawBad b \<Longrightarrow> wire_ok (audit a j n d (touch i (put_client i c f)))"
  by (intro wire_ok_audit wire_ok_touch wire_ok_put)

lemma wire_ok_exec:
  assumes "wire_ok f" "writes_ok c" shows "wire_ok (snd (exec_call c f))"
proof -
  note row = wire_ok_client [OF assms(1)]
  show ?thesis
  proof (cases c)
    case (CallTransition i st a ev rs)
    with assms(1) row [of i] show ?thesis
      by (auto simp: Fake_TransitionClient_def Let_def client_ok_def transition_detail_def intro!: wire_ok_edit split: option.split)
  next
    case (CallCreateDraft nm em a)
    with assms(1) show ?thesis
      by (auto simp: Fake_CreateDraftClient_def nextID_eq Let_def client_ok_def intro!: wire_ok_edit)
  next
    case (CallSetRegistrarIdentity i u ci a)
    with assms(1) row [of i] show ?thesis
      by (auto simp: Fake_SetClientRegistrarIdentity_def Let_def client_ok_def intro!: wire_ok_edit split: option.split)
  next
    case (CallSetWebhook i u a)
    with assms(1) row [of i] show ?thesis
      by (auto simp: Fake_SetClientWebhook_def Let_def client_ok_def intro!: wire_ok_edit split: option.split)
  next
    case (CallSetAllowedOrigins i os a)
    with assms(1) row [of i] show ?thesis
      by (auto simp: Fake_SetClientAllowedOrigins_def Let_def client_ok_def intro!: wire_ok_edit split: option.split)
  next
    case (CallSetDCAPIMode i md a)
    show ?thesis
    proof (cases "map_of (clients f) i")
      case (Some cl)
      from row [OF this] obtain kvs where "cf_Policy cl = RawJSON (JObj kvs)" "\<forall>b. cf_WRPDocument cl \<noteq> RawBad b"
        by (auto simp: client_ok_def)
      with assms(1) Some CallSetDCAPIMode show ?thesis
        by (auto simp: Fake_SetClientDCAPIMode_def merge_policy_def Let_def client_ok_def marshal_map_def intro!: wire_ok_edit)
    qed (use assms(1) CallSetDCAPIMode in \<open>simp add: Fake_SetClientDCAPIMode_def\<close>)
  next
    case (CallCreateAPIKey i p h)
    with assms(1) show ?thesis by (auto simp: Fake_CreateAPIKey_def wire_ok_def split: option.split)
  next
    case (CallSaveWRPDocument i doc ius a)
    with assms row [of i] show ?thesis
      by (auto simp: Fake_SaveWRPDocument_def Let_def client_ok_def count_detail_def
          intro!: wire_ok_audit wire_ok_replace wire_ok_touch wire_ok_put split: option.split)
  next
    case (CallSetIntendedUses i ius a)
    with assms show ?thesis
      by (auto simp: Fake_SetIntendedUses_def Let_def count_detail_def intro!: wire_ok_audit wire_ok_replace split: option.split)
  next
    case (CallAddEvidence i e ct a)
    let ?k = "fakeID (Suc (seq f))"
    let ?r = "\<lparr>fe_Evidence = e\<lparr>ev_ID := ?k, ev_CreatedAt := fk_clock f (fk_ticks f)\<rparr>, fe_ClientID = i, fe_Content = ct\<rparr>"
    have "wire_ok (f\<lparr>evidence := AList.update ?k ?r (evidence f)\<rparr>)"
      using assms CallAddEvidence unfolding wire_ok_def
      by (simp add: evidence_ok_def)
    then have "wire_ok (f\<lparr>seq := m, fk_ticks := n, evidence := AList.update ?k ?r (evidence f)\<rparr>)" for m n
      by (simp add: wire_ok_def)
    then show ?thesis
      using assms(1) CallAddEvidence
      by (auto simp: Fake_AddEvidence_def nextID_eq now_utc_def Let_def intro!: wire_ok_audit split: option.split)
  next
    case (CallAppendAudit a i n d)
    with assms show ?thesis by (auto simp: Fake_AppendAudit_def intro!: wire_ok_audit)
  next
    case (CallLogDeletionRequest i sid ns)
    have "\<forall>r \<in> set (gomap_list (deletionRequests f) i). time_ok (dr_RequestedAt r)"
      using wire_ok_deletions [OF assms(1)] by blast
    with assms(1) CallLogDeletionRequest show ?thesis
      unfolding wire_ok_def
      by (simp add: Fake_LogDeletionRequest_def nextID_eq now_utc_def Let_def)
  next
    case (CallPurgeOffboarded i a)
    have "wire_ok (f\<lparr>evidence := purge_rows i (evidence f)\<rparr>)"
      using assms(1) by (auto simp: wire_ok_def purge_rows_def values_ok_def)
    with assms(1) CallPurgeOffboarded show ?thesis
      by (auto simp: Fake_PurgeOffboarded_def Let_def intro!: wire_ok_audit split: option.split)
  qed
qed

lemma wire_ok_run: "wire_ok f \<Longrightarrow> list_all writes_ok cs \<Longrightarrow> wire_ok (run_calls cs f)"
  by (induction cs arbitrary: f) (simp_all add: wire_ok_exec)

section \<open>The reference database\<close>

interpretation mirror: implementing procedures_db "\<lambda>f. f"
  by unfold_locales (simp add: implements_def case_prod_beta map_prod_def)



end
