(* ===== verification/Wizard.thy ===== *)
theory Wizard
  imports GoTime GoUrl
begin

text \<open>
  \<^verbatim>\<open>internal/wizard/wizard.go\<close>: validation and assembly of the registration document.  The document
  types belong to the \<^verbatim>\<open>ts5\<close> package, which is not part of the repository: the records below have the
  fields the wizard sets, and its JSON encoders are the parameter \<open>marshalPurpose\<close> of the definitions.
  \<^verbatim>\<open>ulid.Make\<close> is a parameter too, the sequence \<open>mk\<close> of the identifiers it returns with the number of
  calls made so far threaded through the operations.
\<close>

section \<open>Document types\<close>

record MultiLangString =
  ml_Lang :: string
  ml_Content :: string

record Policy =
  po_Type :: string
  po_PolicyURI :: string

record Identifier =
  id_Type :: string
  id_Identifier :: string

record SupervisoryAuthority =
  sa_Name :: string
  sa_Country :: string
  sa_Email :: "string list"
  sa_Phone :: "string list"
  sa_FormURI :: "string list"

record Credential =
  cr_Format :: string
  cr_Meta :: raw
  cr_Claims :: "json list list"

record DocIntendedUse =
  du_Purpose :: "MultiLangString list"
  du_PrivacyPolicy :: "Policy list"
  du_IntendedUseIdentifier :: string
  du_CreatedAt :: string
  du_Credentials :: "Credential list"

record LegalPerson =
  lp_LegalName :: "string list"

record NaturalPerson =
  np_GivenName :: string
  np_FamilyName :: string

record WalletRelyingParty =
  wr_TradeName :: string
  wr_SupportURI :: "string list"
  wr_SrvDescription :: "MultiLangString list list"
  wr_IsPSB :: bool
  wr_Country :: string
  wr_Email :: "string list"
  wr_Phone :: "string list"
  wr_InfoURI :: "string list"
  wr_LegalPerson :: "LegalPerson option"
  wr_NaturalPerson :: "NaturalPerson option"
  wr_Identifiers :: "Identifier list"
  wr_SupervisoryAuthority :: SupervisoryAuthority
  wr_IntendedUse :: "DocIntendedUse list"

section \<open>Constants and sentinel errors\<close>

definition euidTypeURI :: string where "euidTypeURI = ''http://data.europa.eu/eudi/id/EUID''"
definition pendingIUPrefix :: string where "pendingIUPrefix = ''pending-''"
definition FormatMDoc :: string where "FormatMDoc = ''mso_mdoc''"
definition FormatSDJWT :: string where "FormatSDJWT = ''dc+sd-jwt''"

definition ErrLegalIdentity :: gerror where
  "ErrLegalIdentity = ErrorsNew ''wizard: exactly one of legalPerson/naturalPerson is required''"
definition ErrIdentifier :: gerror where
  "ErrIdentifier = ErrorsNew ''wizard: at least one identifier is required''"
definition ErrCountry :: gerror where
  "ErrCountry = ErrorsNew ''wizard: country must be an ISO 3166-1 alpha-2 code''"
definition ErrIntendedUse :: gerror where
  "ErrIntendedUse = ErrorsNew ''wizard: at least one intended use is required''"
definition ErrPurpose :: gerror where
  "ErrPurpose = ErrorsNew ''wizard: intended use requires at least one purpose (language + content)''"
definition ErrPrivacyPolicy :: gerror where
  "ErrPrivacyPolicy = ErrorsNew (''wizard: intended use requires at least one privacy policy with an '' @
     ''absolute https policyURI'')"
definition ErrCredential :: gerror where
  "ErrCredential = ErrorsNew ''wizard: intended use requires at least one valid credential''"
definition ErrCredentialFormat :: gerror where
  "ErrCredentialFormat = ErrorsNew ''wizard: unsupported credential format''"
definition ErrClaimPath :: gerror where
  "ErrClaimPath = ErrorsNew ''wizard: malformed claim path''"
definition ErrSupervisoryAuthority :: gerror where
  "ErrSupervisoryAuthority =
     ErrorsNew ''wizard: supervisoryAuthority country and a contact channel are required''"

lemmas sentinel_defs = ErrLegalIdentity_def ErrIdentifier_def ErrCountry_def ErrIntendedUse_def
  ErrPurpose_def ErrPrivacyPolicy_def ErrCredential_def ErrCredentialFormat_def ErrClaimPath_def
  ErrSupervisoryAuthority_def

section \<open>Forms\<close>

record CredentialForm =
  cff_Format :: string
  cff_DoctypesOrVCTs :: "string list"
  cff_AllClaims :: bool
  cff_Claims :: "string list list"

record IntendedUseForm =
  iuf_Purpose :: "MultiLangString list"
  iuf_PrivacyPolicy :: "Policy list"
  iuf_Credentials :: "CredentialForm list"

record FormState =
  fs_LegalKind :: string
  fs_LegalName :: "string list"
  fs_GivenName :: string
  fs_FamilyName :: string
  fs_EUID :: string
  fs_OtherIDs :: "Identifier list"
  fs_Country :: string
  fs_Email :: "string list"
  fs_Phone :: "string list"
  fs_InfoURI :: "string list"
  fs_SupportURI :: "string list"
  fs_TradeName :: string
  fs_SrvDescription :: "MultiLangString list"
  fs_IntendedUses :: "IntendedUseForm list"
  fs_Supervisory :: SupervisoryAuthority
  fs_IsPSB :: bool

section \<open>Validation\<close>

definition nonEmpty :: "string list \<Rightarrow> string list" where
  "nonEmpty ss = filter (\<lambda>s. s \<noteq> []) ss"

definition applyLegalIdentity :: "FormState \<Rightarrow> WalletRelyingParty \<Rightarrow> WalletRelyingParty result" where
  "applyLegalIdentity f wrp =
     (if fs_LegalKind f = ''legalPerson'' then
        let names = nonEmpty (fs_LegalName f) in
        if names = [] then
          Inl (Errorf [Wrapped ErrLegalIdentity, Txt '': legalPerson requires at least one legalName''])
        else Inr (wrp\<lparr>wr_LegalPerson := Some \<lparr>lp_LegalName = names\<rparr>\<rparr>)
      else if fs_LegalKind f = ''naturalPerson'' then
        if fs_GivenName f = [] \<or> fs_FamilyName f = [] then
          Inl (Errorf [Wrapped ErrLegalIdentity, Txt '': naturalPerson requires givenName and familyName''])
        else Inr (wrp\<lparr>wr_NaturalPerson :=
               Some \<lparr>np_GivenName = fs_GivenName f, np_FamilyName = fs_FamilyName f\<rparr>\<rparr>)
      else
        Inl (Errorf [Wrapped ErrLegalIdentity,
          Txt '': legalKind must be \"legalPerson\" or \"naturalPerson\", got '', Quoted (fs_LegalKind f)]))"

definition other_identifier :: "nat \<Rightarrow> Identifier \<Rightarrow> Identifier result" where
  "other_identifier i other =
     (if id_Type other = [] \<or> id_Identifier other = [] then
        Inl (Errorf [Wrapped ErrIdentifier, Txt '': otherIDs['', Num i, Txt ''] requires both type and identifier''])
      else Inr other)"

definition identifiers :: "FormState \<Rightarrow> Identifier list result" where
  "identifiers f =
     (let ids = (if fs_EUID f \<noteq> []
                 then [\<lparr>id_Type = euidTypeURI, id_Identifier = fs_EUID f\<rparr>] else []) in
      case mapM_from 0 other_identifier (fs_OtherIDs f) of
        Inl e \<Rightarrow> Inl e
      | Inr others \<Rightarrow> if ids @ others = [] then Inl ErrIdentifier else Inr (ids @ others))"

definition validateCountryCode :: "string \<Rightarrow> unit result" where
  "validateCountryCode c =
     (if length c \<noteq> 2 \<or> \<not> is_upper (c ! 0) \<or> \<not> is_upper (c ! 1)
      then Inl (Errorf [Wrapped ErrCountry, Txt '': got '', Quoted c]) else Inr ())"

definition validateSupervisoryAuthority :: "SupervisoryAuthority \<Rightarrow> unit result" where
  "validateSupervisoryAuthority sa =
     (case validateCountryCode (sa_Country sa) of
        Inl err \<Rightarrow> Inl (Errorf [Wrapped ErrSupervisoryAuthority, Txt '': country '', Wrapped err])
      | Inr _ \<Rightarrow>
          if sa_Email sa = [] \<and> sa_Phone sa = [] \<and> sa_FormURI sa = [] then
            Inl (Errorf [Wrapped ErrSupervisoryAuthority,
              Txt '': at least one contact channel (email/phone/formURI) is required''])
          else Inr ())"

definition validatePurpose :: "MultiLangString list \<Rightarrow> unit result" where
  "validatePurpose purpose =
     (if purpose = [] then Inl ErrPurpose
      else if list_ex (\<lambda>p. ml_Lang p = [] \<or> ml_Content p = []) purpose then
        Inl (Errorf [Wrapped ErrPurpose, Txt '': every purpose entry needs a lang and content''])
      else Inr ())"

definition validateHTTPSPolicyURI :: "string \<Rightarrow> unit result" where
  "validateHTTPSPolicyURI raw =
     (let bad = Inl (Errorf [Wrapped ErrPrivacyPolicy, Txt '': policyURI '', Quoted raw,
                       Txt '' must be an absolute https URL'']) in
      case url_Parse raw of
        None \<Rightarrow> bad
      | Some u \<Rightarrow> if u_Scheme u \<noteq> ''https'' \<or> u_Host u = [] then bad else Inr ())"

definition validatePrivacyPolicy :: "Policy list \<Rightarrow> unit result" where
  "validatePrivacyPolicy policies =
     (if policies = [] then Inl ErrPrivacyPolicy
      else
        (case mapM_from 0 (\<lambda>_ p. validateHTTPSPolicyURI (po_PolicyURI p)) policies of
           Inl e \<Rightarrow> Inl e | Inr _ \<Rightarrow> Inr ()))"

section \<open>Credentials\<close>

definition toClaimPath :: "string list \<Rightarrow> json list result" where
  "toClaimPath segs =
     (if segs = [] then Inl (ErrorsNew ''path must have at least one segment'')
      else mapM_from 0 (\<lambda>i s. if s = [] then Inl (Errorf [Txt ''segment '', Num i, Txt '' is empty''])
                            else Inr (JStr s)) segs)"

definition buildMeta :: "string \<Rightarrow> string list \<Rightarrow> raw result" where
  "buildMeta format doctypesOrVCTs =
     (if format = FormatMDoc then
        if length doctypesOrVCTs \<noteq> 1 then
          Inl (Errorf [Wrapped ErrCredential, Txt '': mso_mdoc requires exactly one doctype value, got '',
            Num (length doctypesOrVCTs)])
        else Inr (RawJSON (marshal_map [(''doctype_value'', JStr (hd doctypesOrVCTs))]))
      else if format = FormatSDJWT then
        Inr (RawJSON (marshal_map [(''vct_values'', JArr (map JStr doctypesOrVCTs))]))
      else Inl (Errorf [Wrapped ErrCredentialFormat, Txt '': '', Str format]))"

definition claim_path :: "nat \<Rightarrow> string list \<Rightarrow> json list result" where
  "claim_path k segs =
     (case toClaimPath segs of
        Inl err \<Rightarrow> Inl (Errorf [Wrapped ErrClaimPath, Txt '': claim '', Num k, Txt '': '', Wrapped err])
      | Inr path \<Rightarrow> Inr path)"

definition claim_paths :: "CredentialForm \<Rightarrow> json list list result" where
  "claim_paths cf =
     (if cff_AllClaims cf then Inr []
      else if cff_Claims cf = [] then
        Inl (Errorf [Wrapped ErrClaimPath, Txt '': all_claims=false requires at least one claim path''])
      else mapM_from 0 claim_path (cff_Claims cf))"

definition build :: "CredentialForm \<Rightarrow> (Credential \<times> RegisteredCredentialJSON) result" where
  "build cf =
     (if cff_Format cf \<noteq> FormatMDoc \<and> cff_Format cf \<noteq> FormatSDJWT then
        Inl (Errorf [Wrapped ErrCredentialFormat, Txt '': '', Quoted (cff_Format cf)])
      else
        let doctypesOrVCTs = nonEmpty (cff_DoctypesOrVCTs cf) in
        if doctypesOrVCTs = [] then
          Inl (Errorf [Wrapped ErrCredential, Txt '': at least one doctype/vct value is required''])
        else
          (case buildMeta (cff_Format cf) doctypesOrVCTs of
             Inl err \<Rightarrow> Inl err
           | Inr meta \<Rightarrow>
               (case claim_paths cf of
                  Inl err \<Rightarrow> Inl err
                | Inr claims \<Rightarrow>
                    Inr (\<lparr>cr_Format = cff_Format cf, cr_Meta = meta, cr_Claims = claims\<rparr>,
                         \<lparr>rc_Format = cff_Format cf, rc_DoctypesOrVCTs = doctypesOrVCTs,
                          rc_AllClaims = cff_AllClaims cf, rc_Claims = claims\<rparr>))))"

section \<open>Intended uses\<close>

definition in_use :: "nat \<Rightarrow> gerror \<Rightarrow> gerror" where
  "in_use i err = Errorf [Wrapped err, Txt '' (intended use '', Num i, Txt '')'']"

definition build_credential ::
  "nat \<Rightarrow> nat \<Rightarrow> CredentialForm \<Rightarrow> (Credential \<times> RegisteredCredentialJSON) result" where
  "build_credential i j cf =
     (case build cf of
        Inl err \<Rightarrow> Inl (Errorf [Wrapped err, Txt '' (intended use '', Num i, Txt '' credential '', Num j, Txt '')''])
      | Inr p \<Rightarrow> Inr p)"

text \<open>One round of the loop over the forms: the checks and conversions before the identifier is
  minted, then the document entry and the projection.\<close>

definition check_use ::
  "nat \<Rightarrow> IntendedUseForm \<Rightarrow> (Credential \<times> RegisteredCredentialJSON) list result" where
  "check_use i iuf =
     (case validatePurpose (iuf_Purpose iuf) of
        Inl err \<Rightarrow> Inl (in_use i err)
      | Inr _ \<Rightarrow>
          (case validatePrivacyPolicy (iuf_PrivacyPolicy iuf) of
             Inl err \<Rightarrow> Inl (in_use i err)
           | Inr _ \<Rightarrow>
               if iuf_Credentials iuf = [] then
                 Inl (Errorf [Wrapped ErrCredential, Txt '' (intended use '', Num i, Txt '' has no credentials)''])
               else mapM_from 0 (build_credential i) (iuf_Credentials iuf)))"

definition build_use ::
  "(MultiLangString list \<Rightarrow> raw result) \<Rightarrow> (nat \<Rightarrow> string) \<Rightarrow> string \<Rightarrow> nat \<Rightarrow> IntendedUseForm \<Rightarrow> nat \<Rightarrow>
     (DocIntendedUse \<times> IntendedUse) result \<times> nat" where
  "build_use marshalPurpose mk createdAt i iuf n =
     (case check_use i iuf of
        Inl err \<Rightarrow> (Inl err, n)
      | Inr creds \<Rightarrow>
          let iuID = pendingIUPrefix @ mk n;
              doc = \<lparr>du_Purpose = iuf_Purpose iuf, du_PrivacyPolicy = iuf_PrivacyPolicy iuf,
                     du_IntendedUseIdentifier = iuID, du_CreatedAt = createdAt,
                     du_Credentials = map fst creds\<rparr>
          in (case marshalPurpose (iuf_Purpose iuf) of
                Inl err \<Rightarrow> (Inl (Errorf [Txt ''wizard: marshal purpose: '', Wrapped err]), Suc n)
              | Inr purposeJSON \<Rightarrow>
                  (Inr (doc, \<lparr>iu_ID = [], iu_IntendedUseID = iuID, iu_Purpose = purposeJSON,
                          iu_Credentials = map snd creds, iu_RevokedAt = []\<rparr>), Suc n)))"

fun build_uses ::
  "(MultiLangString list \<Rightarrow> raw result) \<Rightarrow> (nat \<Rightarrow> string) \<Rightarrow> string \<Rightarrow> nat \<Rightarrow> IntendedUseForm list \<Rightarrow> nat \<Rightarrow>
     (DocIntendedUse \<times> IntendedUse) list result \<times> nat" where
  "build_uses marshalPurpose mk createdAt i [] n = (Inr [], n)"
| "build_uses marshalPurpose mk createdAt i (iuf # iufs) n =
     (case build_use marshalPurpose mk createdAt i iuf n of
        (Inl err, n) \<Rightarrow> (Inl err, n)
      | (Inr p, n) \<Rightarrow>
          (case build_uses marshalPurpose mk createdAt (Suc i) iufs n of
             (Inl err, n) \<Rightarrow> (Inl err, n)
           | (Inr ps, n) \<Rightarrow> (Inr (p # ps), n)))"

definition buildIntendedUses ::
  "(MultiLangString list \<Rightarrow> raw result) \<Rightarrow> (nat \<Rightarrow> string) \<Rightarrow> time \<Rightarrow> FormState \<Rightarrow> nat \<Rightarrow>
     (DocIntendedUse list \<times> IntendedUse list) result \<times> nat" where
  "buildIntendedUses marshalPurpose mk now f n =
     (if fs_IntendedUses f = [] then (Inl ErrIntendedUse, n)
      else
        (case build_uses marshalPurpose mk (format_date now) 0 (fs_IntendedUses f) n of
           (Inl err, n) \<Rightarrow> (Inl err, n)
         | (Inr ps, n) \<Rightarrow> (Inr (map fst ps, map snd ps), n)))"

section \<open>The document\<close>

text \<open>The document before the first check.\<close>

definition empty_document :: "FormState \<Rightarrow> WalletRelyingParty" where
  "empty_document f =
     \<lparr>wr_TradeName = fs_TradeName f, wr_SupportURI = nonEmpty (fs_SupportURI f),
      wr_SrvDescription = (if fs_SrvDescription f \<noteq> [] then [fs_SrvDescription f] else []),
      wr_IsPSB = fs_IsPSB f, wr_Country = fs_Country f, wr_Email = nonEmpty (fs_Email f),
      wr_Phone = nonEmpty (fs_Phone f), wr_InfoURI = nonEmpty (fs_InfoURI f),
      wr_LegalPerson = None, wr_NaturalPerson = None, wr_Identifiers = [],
      wr_SupervisoryAuthority = \<lparr>sa_Name = [], sa_Country = [], sa_Email = [], sa_Phone = [], sa_FormURI = []\<rparr>,
      wr_IntendedUse = []\<rparr>"

text \<open>\<open>now\<close> is the reading of the clock \<open>Build\<close> makes.\<close>

definition Build ::
  "(MultiLangString list \<Rightarrow> raw result) \<Rightarrow> (nat \<Rightarrow> string) \<Rightarrow> time \<Rightarrow> FormState \<Rightarrow> nat \<Rightarrow>
     (WalletRelyingParty \<times> IntendedUse list) result \<times> nat" where
  "Build marshalPurpose mk now f n =
     (case applyLegalIdentity f (empty_document f) of
        Inl err \<Rightarrow> (Inl err, n)
      | Inr wrp \<Rightarrow>
     (case validateCountryCode (fs_Country f) of
        Inl err \<Rightarrow> (Inl err, n)
      | Inr _ \<Rightarrow>
     (case identifiers f of
        Inl err \<Rightarrow> (Inl err, n)
      | Inr ids \<Rightarrow>
     (case validateSupervisoryAuthority (fs_Supervisory f) of
        Inl err \<Rightarrow> (Inl err, n)
      | Inr _ \<Rightarrow>
     (case buildIntendedUses marshalPurpose mk now f n of
        (Inl err, n) \<Rightarrow> (Inl err, n)
      | (Inr (docIUs, projections), n) \<Rightarrow>
          (Inr (wrp\<lparr>wr_Identifiers := ids, wr_SupervisoryAuthority := fs_Supervisory f,
                    wr_IntendedUse := docIUs\<rparr>, projections), n))))))"

end
