(* ===== verification/WizardFacts.thy ===== *)
theory WizardFacts
  imports Wizard
begin

text \<open>
  What the wizard accepts and what it produces: the rule a rejected form breaks, the agreement of the
  document with the projections the store gets, and the identifiers of both.
\<close>

section \<open>Verdicts\<close>

text \<open>\<open>judged v r\<close>: the result is a value when no rule is broken, and otherwise an error that wraps the
  sentinel of the broken rule.\<close>

definition judged :: "gerror option \<Rightarrow> 'a result \<Rightarrow> bool" where
  "judged v r = (case v of None \<Rightarrow> is_ok r | Some s \<Rightarrow> (\<exists>e. r = Inl e \<and> errors_Is e s))"

lemma judged_simps [simp]:
  "judged None r = is_ok r" "judged (Some s) (Inl e) = errors_Is e s" "\<not> judged (Some s) (Inr v)"
  by (simp_all add: judged_def)

fun first_of :: "('a \<Rightarrow> gerror option) \<Rightarrow> 'a list \<Rightarrow> gerror option" where
  "first_of v [] = None"
| "first_of v (x # xs) = (case v x of None \<Rightarrow> first_of v xs | Some s \<Rightarrow> Some s)"

lemma first_of_None: "first_of v xs = None \<longleftrightarrow> (\<forall>x \<in> set xs. v x = None)"
  by (induction xs) (auto split: option.split)

lemma first_of_const:
  "first_of (\<lambda>x. if P x then None else Some s) xs = (if list_all P xs then None else Some s)"
  by (induction xs) auto

lemma judged_mapM_from:
  "(\<And>k x. judged (v x) (g k x)) \<Longrightarrow> judged (first_of v xs) (mapM_from i g xs)"
proof (induction xs arbitrary: i)
  case (Cons x xs)
  note x = Cons.prems [of x i] and xs = Cons.IH [OF Cons.prems, of "Suc i"]
  show ?case
  proof (cases "v x")
    case None
    with x obtain y where "g i x = Inr y" by (auto simp: is_ok_iff)
    with None xs show ?thesis
      by (cases "first_of v xs") (auto simp: judged_def is_ok_iff)
  next
    case (Some s)
    with x show ?thesis by (auto simp: judged_def)
  qed
qed simp

lemma judged_wrap:
  "judged v r \<Longrightarrow> judged v (case r of Inl err \<Rightarrow> Inl (Errorf (Wrapped err # ps)) | Inr y \<Rightarrow> Inr (h y))"
  by (cases v) (auto simp: judged_def is_ok_iff)

text \<open>A check of one rule, followed by the rest of the checks.\<close>

lemma judged_then:
  assumes "judged (if b then None else Some s) r"
    and "\<And>e. errors_Is e s \<Longrightarrow> errors_Is (h e) s"
    and "\<And>x. b \<Longrightarrow> r = Inr x \<Longrightarrow> judged w (k x)"
  shows "judged (if \<not> b then Some s else w) (case r of Inl e \<Rightarrow> Inl (h e) | Inr x \<Rightarrow> k x)"
  using assms by (cases b; cases r) simp_all

section \<open>The rules\<close>

definition legal_ok :: "FormState \<Rightarrow> bool" where
  "legal_ok f \<longleftrightarrow>
     fs_LegalKind f = ''legalPerson'' \<and> (\<exists>n \<in> set (fs_LegalName f). n \<noteq> []) \<or>
     fs_LegalKind f = ''naturalPerson'' \<and> fs_GivenName f \<noteq> [] \<and> fs_FamilyName f \<noteq> []"

definition country_ok :: "string \<Rightarrow> bool" where
  "country_ok c \<longleftrightarrow> length c = 2 \<and> list_all is_upper c"

definition ids_ok :: "FormState \<Rightarrow> bool" where
  "ids_ok f \<longleftrightarrow> (fs_EUID f \<noteq> [] \<or> fs_OtherIDs f \<noteq> []) \<and>
     (\<forall>x \<in> set (fs_OtherIDs f). id_Type x \<noteq> [] \<and> id_Identifier x \<noteq> [])"

definition supervisory_ok :: "SupervisoryAuthority \<Rightarrow> bool" where
  "supervisory_ok sa \<longleftrightarrow> country_ok (sa_Country sa) \<and>
     (sa_Email sa \<noteq> [] \<or> sa_Phone sa \<noteq> [] \<or> sa_FormURI sa \<noteq> [])"

definition purpose_ok :: "MultiLangString list \<Rightarrow> bool" where
  "purpose_ok ps \<longleftrightarrow> ps \<noteq> [] \<and> (\<forall>p \<in> set ps. ml_Lang p \<noteq> [] \<and> ml_Content p \<noteq> [])"

definition https_url :: "string \<Rightarrow> bool" where
  "https_url s \<longleftrightarrow> (\<exists>u. url_Parse s = Some u \<and> u_Scheme u = ''https'' \<and> u_Host u \<noteq> [])"

definition policies_ok :: "Policy list \<Rightarrow> bool" where
  "policies_ok ps \<longleftrightarrow> ps \<noteq> [] \<and> (\<forall>p \<in> set ps. https_url (po_PolicyURI p))"

definition path_ok :: "string list \<Rightarrow> bool" where
  "path_ok segs \<longleftrightarrow> segs \<noteq> [] \<and> [] \<notin> set segs"

definition credential_violation :: "CredentialForm \<Rightarrow> gerror option" where
  "credential_violation cf =
     (if cff_Format cf \<notin> {FormatMDoc, FormatSDJWT} then Some ErrCredentialFormat
      else if nonEmpty (cff_DoctypesOrVCTs cf) = [] \<or>
              cff_Format cf = FormatMDoc \<and> length (nonEmpty (cff_DoctypesOrVCTs cf)) \<noteq> 1
      then Some ErrCredential
      else if \<not> cff_AllClaims cf \<and> (cff_Claims cf = [] \<or> \<not> list_all path_ok (cff_Claims cf))
      then Some ErrClaimPath
      else None)"

definition use_violation :: "IntendedUseForm \<Rightarrow> gerror option" where
  "use_violation iuf =
     (if \<not> purpose_ok (iuf_Purpose iuf) then Some ErrPurpose
      else if \<not> policies_ok (iuf_PrivacyPolicy iuf) then Some ErrPrivacyPolicy
      else if iuf_Credentials iuf = [] then Some ErrCredential
      else first_of credential_violation (iuf_Credentials iuf))"

definition form_violation :: "FormState \<Rightarrow> gerror option" where
  "form_violation f =
     (if \<not> legal_ok f then Some ErrLegalIdentity
      else if \<not> country_ok (fs_Country f) then Some ErrCountry
      else if \<not> ids_ok f then Some ErrIdentifier
      else if \<not> supervisory_ok (fs_Supervisory f) then Some ErrSupervisoryAuthority
      else if fs_IntendedUses f = [] then Some ErrIntendedUse
      else first_of use_violation (fs_IntendedUses f))"

abbreviation rule :: "bool \<Rightarrow> gerror \<Rightarrow> gerror option" where
  "rule b s \<equiv> (if b then None else Some s)"

section \<open>Each check decides its rule\<close>

lemma nonEmpty_Nil: "nonEmpty ss = [] \<longleftrightarrow> (\<forall>s \<in> set ss. s = [])"
  by (auto simp: nonEmpty_def filter_empty_conv)

lemma judged_legal: "judged (rule (legal_ok f) ErrLegalIdentity) (applyLegalIdentity f wrp)"
  by (auto simp: applyLegalIdentity_def legal_ok_def nonEmpty_Nil Let_def)

lemma judged_country: "judged (rule (country_ok c) ErrCountry) (validateCountryCode c)"
proof -
  have "length c = 2 \<Longrightarrow> list_all is_upper c \<longleftrightarrow> is_upper (c ! 0) \<and> is_upper (c ! 1)"
    by (cases c; cases "tl c") auto
  then show ?thesis by (auto simp: country_ok_def validateCountryCode_def)
qed

lemma judged_identifiers: "judged (rule (ids_ok f) ErrIdentifier) (identifiers f)"
proof -
  let ?v = "\<lambda>x. rule (id_Type x \<noteq> [] \<and> id_Identifier x \<noteq> []) ErrIdentifier"
  have "judged (first_of ?v (fs_OtherIDs f)) (mapM_from 0 other_identifier (fs_OtherIDs f))"
    by (rule judged_mapM_from) (simp add: other_identifier_def)
  then show ?thesis
    by (auto simp: first_of_const identifiers_def ids_ok_def list_all_iff judged_def is_ok_iff Let_def
        dest: mapM_from_length split: if_splits sum.split)
qed

lemma judged_supervisory:
  "judged (rule (supervisory_ok sa) ErrSupervisoryAuthority) (validateSupervisoryAuthority sa)"
  using judged_country [of "sa_Country sa"]
  by (auto simp: validateSupervisoryAuthority_def supervisory_ok_def is_ok_iff judged_def split: if_splits sum.split)

lemma judged_purpose: "judged (rule (purpose_ok ps) ErrPurpose) (validatePurpose ps)"
  by (auto simp: validatePurpose_def purpose_ok_def list_ex_iff)

lemma judged_policy_uri: "judged (rule (https_url s) ErrPrivacyPolicy) (validateHTTPSPolicyURI s)"
  by (auto simp: validateHTTPSPolicyURI_def https_url_def Let_def split: option.split)

lemma judged_policies: "judged (rule (policies_ok ps) ErrPrivacyPolicy) (validatePrivacyPolicy ps)"
proof -
  have "judged (first_of (\<lambda>p. rule (https_url (po_PolicyURI p)) ErrPrivacyPolicy) ps)
      (mapM_from 0 (\<lambda>_ p. validateHTTPSPolicyURI (po_PolicyURI p)) ps)"
    by (rule judged_mapM_from) (rule judged_policy_uri)
  then show ?thesis
    by (auto simp: first_of_const validatePrivacyPolicy_def policies_ok_def list_all_iff judged_def is_ok_iff
        split: if_splits sum.split)
qed

lemma toClaimPath_ok: "is_ok (toClaimPath segs) = path_ok segs"
proof -
  have "is_ok (mapM_from 0 (\<lambda>i s. if s = [] then Inl (Errorf [Txt ''segment '', Num i, Txt '' is empty''])
      else Inr (JStr s)) segs) = ([] \<notin> set segs)"
    by (auto simp: mapM_from_is_ok in_set_conv_nth split: if_splits)
  then show ?thesis by (simp add: toClaimPath_def path_ok_def)
qed

lemma toClaimPath_value: "toClaimPath segs = Inr path \<Longrightarrow> path = map JStr segs"
  by (auto simp: toClaimPath_def mapM_from_Inr intro!: nth_equalityI split: if_splits)

lemma judged_claims:
  "judged (rule (cff_AllClaims cf \<or> cff_Claims cf \<noteq> [] \<and> list_all path_ok (cff_Claims cf)) ErrClaimPath)
     (claim_paths cf)"
proof -
  have "judged (first_of (\<lambda>segs. rule (path_ok segs) ErrClaimPath) (cff_Claims cf))
      (mapM_from 0 claim_path (cff_Claims cf))"
  proof (rule judged_mapM_from)
    fix k segs
    show "judged (rule (path_ok segs) ErrClaimPath) (claim_path k segs)"
      using toClaimPath_ok [of segs] by (auto simp: claim_path_def split: sum.split)
  qed
  then show ?thesis by (auto simp: first_of_const claim_paths_def)
qed

lemma buildMeta_verdict:
  "cff_Format cf \<in> {FormatMDoc, FormatSDJWT} \<Longrightarrow>
   judged (rule (\<not> (cff_Format cf = FormatMDoc \<and> length ds \<noteq> 1)) ErrCredential) (buildMeta (cff_Format cf) ds)"
  by (auto simp: buildMeta_def)

lemma judged_build: "judged (credential_violation cf) (build cf)"
proof (cases "cff_Format cf \<in> {FormatMDoc, FormatSDJWT}")
  case True
  let ?ds = "nonEmpty (cff_DoctypesOrVCTs cf)"
  note meta = buildMeta_verdict [OF True, of ?ds] and claims = judged_claims [of cf]
  show ?thesis
  proof (cases "?ds = [] \<or> cff_Format cf = FormatMDoc \<and> length ?ds \<noteq> 1")
    case bad: True
    with True have v: "credential_violation cf = Some ErrCredential" by (simp add: credential_violation_def)
    show ?thesis
      using True bad meta unfolding v by (cases "?ds = []") (auto simp: build_def Let_def judged_def)
  next
    case False
    with True have v: "credential_violation cf =
        rule (cff_AllClaims cf \<or> cff_Claims cf \<noteq> [] \<and> list_all path_ok (cff_Claims cf)) ErrClaimPath"
      by (auto simp: credential_violation_def)
    from False meta obtain m where m: "buildMeta (cff_Format cf) ?ds = Inr m" by (auto simp: is_ok_iff)
    have "build cf = (case claim_paths cf of Inl e \<Rightarrow> Inl e | Inr claims \<Rightarrow>
        Inr (\<lparr>cr_Format = cff_Format cf, cr_Meta = m, cr_Claims = claims\<rparr>,
          \<lparr>rc_Format = cff_Format cf, rc_DoctypesOrVCTs = ?ds, rc_AllClaims = cff_AllClaims cf,
           rc_Claims = claims\<rparr>))"
      using True False m by (auto simp: build_def Let_def)
    then show ?thesis
      using claims unfolding v by (cases "claim_paths cf") (simp_all add: judged_def split: if_splits)
  qed
next
  case False
  then show ?thesis by (simp add: build_def credential_violation_def)
qed

lemma judged_build_credential: "judged (credential_violation cf) (build_credential i j cf)"
  unfolding build_credential_def by (rule judged_wrap [where h = "\<lambda>x. x", OF judged_build])

lemma judged_check_use: "judged (use_violation iuf) (check_use i iuf)"
proof -
  have "judged (first_of credential_violation (iuf_Credentials iuf))
      (mapM_from 0 (build_credential i) (iuf_Credentials iuf))"
    by (rule judged_mapM_from) (rule judged_build_credential)
  then have rest: "judged (if iuf_Credentials iuf = [] then Some ErrCredential
      else first_of credential_violation (iuf_Credentials iuf))
     (if iuf_Credentials iuf = [] then
        Inl (Errorf [Wrapped ErrCredential, Txt '' (intended use '', Num i, Txt '' has no credentials)''])
      else mapM_from 0 (build_credential i) (iuf_Credentials iuf))"
    by simp
  show ?thesis
    unfolding use_violation_def check_use_def
    by (rule judged_then [OF judged_purpose], simp add: in_use_def,
        rule judged_then [OF judged_policies], simp add: in_use_def, rule rest)
qed

lemma judged_build_use:
  assumes "\<forall>ps. is_ok (mp ps)"
  shows "judged (use_violation iuf) (fst (build_use mp mk d i iuf n))"
proof (cases "check_use i iuf")
  case (Inl e)
  with judged_check_use [of iuf i] show ?thesis
    by (cases "use_violation iuf") (auto simp: build_use_def)
next
  case (Inr creds)
  moreover from assms have "is_ok (mp (iuf_Purpose iuf))" by blast
  then obtain p where "mp (iuf_Purpose iuf) = Inr p" by (auto simp: is_ok_iff)
  moreover have "use_violation iuf = None"
    using judged_check_use [of iuf i] Inr by (cases "use_violation iuf") auto
  ultimately show ?thesis by (simp add: build_use_def Let_def)
qed

lemma judged_build_uses:
  assumes "\<forall>ps. is_ok (mp ps)"
  shows "judged (first_of use_violation iufs) (fst (build_uses mp mk d i iufs n))"
proof (induction iufs arbitrary: i n)
  case (Cons iuf iufs)
  obtain r n' where r: "build_use mp mk d i iuf n = (r, n')" by fastforce
  note use = judged_build_use [OF assms, of iuf mk d i n, unfolded r fst_conv]
  show ?case
  proof (cases r)
    case (Inl e)
    with r use show ?thesis by (cases "use_violation iuf") auto
  next
    case (Inr p)
    with use have "use_violation iuf = None" by (cases "use_violation iuf") auto
    with r Inr Cons.IH [of "Suc i" n'] show ?thesis
      by (cases "first_of use_violation iufs") (auto simp: is_ok_iff split: prod.splits sum.splits)
  qed
qed simp

lemma judged_assemble:
  "judged v (fst q) \<Longrightarrow>
   judged v (fst (case q of (Inl err, n) \<Rightarrow> (Inl err, n) | (Inr (ds, ps), n) \<Rightarrow> (Inr (w ds, ps), n)))"
  by (cases v; cases q; cases "fst q") (auto simp: is_ok_iff)

lemma Build_judged:
  assumes "\<forall>ps. is_ok (mp ps)"
  shows "judged (form_violation f) (fst (Build mp mk now f n))"
proof -
  have uses: "judged (if fs_IntendedUses f = [] then Some ErrIntendedUse
      else first_of use_violation (fs_IntendedUses f)) (fst (buildIntendedUses mp mk now f n))"
    using judged_build_uses [OF assms, of "fs_IntendedUses f" mk "format_date now" 0 n]
    by (cases "first_of use_violation (fs_IntendedUses f)")
       (auto simp: buildIntendedUses_def is_ok_iff split: prod.splits sum.splits)
  have rest: "judged (if fs_IntendedUses f = [] then Some ErrIntendedUse
      else first_of use_violation (fs_IntendedUses f))
     (fst (case buildIntendedUses mp mk now f n of
        (Inl err, n) \<Rightarrow> (Inl err, n)
      | (Inr (docIUs, projections), n) \<Rightarrow> (Inr (w docIUs, projections), n)))" for w :: "_ \<Rightarrow> WalletRelyingParty"
    by (rule judged_assemble [OF uses])
  have fst_case: "fst (case r of Inl e \<Rightarrow> (Inl e, n) | Inr x \<Rightarrow> g x) =
      (case r of Inl e \<Rightarrow> Inl e | Inr x \<Rightarrow> fst (g x))" for r :: "'b result" and g n
    by (simp split: sum.split)
  show ?thesis
    unfolding Build_def form_violation_def fst_case
    by (rule judged_then [OF judged_legal], assumption, rule judged_then [OF judged_country], assumption,
        rule judged_then [OF judged_identifiers], assumption, rule judged_then [OF judged_supervisory],
        assumption, rule rest)
qed


definition demo_form :: FormState where
  "demo_form = \<lparr>fs_LegalKind = ''legalPerson'', fs_LegalName = [''Acme'', []], fs_GivenName = [], fs_FamilyName = [],
     fs_EUID = ''LV1'', fs_OtherIDs = [], fs_Country = ''LV'', fs_Email = [''a@b''], fs_Phone = [], fs_InfoURI = [],
     fs_SupportURI = [], fs_TradeName = ''Acme'', fs_SrvDescription = [],
     fs_IntendedUses = [\<lparr>iuf_Purpose = [\<lparr>ml_Lang = ''en'', ml_Content = ''age''\<rparr>],
        iuf_PrivacyPolicy = [\<lparr>po_Type = [], po_PolicyURI = ''https://a.example/p''\<rparr>],
        iuf_Credentials = [\<lparr>cff_Format = ''mso_mdoc'', cff_DoctypesOrVCTs = [''pid''], cff_AllClaims = False,
          cff_Claims = [[''age'', ''over18'']]\<rparr>]\<rparr>],
     fs_Supervisory = \<lparr>sa_Name = [], sa_Country = ''LV'', sa_Email = [''dpa@lv''], sa_Phone = [], sa_FormURI = []\<rparr>,
     fs_IsPSB = False\<rparr>"

definition demo_mp :: "MultiLangString list \<Rightarrow> raw result" where
  "demo_mp ps = Inr (RawJSON (JArr (map (\<lambda>p. JObj [(''lang'', JStr (ml_Lang p)), (''content'', JStr (ml_Content p))]) ps)))"

lemma demo_mp_ok: "\<forall>ps. is_ok (demo_mp ps)"
  by (simp add: demo_mp_def)

lemma demo_policy: "https_url ''https://a.example/p''"
proof -
  have "(case url_Parse ''https://a.example/p'' of None \<Rightarrow> False | Some u \<Rightarrow> u_Scheme u = ''https'' \<and> u_Host u \<noteq> [])"
    by code_simp
  then show ?thesis by (auto simp: https_url_def split: option.splits)
qed

lemma demo_form_clean: "form_violation demo_form = None"
  using demo_policy
  by (simp add: form_violation_def demo_form_def legal_ok_def country_ok_def is_upper_def byte_of_def ids_ok_def
      supervisory_ok_def use_violation_def purpose_ok_def policies_ok_def credential_violation_def nonEmpty_def
      FormatMDoc_def FormatSDJWT_def path_ok_def)


section \<open>The document and the projections\<close>

definition meta_of :: "string \<Rightarrow> string list \<Rightarrow> raw" where
  "meta_of format ds =
     (if format = FormatMDoc then RawJSON (JObj [(''doctype_value'', JStr (hd ds))])
      else RawJSON (JObj [(''vct_values'', JArr (map JStr ds))]))"

text \<open>\<open>describes cf c p\<close>: the document's credential \<open>c\<close> and the projection \<open>p\<close> describe the same thing, the
  one the form asks for.\<close>

definition describes :: "CredentialForm \<Rightarrow> Credential \<Rightarrow> RegisteredCredentialJSON \<Rightarrow> bool" where
  "describes cf c p \<longleftrightarrow>
     cr_Format c = cff_Format cf \<and> rc_Format p = cff_Format cf \<and>
     rc_DoctypesOrVCTs p = nonEmpty (cff_DoctypesOrVCTs cf) \<and>
     cr_Meta c = meta_of (cr_Format c) (rc_DoctypesOrVCTs p) \<and>
     rc_AllClaims p = cff_AllClaims cf \<and> cr_Claims c = rc_Claims p \<and>
     rc_Claims p = (if cff_AllClaims cf then [] else map (map JStr) (cff_Claims cf)) \<and>
     (rc_AllClaims p \<longleftrightarrow> rc_Claims p = [])"

lemma claim_paths_value:
  "claim_paths cf = Inr cs \<Longrightarrow>
     cs = (if cff_AllClaims cf then [] else map (map JStr) (cff_Claims cf)) \<and> (cff_AllClaims cf \<longleftrightarrow> cs = [])"
proof (cases "cff_AllClaims cf")
  case False
  assume "claim_paths cf = Inr cs"
  with False have ne: "cff_Claims cf \<noteq> []" and m: "mapM_from 0 claim_path (cff_Claims cf) = Inr cs"
    by (auto simp: claim_paths_def split: if_splits)
  have "claim_path k segs = Inr p \<Longrightarrow> p = map JStr segs" for k segs p
    by (auto simp: claim_path_def dest: toClaimPath_value split: sum.splits)
  with m have "cs = map (map JStr) (cff_Claims cf)"
    by (auto simp: mapM_from_Inr intro!: nth_equalityI)
  with False ne show ?thesis by simp
qed (auto simp: claim_paths_def)

lemma buildMeta_value: "buildMeta fmt ds = Inr m \<Longrightarrow> m = meta_of fmt ds"
  by (auto simp: buildMeta_def meta_of_def marshal_map_def split: if_splits)

lemma build_value: "build cf = Inr (c, p) \<Longrightarrow> describes cf c p"
  by (auto simp: build_def describes_def Let_def dest: buildMeta_value claim_paths_value
      split: if_splits sum.splits)

definition agrees ::
  "(nat \<Rightarrow> string) \<Rightarrow> string \<Rightarrow> nat \<Rightarrow> IntendedUseForm \<Rightarrow> DocIntendedUse \<Rightarrow> IntendedUse \<Rightarrow> bool" where
  "agrees mk createdAt n f d p \<longleftrightarrow>
     du_IntendedUseIdentifier d = ''pending-'' @ mk n \<and> iu_IntendedUseID p = du_IntendedUseIdentifier d \<and>
     iu_ID p = [] \<and> iu_RevokedAt p = [] \<and> du_Purpose d = iuf_Purpose f \<and>
     du_PrivacyPolicy d = iuf_PrivacyPolicy f \<and> du_CreatedAt d = createdAt \<and>
     length (du_Credentials d) = length (iuf_Credentials f) \<and>
     length (iu_Credentials p) = length (iuf_Credentials f) \<and>
     (\<forall>j < length (iuf_Credentials f).
        describes (iuf_Credentials f ! j) (du_Credentials d ! j) (iu_Credentials p ! j))"

lemma check_use_value:
  assumes "check_use i f = Inr creds"
  shows "length creds = length (iuf_Credentials f)"
    "j < length creds \<Longrightarrow> describes (iuf_Credentials f ! j) (fst (creds ! j)) (snd (creds ! j))"
proof -
  have m: "mapM_from 0 (build_credential i) (iuf_Credentials f) = Inr creds"
    using assms by (auto simp: check_use_def split: sum.splits if_splits)
  then show len: "length creds = length (iuf_Credentials f)" by (rule mapM_from_length)
  assume "j < length creds"
  with m len have "build_credential i j (iuf_Credentials f ! j) = Inr (creds ! j)"
    by (simp add: mapM_from_Inr)
  then have "build (iuf_Credentials f ! j) = Inr (fst (creds ! j), snd (creds ! j))"
    by (simp add: build_credential_def split: sum.splits)
  then show "describes (iuf_Credentials f ! j) (fst (creds ! j)) (snd (creds ! j))"
    by (rule build_value)
qed

lemma build_use_value:
  assumes "build_use mp mk d i f n = (Inr q, n')"
  shows "n' = Suc n \<and> agrees mk d n f (fst q) (snd q)"
proof -
  obtain creds where c: "check_use i f = Inr creds"
    using assms by (auto simp: build_use_def split: sum.splits)
  with assms check_use_value [OF c] show ?thesis
    by (auto simp: build_use_def agrees_def Let_def pendingIUPrefix_def split: sum.splits)
qed

lemma build_uses_value:
  "build_uses mp mk d i fs n = (Inr qs, n') \<Longrightarrow>
     length qs = length fs \<and> (\<forall>k < length fs. agrees mk d (n + k) (fs ! k) (fst (qs ! k)) (snd (qs ! k)))"
proof (induction fs arbitrary: i n qs)
  case (Cons f fs)
  then obtain q m ps where q: "build_use mp mk d i f n = (Inr q, m)"
    "build_uses mp mk d (Suc i) fs m = (Inr ps, n')" "qs = q # ps"
    by (auto split: prod.splits sum.splits)
  from build_use_value [OF q(1)] have "m = Suc n" "agrees mk d n f (fst q) (snd q)" by auto
  with Cons.IH [OF q(2)] show ?case
    by (auto simp: q(3) less_Suc_eq_0_disj)
qed simp

lemma Build_value:
  assumes "Build mp mk now f n = (Inr (wrp, ius), n')"
  obtains wrp0 ids qs where "applyLegalIdentity f (empty_document f) = Inr wrp0" "identifiers f = Inr ids"
    "build_uses mp mk (format_date now) 0 (fs_IntendedUses f) n = (Inr qs, n')"
    "wrp = wrp0\<lparr>wr_Identifiers := ids, wr_SupervisoryAuthority := fs_Supervisory f,
              wr_IntendedUse := map fst qs\<rparr>"
    "ius = map snd qs" "fs_IntendedUses f \<noteq> []"
proof -
  from assms obtain wrp0 ids ds where b: "applyLegalIdentity f (empty_document f) = Inr wrp0"
    "identifiers f = Inr ids" "buildIntendedUses mp mk now f n = (Inr (ds, ius), n')"
    "wrp = wrp0\<lparr>wr_Identifiers := ids, wr_SupervisoryAuthority := fs_Supervisory f, wr_IntendedUse := ds\<rparr>"
    by (auto simp: Build_def split: sum.splits prod.splits)
  from b(3) obtain qs where "build_uses mp mk (format_date now) 0 (fs_IntendedUses f) n = (Inr qs, n')"
    "ds = map fst qs" "ius = map snd qs" "fs_IntendedUses f \<noteq> []"
    by (auto simp: buildIntendedUses_def split: sum.splits prod.splits if_splits)
  with b that show thesis by blast
qed

lemma Build_uses:
  assumes "Build mp mk now f n = (Inr (wrp, ius), n')"
  shows "ius \<noteq> [] \<and> length ius = length (fs_IntendedUses f) \<and>
     length (wr_IntendedUse wrp) = length (fs_IntendedUses f) \<and>
     (\<forall>k < length (fs_IntendedUses f).
        agrees mk (format_date now) (n + k) (fs_IntendedUses f ! k) (wr_IntendedUse wrp ! k) (ius ! k))"
  using assms
proof (rule Build_value)
  fix wrp0 ids qs
  assume b: "build_uses mp mk (format_date now) 0 (fs_IntendedUses f) n = (Inr qs, n')"
    "wrp = wrp0\<lparr>wr_Identifiers := ids, wr_SupervisoryAuthority := fs_Supervisory f, wr_IntendedUse := map fst qs\<rparr>"
    "ius = map snd qs" "fs_IntendedUses f \<noteq> []"
  from build_uses_value [OF b(1)] b(2-4) show ?thesis by auto
qed

lemma demo_build: obtains wrp ius n' where "Build demo_mp nat_dec 0 demo_form 0 = (Inr (wrp, ius), n')"
proof -
  have "is_ok (fst (Build demo_mp nat_dec 0 demo_form 0))"
    using Build_judged [OF demo_mp_ok, of demo_form nat_dec 0 0] by (simp only: demo_form_clean judged_simps)
  with that show thesis by (cases "Build demo_mp nat_dec 0 demo_form 0") (auto simp: is_ok_iff)
qed



lemma Build_ids:
  assumes "Build mp mk now f n = (Inr (wrp, ius), n')"
  shows "map iu_IntendedUseID ius = map (\<lambda>k. ''pending-'' @ mk (n + k)) [0..<length ius]"
  using Build_uses [OF assms] by (auto simp: agrees_def intro!: nth_equalityI)

lemma Build_ids_distinct:
  assumes "Build mp mk now f n = (Inr (wrp, ius), n')" "inj mk"
  shows "distinct (map iu_IntendedUseID ius)"
  unfolding Build_ids [OF assms(1)] by (auto simp: distinct_map inj_on_def dest: injD [OF assms(2)])



end
