(* ===== verification/ApiKeys.thy ===== *)
theory ApiKeys
  imports GoEncoding
begin

text \<open>
  \<^verbatim>\<open>internal/apikeys/apikeys.go\<close>: minting a verification key.  The randomness source is the byte string
  it still holds.  \<open>argon2.IDKey\<close> and \<open>argon2.Version\<close> are not part of the repository: they are the
  parameters \<open>idKey\<close> (password, salt, time, memory, threads, length) and \<open>version\<close>.
\<close>

definition argonMemoryKiB :: nat where "argonMemoryKiB = 19456"
definition argonTime :: nat where "argonTime = 2"
definition argonThreads :: nat where "argonThreads = 1"
definition saltLen :: nat where "saltLen = 16"
definition tagLen :: nat where "tagLen = 32"
definition prefixRawLen :: nat where "prefixRawLen = 5"
definition secretRawLen :: nat where "secretRawLen = 24"
definition keyScheme :: string where "keyScheme = ''vk''"

lemmas key_consts = argonMemoryKiB_def argonTime_def argonThreads_def saltLen_def tagLen_def
  prefixRawLen_def secretRawLen_def keyScheme_def

definition crockford32 :: string where
  "crockford32 = ''0123456789ABCDEFGHJKMNPQRSTVWXYZ''"

definition encode_prefix :: "string \<Rightarrow> string" where
  "encode_prefix = encode_raw crockford32 5"

definition raw_url :: "string \<Rightarrow> string" where
  "raw_url = encode_raw base64_url 6"

definition raw_std :: "string \<Rightarrow> string" where
  "raw_std = encode_raw base64_std 6"

definition phc_string :: "nat \<Rightarrow> string \<Rightarrow> string \<Rightarrow> string" where
  "phc_string version salt tag =
     ''$argon2id$v='' @ nat_dec version @ ''$m='' @ nat_dec argonMemoryKiB @ '',t='' @ nat_dec argonTime @
     '',p='' @ nat_dec argonThreads @ ''$'' @ raw_std salt @ ''$'' @ raw_std tag"

definition mint_error :: "string \<Rightarrow> gerror \<Rightarrow> gerror" where
  "mint_error what err = Errorf [Txt (''apikeys: mint '' @ what @ '': ''), Wrapped err]"

definition Mint ::
  "(string \<Rightarrow> string \<Rightarrow> nat \<Rightarrow> nat \<Rightarrow> nat \<Rightarrow> nat \<Rightarrow> string) \<Rightarrow> nat \<Rightarrow> string \<Rightarrow>
     (string \<times> string \<times> string) result \<times> string" where
  "Mint idKey version r =
     (case read_full prefixRawLen r of
        (Inl err, r) \<Rightarrow> (Inl (mint_error ''prefix'' err), r)
      | (Inr prefixRaw, r) \<Rightarrow>
     let prefix = encode_prefix prefixRaw in
     (case read_full secretRawLen r of
        (Inl err, r) \<Rightarrow> (Inl (mint_error ''secret'' err), r)
      | (Inr secretRaw, r) \<Rightarrow>
     let secret = raw_url secretRaw in
     (case read_full saltLen r of
        (Inl err, r) \<Rightarrow> (Inl (mint_error ''salt'' err), r)
      | (Inr salt, r) \<Rightarrow>
     let tag = idKey secret salt argonTime argonMemoryKiB argonThreads tagLen;
         phcHash = phc_string version salt tag in
     (Inr (keyScheme @ ''_'' @ prefix @ ''_'' @ secret, prefix, phcHash), r))))"

section \<open>The alphabets\<close>

lemma crockford_alphabet: "length crockford32 = 2 ^ 5" "distinct crockford32" "CHR ''_'' \<notin> set crockford32"
  by (simp_all add: crockford32_def)

lemma prefix_shape:
  "length p = 5 \<Longrightarrow> length (encode_prefix p) = 8 \<and> set (encode_prefix p) \<subseteq> set crockford32"
  using set_encode_raw [OF crockford_alphabet(1)] by (simp add: encode_prefix_def length_encode_raw)

lemma raw_url_shape: "set (raw_url s) \<subseteq> set base64_url" "length (raw_url s) = (8 * length s + 5) div 6"
  using set_encode_raw [OF base64_alphabets(3)] by (auto simp: raw_url_def length_encode_raw)

lemma raw_std_shape: "set (raw_std s) \<subseteq> set base64_std" "length (raw_std s) = (8 * length s + 5) div 6"
  using set_encode_raw [OF base64_alphabets(1)] by (auto simp: raw_std_def length_encode_raw)

lemma encode_prefix_inject: "length s = length t \<Longrightarrow> encode_prefix s = encode_prefix t \<Longrightarrow> s = t"
  unfolding encode_prefix_def by (rule encode_raw_inject [OF crockford_alphabet(2,1)]) simp_all

lemma raw_url_inject: "length s = length t \<Longrightarrow> raw_url s = raw_url t \<Longrightarrow> s = t"
  unfolding raw_url_def by (rule encode_raw_inject [OF base64_alphabets(4,3)]) simp_all

lemma raw_std_inject: "length s = length t \<Longrightarrow> raw_std s = raw_std t \<Longrightarrow> s = t"
  unfolding raw_std_def by (rule encode_raw_inject [OF base64_alphabets(2,1)]) simp_all

section \<open>Minting\<close>

text \<open>The three reads as one: the mint of the first 45 bytes.\<close>

definition minted_key ::
  "(string \<Rightarrow> string \<Rightarrow> nat \<Rightarrow> nat \<Rightarrow> nat \<Rightarrow> nat \<Rightarrow> string) \<Rightarrow> nat \<Rightarrow> string \<Rightarrow> string \<times> string \<times> string" where
  "minted_key idKey version r =
     (let prefix = encode_prefix (take 5 r); secret = raw_url (take 24 (drop 5 r));
          salt = take 16 (drop 29 r)
      in (''vk_'' @ prefix @ ''_'' @ secret, prefix,
          phc_string version salt (idKey secret salt 2 19456 1 32)))"

lemma Mint_eq:
  "Mint idKey version r =
     (if 45 \<le> length r then (Inr (minted_key idKey version r), drop 45 r)
      else (Inl (mint_error (if length r < 5 then ''prefix'' else if length r < 29 then ''secret'' else ''salt'')
              (LibError (if length r \<in> {0, 5, 29} then ''EOF'' else ''unexpected EOF''))), []))"
  by (auto simp: Mint_def read_full_def minted_key_def key_consts Let_def)

text \<open>
  C38 (shape of a key): when minting succeeds, exactly 45 bytes were read, and the display key is
  \<^verbatim>\<open>vk_\<close>, the eight-character prefix from the Crockford alphabet, an underscore and a 32-character
  URL-safe secret; the stored hash is the argon2id PHC string with the pinned parameters of the
  secret's tag under a 16-byte salt.  Too few bytes are an error that names the read that failed,
  and no key.
\<close>

theorem mint_shape:
  "case Mint idKey version r of
     (Inr (key, prefix, phc), rest) \<Rightarrow>
       45 \<le> length r \<and> rest = drop 45 r \<and>
       (\<exists>secret salt. key = ''vk_'' @ prefix @ ''_'' @ secret \<and>
          length prefix = 8 \<and> set prefix \<subseteq> set crockford32 \<and>
          length secret = 32 \<and> set secret \<subseteq> set base64_url \<and> length salt = 16 \<and>
          phc = ''$argon2id$v='' @ nat_dec version @ ''$m=19456,t=2,p=1$'' @ raw_std salt @ ''$'' @
                raw_std (idKey secret salt 2 19456 1 32))
   | (Inl e, rest) \<Rightarrow> length r < 45 \<and> (\<exists>m. errors_Is e (LibError m))"
proof (cases "45 \<le> length r")
  case True
  have "chr_of 49 = CHR ''1''" "chr_of 50 = CHR ''2''" "chr_of 52 = CHR ''4''" "chr_of 53 = CHR ''5''"
    "chr_of 54 = CHR ''6''" "chr_of 57 = CHR ''9''"
    by code_simp+
  then have dec: "nat_dec 19456 = ''19456''" "nat_dec 2 = ''2''" "nat_dec 1 = ''1''"
    by (simp_all add: nat_dec.simps)
  from True prefix_shape [of "take 5 r"] raw_url_shape [of "take 24 (drop 5 r)"] show ?thesis
    by (simp add: Mint_eq minted_key_def Let_def phc_string_def key_consts dec [simplified])
      (rule exI [of _ "take 16 (drop 29 r)"], simp)
next
  case False
  then show ?thesis by (auto simp: Mint_eq mint_error_def errors_Is_def)
qed

text \<open>
  Keys keep the randomness: the display keys of two mints are equal only if the prefix and secret
  bytes read were the same, and the prefixes only if the prefix bytes were; no information of the 29
  random bytes is lost.  A display key has one reading as prefix and secret.
\<close>

theorem mint_injective:
  assumes "Mint idKey version r = (Inr (key, prefix, phc), q)"
    and "Mint idKey' version' r' = (Inr (key', prefix', phc'), q')"
  shows "(key = key' \<longleftrightarrow> take 29 r = take 29 r') \<and> (prefix = prefix' \<longleftrightarrow> take 5 r = take 5 r')"
proof -
  let ?s = "\<lambda>r. take 24 (drop 5 r)"
  from assms have len: "45 \<le> length r" "45 \<le> length r'" by (auto simp: Mint_eq split: if_splits)
  with assms have k: "key = ''vk_'' @ encode_prefix (take 5 r) @ ''_'' @ raw_url (?s r)"
    "prefix = encode_prefix (take 5 r)"
    "key' = ''vk_'' @ encode_prefix (take 5 r') @ ''_'' @ raw_url (?s r')"
    "prefix' = encode_prefix (take 5 r')"
    by (auto simp: Mint_eq minted_key_def Let_def)
  have pre: "encode_prefix (take 5 r) = encode_prefix (take 5 r') \<longleftrightarrow> take 5 r = take 5 r'"
    using len by (auto intro: encode_prefix_inject)
  have sec: "raw_url (?s r) = raw_url (?s r') \<longleftrightarrow> ?s r = ?s r'"
    using len by (auto intro: raw_url_inject)
  have split: "take 29 x = take 5 x @ ?s x" for x :: string
    using take_add [of 5 24 x] by simp
  have "key = key' \<longleftrightarrow> take 5 r = take 5 r' \<and> ?s r = ?s r'"
    using len prefix_shape [of "take 5 r"] prefix_shape [of "take 5 r'"]
    by (simp add: k append_eq_append_conv pre sec)
  also have "\<dots> \<longleftrightarrow> take 29 r = take 29 r'"
    unfolding split using len by (subst append_eq_append_conv) simp_all
  finally show ?thesis using pre k by simp
qed

text \<open>A hash parameter for the witnesses: the constant tag of 32 bytes.\<close>

definition demo_idKey :: "string \<Rightarrow> string \<Rightarrow> nat \<Rightarrow> nat \<Rightarrow> nat \<Rightarrow> nat \<Rightarrow> string" where
  "demo_idKey password salt t m p len = replicate len (CHR ''A'')"

lemma demo_mint:
  "Mint demo_idKey 19 (replicate 45 c) = (Inr (minted_key demo_idKey 19 (replicate 45 c)), [])"
  by (simp add: Mint_eq)

theorem mint_injective_witness:
  "fst (minted_key demo_idKey 19 (replicate 45 (CHR ''a''))) \<noteq> fst (minted_key demo_idKey 19 (replicate 45 (CHR ''b'')))"
proof -
  obtain k p h k' p' h' where m: "minted_key demo_idKey 19 (replicate 45 (CHR ''a'')) = (k, p, h)"
    "minted_key demo_idKey 19 (replicate 45 (CHR ''b'')) = (k', p', h')"
    by (metis prod_cases3)
  from mint_injective [OF demo_mint [of "CHR ''a''", unfolded m] demo_mint [of "CHR ''b''", unfolded m]]
  show ?thesis by (simp add: m take_replicate)
qed

text \<open>
  A stored hash has one reading: two PHC strings for the same version, with salts of one length and
  tags of one length, are equal only if the salts and the tags are, so a verifier can take them apart.
  Hence two minted keys have the same stored hash exactly when the salts and the tags agree; nothing
  else of a secret reaches the store.
\<close>

theorem stored_hash_reading:
  assumes "Mint idKey version r = (Inr (key, prefix, phc), q)" "Mint idKey version r' = (Inr (key', prefix', phc'), q')"
    and "\<And>pw salt. length (idKey pw salt 2 19456 1 32) = 32"
  shows "phc = phc' \<longleftrightarrow> take 16 (drop 29 r) = take 16 (drop 29 r') \<and>
     idKey (raw_url (take 24 (drop 5 r))) (take 16 (drop 29 r)) 2 19456 1 32 =
     idKey (raw_url (take 24 (drop 5 r'))) (take 16 (drop 29 r')) 2 19456 1 32"
proof -
  let ?salt = "\<lambda>r. take 16 (drop 29 r)"
  let ?tag = "\<lambda>r. idKey (raw_url (take 24 (drop 5 r))) (?salt r) 2 19456 1 32"
  from assms(1,2) have len: "45 \<le> length r" "45 \<le> length r'" by (auto simp: Mint_eq split: if_splits)
  with assms(1,2) have "phc = phc_string version (?salt r) (?tag r)" "phc' = phc_string version (?salt r') (?tag r')"
    by (auto simp: Mint_eq minted_key_def Let_def)
  moreover have "length (raw_std (?salt r)) = length (raw_std (?salt r'))"
    using len by (simp add: raw_std_shape)
  ultimately have "phc = phc' \<longleftrightarrow> raw_std (?salt r) = raw_std (?salt r') \<and> raw_std (?tag r) = raw_std (?tag r')"
    by (simp add: phc_string_def append_eq_append_conv)
  moreover have "raw_std (?salt r) = raw_std (?salt r') \<longleftrightarrow> ?salt r = ?salt r'"
    using len by (auto intro: raw_std_inject)
  moreover have "raw_std (?tag r) = raw_std (?tag r') \<longleftrightarrow> ?tag r = ?tag r'"
    using assms(3) by (auto intro: raw_std_inject)
  ultimately show ?thesis by simp
qed

theorem stored_hash_reading_witness:
  "(snd (snd (minted_key demo_idKey 19 (replicate 45 (CHR ''a'')))) =
    snd (snd (minted_key demo_idKey 19 (replicate 45 (CHR ''b''))))) = False"
proof -
  obtain k p h k' p' h' where m: "minted_key demo_idKey 19 (replicate 45 (CHR ''a'')) = (k, p, h)"
    "minted_key demo_idKey 19 (replicate 45 (CHR ''b'')) = (k', p', h')"
    by (metis prod_cases3)
  from stored_hash_reading [OF demo_mint [of "CHR ''a''", unfolded m] demo_mint [of "CHR ''b''", unfolded m]]
  show ?thesis by (simp add: m demo_idKey_def)
qed

end
