(* ===== verification/Routes.thy ===== *)
theory Routes
  imports LifecycleEffects WizardFacts ApiKeys
begin

text \<open>
  Package \<^verbatim>\<open>routes\<close>: the admin API over any \<open>Store\<close>.  A handler takes the environment, the request and
  the world, and returns the response and the world it leaves.  The request body is the JSON value the
  handler decodes; the path parameter, the query parameter and the key header are fields of the
  request.  The world is the store's state and the three sources a handler draws from: the random
  bytes, the ULIDs made so far and the clock.  The problem values are those of the platform kit; how
  the framework turns one into a status and a body is not part of the repository.
\<close>

section \<open>Requests, responses, environment\<close>

record request =
  rq_id :: string
  rq_state :: "string option"
  rq_key :: string
  rq_body :: raw

datatype response = RespError gerror | RespJSON nat json | RespStatus nat | RespUnencodable

record 's env =
  e_Store :: "'s Store"
  e_AdminAPIKey :: string
  e_marshalPurpose :: "MultiLangString list \<Rightarrow> raw result"
  e_marshalWRP :: "WalletRelyingParty \<Rightarrow> raw result"
  e_ulid :: "nat \<Rightarrow> string"
  e_clock :: "nat \<Rightarrow> time"
  e_idKey :: "string \<Rightarrow> string \<Rightarrow> nat \<Rightarrow> nat \<Rightarrow> nat \<Rightarrow> nat \<Rightarrow> string"
  e_argonVersion :: nat
  e_PingOK :: bool

record 's world =
  w_state :: 's
  w_rand :: string
  w_ulids :: nat
  w_ticks :: nat

type_synonym 's handler = "'s env \<Rightarrow> request \<Rightarrow> 's world \<Rightarrow> response \<times> 's world"

definition on_store :: "('s \<Rightarrow> 'a result \<times> 's) \<Rightarrow> 's world \<Rightarrow> 'a result \<times> 's world" where
  "on_store op w = (case op (w_state w) of (r, s) \<Rightarrow> (r, w\<lparr>w_state := s\<rparr>))"

definition statusOK :: nat where "statusOK = 200"
definition statusCreated :: nat where "statusCreated = 201"
definition statusNoContent :: nat where "statusNoContent = 204"

definition invalidBody :: "popt list \<Rightarrow> response" where
  "invalidBody os = RespError (NewProblem ''err:api:invalidBody'' os)"

definition notJSON :: response where
  "notJSON = invalidBody [WithDetail [Txt ''body is not valid JSON'']]"

section \<open>Listing, creating and reading clients\<close>

definition apiClientSummary :: "ClientSummary \<Rightarrow> json" where
  "apiClientSummary c = JObj ([(''id'', JStr (cs_ID c)), (''name'', JStr (cs_Name c))] @
     omitempty_str ''slug'' (cs_Slug c) @
     [(''state'', JStr (cs_Status c)), (''updatedAt'', JStr (format_rfc3339nano (cs_UpdatedAt c)))])"

definition listed_summaries :: "string option \<Rightarrow> ClientSummary list gomap \<Rightarrow> ClientSummary list" where
  "listed_summaries want byState =
     concat (map snd (filter (\<lambda>(state, cs). \<not> (want \<noteq> None \<and> Some state \<noteq> want)) byState))"

definition apiListClients :: "'s handler" where
  "apiListClients e rq w =
     (case on_store (ListClientsByState (e_Store e)) w of
        (Inl err, w) \<Rightarrow> (RespError err, w)
      | (Inr byState, w) \<Rightarrow>
          (RespJSON statusOK (JArr (map apiClientSummary (listed_summaries (rq_state rq) byState))), w))"

record apiCreateRequest =
  cq_Name :: string
  cq_ContactEmail :: string

definition dec_apiCreateRequest :: "apiCreateRequest decoder" where
  "dec_apiCreateRequest = dec_members
     [member ''name'' dec_string cq_Name (\<lambda>v. cq_Name_update (\<lambda>_. v)),
      member ''contactEmail'' dec_string cq_ContactEmail (\<lambda>v. cq_ContactEmail_update (\<lambda>_. v))]"

definition apiClientCreated :: "ClientFull \<Rightarrow> json" where
  "apiClientCreated c =
     JObj [(''id'', JStr (cf_ID c)), (''slug'', JStr (cf_Slug c)), (''state'', JStr (cf_Status c))]"

definition apiCreateClient :: "'s handler" where
  "apiCreateClient e rq w =
     (case unmarshal dec_apiCreateRequest \<lparr>cq_Name = [], cq_ContactEmail = []\<rparr> (rq_body rq) of
        None \<Rightarrow> (notJSON, w)
      | Some req \<Rightarrow>
     if cq_Name req = [] then (invalidBody [WithDetail [Txt ''name is required'']], w)
     else
     (case on_store (CreateDraftClient (e_Store e) (cq_Name req) (cq_ContactEmail req) ''api'') w of
        (Inl err, w) \<Rightarrow> (RespError err, w)
      | (Inr i, w) \<Rightarrow>
     (case on_store (GetClientFull (e_Store e) i) w of
        (Inl err, w) \<Rightarrow> (RespError err, w)
      | (Inr full, w) \<Rightarrow> (RespJSON statusCreated (apiClientCreated full), w))))"

definition apiClientDetail :: "ClientFull \<Rightarrow> json option" where
  "apiClientDetail c = map_option (\<lambda>reg. JObj ([(''id'', JStr (cf_ID c)), (''name'', JStr (cf_Name c))] @
     omitempty_str ''slug'' (cf_Slug c) @
     [(''state'', JStr (cf_Status c)), (''webhookUrl'', JStr (cf_DefaultWebhook c)),
      (''registryUri'', JStr (cf_RegistryURI c)), (''clientIdentifier'', JStr (cf_ClientIdentifier c)),
      (''registration'', reg)])) (marshal_raw (cf_WRPDocument c))"

definition apiGetClient :: "'s handler" where
  "apiGetClient e rq w =
     (case on_store (GetClientFull (e_Store e) (rq_id rq)) w of
        (Inl err, w) \<Rightarrow> (RespError err, w)
      | (Inr full, w) \<Rightarrow>
          (case apiClientDetail full of
             None \<Rightarrow> (RespUnencodable, w)
           | Some j \<Rightarrow> (RespJSON statusOK j, w)))"

section \<open>Transitions and setters\<close>

record apiTransitionRequest =
  tq_TargetState :: string
  tq_Reason :: string
  tq_EvidenceRef :: string

definition dec_apiTransitionRequest :: "apiTransitionRequest decoder" where
  "dec_apiTransitionRequest = dec_members
     [member ''targetState'' dec_string tq_TargetState (\<lambda>v. tq_TargetState_update (\<lambda>_. v)),
      member ''reason'' dec_string tq_Reason (\<lambda>v. tq_Reason_update (\<lambda>_. v)),
      member ''evidenceRef'' dec_string tq_EvidenceRef (\<lambda>v. tq_EvidenceRef_update (\<lambda>_. v))]"

definition apiClientState :: "string \<Rightarrow> string \<Rightarrow> json" where
  [simp]: "apiClientState i st = JObj [(''id'', JStr i), (''state'', JStr st)]"

definition apiTransition :: "'s handler" where
  "apiTransition e rq w =
     (case unmarshal dec_apiTransitionRequest \<lparr>tq_TargetState = [], tq_Reason = [], tq_EvidenceRef = []\<rparr> (rq_body rq) of
        None \<Rightarrow> (notJSON, w)
      | Some req \<Rightarrow>
     if tq_TargetState req = [] then (invalidBody [WithDetail [Txt ''targetState is required'']], w)
     else
     (case on_store (Transition (NewService (e_Store e)) (rq_id rq) (tq_TargetState req) ''api''
             (tq_EvidenceRef req) (tq_Reason req)) w of
        (Inl err, w) \<Rightarrow> (RespError err, w)
      | (Inr _, w) \<Rightarrow>
          (RespJSON statusOK (apiClientState (rq_id rq) (tq_TargetState req)), w)))"

text \<open>What the setters do after their checks: write through the store, read the row back, echo it.\<close>

definition set_and_echo ::
  "('s \<Rightarrow> unit result \<times> 's) \<Rightarrow> (ClientFull \<Rightarrow> json) \<Rightarrow> 's handler" where
  "set_and_echo op echo e rq w =
     (case on_store op w of
        (Inl err, w) \<Rightarrow> (RespError err, w)
      | (Inr _, w) \<Rightarrow>
     (case on_store (GetClientFull (e_Store e) (rq_id rq)) w of
        (Inl err, w) \<Rightarrow> (RespError err, w)
      | (Inr full, w) \<Rightarrow>
          (RespJSON statusOK (echo full), w)))"

definition apiClientWebhookState :: "string \<Rightarrow> ClientFull \<Rightarrow> json" where
  [simp]: "apiClientWebhookState i full =
     JObj [(''id'', JStr i), (''state'', JStr (cf_Status full)), (''webhookUrl'', JStr (cf_DefaultWebhook full))]"

definition dec_apiWebhookRequest :: "string decoder" where
  "dec_apiWebhookRequest = dec_members [member ''webhookUrl'' dec_string (\<lambda>u. u) (\<lambda>v _. v)]"

definition apiSetWebhook :: "'s handler" where
  "apiSetWebhook e rq w =
     (case unmarshal dec_apiWebhookRequest [] (rq_body rq) of
        None \<Rightarrow> (notJSON, w)
      | Some url \<Rightarrow>
     if url = [] then (invalidBody [WithDetail [Txt ''webhookUrl is required'']], w)
     else set_and_echo (SetClientWebhook (e_Store e) (rq_id rq) url ''api'')
            (apiClientWebhookState (rq_id rq)) e rq w)"

definition apiClientOriginsState :: "string \<Rightarrow> ClientFull \<Rightarrow> json" where
  [simp]: "apiClientOriginsState i full =
     JObj [(''id'', JStr i), (''state'', JStr (cf_Status full)),
       (''allowedOrigins'', JArr (map JStr (cf_AllowedOrigins full)))]"

definition dec_apiAllowedOriginsRequest :: "string list option decoder" where
  "dec_apiAllowedOriginsRequest = dec_members
     [member ''allowedOrigins'' (dec_ptr [] (dec_list [] dec_string)) (\<lambda>u. u) (\<lambda>v _. v)]"

definition isWebOrigin :: "string \<Rightarrow> bool" where
  "isWebOrigin raw =
     (case url_Parse raw of
        None \<Rightarrow> False
      | Some u \<Rightarrow> u_Scheme u = ''https'' \<and> u_Host u \<noteq> [] \<and> u_Path u = [] \<and>
          u_RawQuery u = [] \<and> u_Fragment u = [] \<and> u_User u = None)"

definition apiSetAllowedOrigins :: "'s handler" where
  "apiSetAllowedOrigins e rq w =
     (case unmarshal dec_apiAllowedOriginsRequest None (rq_body rq) of
        None \<Rightarrow> (notJSON, w)
      | Some None \<Rightarrow>
          (invalidBody [WithPublicDetail [Txt (''allowedOrigins is required (send an empty array to '' @
             ''withdraw every origin)'')]], w)
      | Some (Some origins) \<Rightarrow>
     (case find (\<lambda>u. \<not> isWebOrigin u) origins of
        Some u \<Rightarrow>
          (invalidBody [WithPublicDetail [Txt ''allowedOrigins['', Quoted u, Txt (''] must be '' @
             ''https://host[:port] with no path, query, fragment or userinfo'')]], w)
      | None \<Rightarrow>
          set_and_echo (SetClientAllowedOrigins (e_Store e) (rq_id rq) origins ''api'')
            (apiClientOriginsState (rq_id rq)) e rq w))"

definition storedDCAPIMode :: "raw \<Rightarrow> string" where
  "storedDCAPIMode policy =
     (let decode = unmarshal (dec_members
            [member ''require_signed_dcapi'' (dec_ptr False dec_bool) (\<lambda>u. u) (\<lambda>v _. v)]) None in
      case (if policy = RawNil then Some None else decode policy) of
        None \<Rightarrow> ''signed''
      | Some (Some False) \<Rightarrow> ''unsigned''
      | Some _ \<Rightarrow> ''signed'')"

definition apiClientDCAPIModeState :: "string \<Rightarrow> ClientFull \<Rightarrow> json" where
  [simp]: "apiClientDCAPIModeState i full =
     JObj [(''id'', JStr i), (''state'', JStr (cf_Status full)),
       (''dcapiRequestMode'', JStr (storedDCAPIMode (cf_Policy full)))]"

definition dec_apiDCAPIModeRequest :: "string option decoder" where
  "dec_apiDCAPIModeRequest = dec_members
     [member ''dcapiRequestMode'' (dec_ptr [] dec_string) (\<lambda>u. u) (\<lambda>v _. v)]"

definition apiSetDCAPIRequestMode :: "'s handler" where
  "apiSetDCAPIRequestMode e rq w =
     (case unmarshal dec_apiDCAPIModeRequest None (rq_body rq) of
        None \<Rightarrow> (notJSON, w)
      | Some None \<Rightarrow>
          (invalidBody [WithPublicDetail [Txt ''dcapiRequestMode is required (\"signed\" or \"unsigned\")'']], w)
      | Some (Some md) \<Rightarrow>
          if md \<noteq> ''signed'' \<and> md \<noteq> ''unsigned'' then
            (invalidBody [WithPublicDetail [Txt ''dcapiRequestMode '', Quoted md,
               Txt '' must be \"signed\" or \"unsigned\"'']], w)
          else
            set_and_echo (SetClientDCAPIMode (e_Store e) (rq_id rq) md ''api'')
              (apiClientDCAPIModeState (rq_id rq)) e rq w)"

record apiRegistrarIdentityRequest =
  ri_RegistryURI :: string
  ri_ClientIdentifier :: string

definition dec_apiRegistrarIdentityRequest :: "apiRegistrarIdentityRequest decoder" where
  "dec_apiRegistrarIdentityRequest = dec_members
     [member ''registryUri'' dec_string ri_RegistryURI (\<lambda>v. ri_RegistryURI_update (\<lambda>_. v)),
      member ''clientIdentifier'' dec_string ri_ClientIdentifier (\<lambda>v. ri_ClientIdentifier_update (\<lambda>_. v))]"

text \<open>The check of \<^verbatim>\<open>routes/api.go\<close>; the lifecycle package has a restatement of its own.\<close>

definition isAbsoluteHTTPSURL_api :: "string \<Rightarrow> bool" where
  "isAbsoluteHTTPSURL_api raw =
     (case url_Parse raw of
        None \<Rightarrow> False
      | Some u \<Rightarrow> u_Scheme u = ''https'' \<and> u_Host u \<noteq> [])"

definition apiSetRegistrarIdentity :: "'s handler" where
  "apiSetRegistrarIdentity e rq w =
     (case unmarshal dec_apiRegistrarIdentityRequest \<lparr>ri_RegistryURI = [], ri_ClientIdentifier = []\<rparr> (rq_body rq) of
        None \<Rightarrow> (notJSON, w)
      | Some req \<Rightarrow>
     if ri_RegistryURI req = [] \<or> ri_ClientIdentifier req = [] then
       (invalidBody [WithDetail [Txt ''registryUri and clientIdentifier are required'']], w)
     else if \<not> isAbsoluteHTTPSURL_api (ri_RegistryURI req) then
       (invalidBody [WithDetail [Txt ''registryUri must be an absolute https URL'']], w)
     else
     (case on_store (SetClientRegistrarIdentity (e_Store e) (rq_id rq) (ri_RegistryURI req)
             (ri_ClientIdentifier req) ''api'') w of
        (Inl err, w) \<Rightarrow> (RespError err, w)
      | (Inr _, w) \<Rightarrow> (RespStatus statusNoContent, w)))"

end
