(* ===== verification/Registration.thy ===== *)
theory Registration
  imports Routes
begin

text \<open>
  \<^verbatim>\<open>routes/api_registration.go\<close> and \<^verbatim>\<open>routes/api_keys.go\<close>: the structured registration, from the wire
  body through the wizard to the store, and the minting of a key.
\<close>

section \<open>The wire body\<close>

definition defaultPrivacyPolicyTypeURI :: string where
  "defaultPrivacyPolicyTypeURI = ''http://data.europa.eu/eudi/policy/privacy-policy''"

record apiIdentifier =
  ai_Type :: string
  ai_Identifier :: string

record apiMultiLangText =
  at_Lang :: string
  at_Text :: string

record apiPrivacyPolicy =
  ap_URI :: string

record apiCredential =
  ac_Format :: string
  ac_DoctypesOrVCTs :: "string list"
  ac_AllClaims :: bool
  ac_Claims :: "string list list"

record apiIntendedUse =
  au_Purpose :: "apiMultiLangText list"
  au_PrivacyPolicy :: "apiPrivacyPolicy list"
  au_Credentials :: "apiCredential list"

record apiSupervisory =
  as_Name :: string
  as_Country :: string
  as_Email :: "string list"
  as_Phone :: "string list"
  as_FormURI :: "string list"

record apiRegistrationRequest =
  ar_LegalKind :: string
  ar_LegalName :: "string list"
  ar_GivenName :: string
  ar_FamilyName :: string
  ar_EUID :: string
  ar_OtherIDs :: "apiIdentifier list"
  ar_Country :: string
  ar_Email :: "string list"
  ar_InfoURI :: "string list"
  ar_SupportURI :: "string list"
  ar_TradeName :: string
  ar_IntendedUses :: "apiIntendedUse list"
  ar_SupervisoryAuthority :: apiSupervisory
  ar_IsPSB :: bool

definition dec_strings :: "string list decoder" where
  "dec_strings = dec_list [] dec_string"

definition dec_apiIdentifier :: "apiIdentifier decoder" where
  "dec_apiIdentifier = dec_members
     [member ''type'' dec_string ai_Type (\<lambda>v. ai_Type_update (\<lambda>_. v)),
      member ''identifier'' dec_string ai_Identifier (\<lambda>v. ai_Identifier_update (\<lambda>_. v))]"

definition dec_apiMultiLangText :: "apiMultiLangText decoder" where
  "dec_apiMultiLangText = dec_members
     [member ''lang'' dec_string at_Lang (\<lambda>v. at_Lang_update (\<lambda>_. v)),
      member ''text'' dec_string at_Text (\<lambda>v. at_Text_update (\<lambda>_. v))]"

definition dec_apiPrivacyPolicy :: "apiPrivacyPolicy decoder" where
  "dec_apiPrivacyPolicy = dec_members [member ''uri'' dec_string ap_URI (\<lambda>v. ap_URI_update (\<lambda>_. v))]"

definition dec_apiCredential :: "apiCredential decoder" where
  "dec_apiCredential = dec_members
     [member ''format'' dec_string ac_Format (\<lambda>v. ac_Format_update (\<lambda>_. v)),
      member ''doctypesOrVcts'' dec_strings ac_DoctypesOrVCTs (\<lambda>v. ac_DoctypesOrVCTs_update (\<lambda>_. v)),
      member ''allClaims'' dec_bool ac_AllClaims (\<lambda>v. ac_AllClaims_update (\<lambda>_. v)),
      member ''claims'' (dec_list [] dec_strings) ac_Claims (\<lambda>v. ac_Claims_update (\<lambda>_. v))]"

definition dec_apiIntendedUse :: "apiIntendedUse decoder" where
  "dec_apiIntendedUse = dec_members
     [member ''purpose'' (dec_list \<lparr>at_Lang = [], at_Text = []\<rparr> dec_apiMultiLangText) au_Purpose
        (\<lambda>v. au_Purpose_update (\<lambda>_. v)),
      member ''privacyPolicy'' (dec_list \<lparr>ap_URI = []\<rparr> dec_apiPrivacyPolicy) au_PrivacyPolicy
        (\<lambda>v. au_PrivacyPolicy_update (\<lambda>_. v)),
      member ''credentials''
        (dec_list \<lparr>ac_Format = [], ac_DoctypesOrVCTs = [], ac_AllClaims = False, ac_Claims = []\<rparr> dec_apiCredential)
        au_Credentials (\<lambda>v. au_Credentials_update (\<lambda>_. v))]"

definition dec_apiSupervisory :: "apiSupervisory decoder" where
  "dec_apiSupervisory = dec_members
     [member ''name'' dec_string as_Name (\<lambda>v. as_Name_update (\<lambda>_. v)),
      member ''country'' dec_string as_Country (\<lambda>v. as_Country_update (\<lambda>_. v)),
      member ''email'' dec_strings as_Email (\<lambda>v. as_Email_update (\<lambda>_. v)),
      member ''phone'' dec_strings as_Phone (\<lambda>v. as_Phone_update (\<lambda>_. v)),
      member ''formUri'' dec_strings as_FormURI (\<lambda>v. as_FormURI_update (\<lambda>_. v))]"

definition zero_apiRegistrationRequest :: apiRegistrationRequest where
  "zero_apiRegistrationRequest =
     \<lparr>ar_LegalKind = [], ar_LegalName = [], ar_GivenName = [], ar_FamilyName = [], ar_EUID = [],
      ar_OtherIDs = [], ar_Country = [], ar_Email = [], ar_InfoURI = [], ar_SupportURI = [],
      ar_TradeName = [], ar_IntendedUses = [],
      ar_SupervisoryAuthority = \<lparr>as_Name = [], as_Country = [], as_Email = [], as_Phone = [], as_FormURI = []\<rparr>,
      ar_IsPSB = False\<rparr>"

definition dec_apiRegistrationRequest :: "apiRegistrationRequest decoder" where
  "dec_apiRegistrationRequest = dec_members
     [member ''legalKind'' dec_string ar_LegalKind (\<lambda>v. ar_LegalKind_update (\<lambda>_. v)),
      member ''legalName'' dec_strings ar_LegalName (\<lambda>v. ar_LegalName_update (\<lambda>_. v)),
      member ''givenName'' dec_string ar_GivenName (\<lambda>v. ar_GivenName_update (\<lambda>_. v)),
      member ''familyName'' dec_string ar_FamilyName (\<lambda>v. ar_FamilyName_update (\<lambda>_. v)),
      member ''euid'' dec_string ar_EUID (\<lambda>v. ar_EUID_update (\<lambda>_. v)),
      member ''otherIds'' (dec_list \<lparr>ai_Type = [], ai_Identifier = []\<rparr> dec_apiIdentifier) ar_OtherIDs
        (\<lambda>v. ar_OtherIDs_update (\<lambda>_. v)),
      member ''country'' dec_string ar_Country (\<lambda>v. ar_Country_update (\<lambda>_. v)),
      member ''email'' dec_strings ar_Email (\<lambda>v. ar_Email_update (\<lambda>_. v)),
      member ''infoUri'' dec_strings ar_InfoURI (\<lambda>v. ar_InfoURI_update (\<lambda>_. v)),
      member ''supportUri'' dec_strings ar_SupportURI (\<lambda>v. ar_SupportURI_update (\<lambda>_. v)),
      member ''tradeName'' dec_string ar_TradeName (\<lambda>v. ar_TradeName_update (\<lambda>_. v)),
      member ''intendedUses''
        (dec_list \<lparr>au_Purpose = [], au_PrivacyPolicy = [], au_Credentials = []\<rparr> dec_apiIntendedUse)
        ar_IntendedUses (\<lambda>v. ar_IntendedUses_update (\<lambda>_. v)),
      member ''supervisoryAuthority'' dec_apiSupervisory ar_SupervisoryAuthority
        (\<lambda>v. ar_SupervisoryAuthority_update (\<lambda>_. v)),
      member ''isPsb'' dec_bool ar_IsPSB (\<lambda>v. ar_IsPSB_update (\<lambda>_. v))]"

section \<open>From the body to the form\<close>

definition toTS5MultiLang :: "apiMultiLangText list \<Rightarrow> MultiLangString list" where
  "toTS5MultiLang = map (\<lambda>m. \<lparr>ml_Lang = at_Lang m, ml_Content = at_Text m\<rparr>)"

definition toTS5Policies :: "apiPrivacyPolicy list \<Rightarrow> Policy list" where
  "toTS5Policies = map (\<lambda>p. \<lparr>po_Type = defaultPrivacyPolicyTypeURI, po_PolicyURI = ap_URI p\<rparr>)"

definition toWizardCredentials :: "apiCredential list \<Rightarrow> CredentialForm list" where
  "toWizardCredentials = map (\<lambda>c. \<lparr>cff_Format = ac_Format c, cff_DoctypesOrVCTs = ac_DoctypesOrVCTs c,
     cff_AllClaims = ac_AllClaims c, cff_Claims = ac_Claims c\<rparr>)"

definition toFormState :: "apiRegistrationRequest \<Rightarrow> FormState" where
  "toFormState req =
     \<lparr>fs_LegalKind = ar_LegalKind req, fs_LegalName = ar_LegalName req, fs_GivenName = ar_GivenName req,
      fs_FamilyName = ar_FamilyName req, fs_EUID = ar_EUID req,
      fs_OtherIDs = map (\<lambda>x. \<lparr>id_Type = ai_Type x, id_Identifier = ai_Identifier x\<rparr>) (ar_OtherIDs req),
      fs_Country = ar_Country req, fs_Email = ar_Email req, fs_Phone = [], fs_InfoURI = ar_InfoURI req,
      fs_SupportURI = ar_SupportURI req, fs_TradeName = ar_TradeName req, fs_SrvDescription = [],
      fs_IntendedUses = map (\<lambda>iu. \<lparr>iuf_Purpose = toTS5MultiLang (au_Purpose iu),
          iuf_PrivacyPolicy = toTS5Policies (au_PrivacyPolicy iu),
          iuf_Credentials = toWizardCredentials (au_Credentials iu)\<rparr>) (ar_IntendedUses req),
      fs_Supervisory = (let s = ar_SupervisoryAuthority req in
         \<lparr>sa_Name = as_Name s, sa_Country = as_Country s, sa_Email = as_Email s, sa_Phone = as_Phone s,
          sa_FormURI = as_FormURI s\<rparr>),
      fs_IsPSB = ar_IsPSB req\<rparr>"

section \<open>The handlers\<close>

text \<open>\<open>Build\<close> in the world: it reads the clock at most once and makes ULIDs.\<close>

definition build_in ::
  "'s env \<Rightarrow> FormState \<Rightarrow> 's world \<Rightarrow> (WalletRelyingParty \<times> IntendedUse list) result \<times> 's world" where
  "build_in e fs w =
     (case Build (e_marshalPurpose e) (e_ulid e) (e_clock e (w_ticks w)) fs (w_ulids w) of
        (r, n) \<Rightarrow> (r, w\<lparr>w_ulids := n, w_ticks := Suc (w_ticks w)\<rparr>))"

definition apiRegistrationResult :: "string \<Rightarrow> string \<Rightarrow> nat \<Rightarrow> json" where
  [simp]: "apiRegistrationResult i st uses =
     JObj [(''id'', JStr i), (''state'', JStr st), (''intendedUses'', JNum (int uses))]"

definition registration_stored :: "nat \<Rightarrow> 's handler" where
  "registration_stored uses e rq w =
     (case on_store (GetClientFull (e_Store e) (rq_id rq)) w of
        (Inl err, w) \<Rightarrow> (RespError err, w)
      | (Inr full, w) \<Rightarrow>
          (RespJSON statusOK (apiRegistrationResult (rq_id rq) (cf_Status full) uses), w))"

definition apiSetRegistration :: "'s handler" where
  "apiSetRegistration e rq w =
     (case unmarshal dec_apiRegistrationRequest zero_apiRegistrationRequest (rq_body rq) of
        None \<Rightarrow> (notJSON, w)
      | Some req \<Rightarrow>
     (case build_in e (toFormState req) w of
        (Inl err, w) \<Rightarrow> (RespError (NewProblem ''err:api:registrationInvalid'' [WithDetail [Wrapped err]]), w)
      | (Inr (doc, ius), w) \<Rightarrow>
     (case e_marshalWRP e doc of
        Inl err \<Rightarrow> (RespError err, w)
      | Inr docJSON \<Rightarrow>
     (case on_store (SaveWRPDocument (e_Store e) (rq_id rq) docJSON ius ''api'') w of
        (Inl err, w) \<Rightarrow> (RespError err, w)
      | (Inr _, w) \<Rightarrow> registration_stored (length ius) e rq w))))"

definition apiKeyCreated :: "string \<Rightarrow> string \<Rightarrow> string \<Rightarrow> json" where
  [simp]: "apiKeyCreated i prefix key = JObj [(''clientId'', JStr i), (''prefix'', JStr prefix), (''apiKey'', JStr key)]"

definition mint_in :: "'s env \<Rightarrow> 's world \<Rightarrow> (string \<times> string \<times> string) result \<times> 's world" where
  "mint_in e w = (case Mint (e_idKey e) (e_argonVersion e) (w_rand w) of (r, b) \<Rightarrow> (r, w\<lparr>w_rand := b\<rparr>))"

definition apiCreateKey :: "'s handler" where
  "apiCreateKey e rq w =
     (case on_store (GetClientFull (e_Store e) (rq_id rq)) w of
        (Inl err, w) \<Rightarrow> (RespError err, w)
      | (Inr full, w) \<Rightarrow>
     (case mint_in e w of
        (Inl err, w) \<Rightarrow> (RespError err, w)
      | (Inr (key, prefix, phc), w) \<Rightarrow>
     (case on_store (CreateAPIKey (e_Store e) (cf_ID full) prefix phc) w of
        (Inl err, w) \<Rightarrow> (RespError err, w)
      | (Inr _, w) \<Rightarrow>
          (RespJSON statusCreated (apiKeyCreated (cf_ID full) prefix key), w))))"

end
