(* ===== verification/Server.thy ===== *)
theory Server
  imports Registration
begin

text \<open>
  \<^verbatim>\<open>routes/router.go\<close>, \<^verbatim>\<open>routes/apiauth.go\<close> and \<^verbatim>\<open>routes/health.go\<close>: the route table, the key gate and
  the health endpoints, and the service as one function of a request to an endpoint.  How a URL is
  matched against a pattern of the table is the framework's business.
\<close>

datatype endpoint =
    Healthz | Readyz | ListClients | CreateClient | GetClient | SetRegistrarIdentity
  | SetRegistration | TransitionEndpoint | SetWebhook | SetAllowedOrigins | SetDCAPIRequestMode
  | CreateKey

definition routes :: "(string \<times> string \<times> endpoint) list" where
  "routes =
     [(''GET'', ''/healthz'', Healthz),
      (''GET'', ''/readyz'', Readyz),
      (''GET'', ''/api/clients'', ListClients),
      (''POST'', ''/api/clients'', CreateClient),
      (''GET'', ''/api/clients/{id}'', GetClient),
      (''PUT'', ''/api/clients/{id}/registrar-identity'', SetRegistrarIdentity),
      (''PUT'', ''/api/clients/{id}/registration'', SetRegistration),
      (''POST'', ''/api/clients/{id}/transition'', TransitionEndpoint),
      (''PUT'', ''/api/clients/{id}/webhook'', SetWebhook),
      (''PUT'', ''/api/clients/{id}/allowed-origins'', SetAllowedOrigins),
      (''PUT'', ''/api/clients/{id}/dcapi-request-mode'', SetDCAPIRequestMode),
      (''POST'', ''/api/clients/{id}/keys'', CreateKey)]"

definition healthz :: "'s handler" where
  "healthz e rq w = (RespJSON statusOK (marshal_map [(''status'', JStr ''ok'')]), w)"

definition readyz :: "'s handler" where
  "readyz e rq w =
     (if \<not> e_PingOK e then
        (RespJSON 503 (marshal_map [(''status'', JStr ''degraded''),
           (''components'', marshal_map [(''postgres'', JStr ''unreachable'')])]), w)
      else (RespJSON statusOK (marshal_map [(''status'', JStr ''ok'')]), w))"

definition requireAPIKey :: "'s handler \<Rightarrow> 's handler" where
  "requireAPIKey next_handler e rq w =
     (let want = e_AdminAPIKey e in
      if want = [] \<or> rq_key rq \<noteq> want then (RespError UnauthorizedError, w)
      else next_handler e rq w)"

fun handle :: "endpoint \<Rightarrow> 's handler" where
  "handle Healthz = healthz"
| "handle Readyz = readyz"
| "handle ListClients = apiListClients"
| "handle CreateClient = apiCreateClient"
| "handle GetClient = apiGetClient"
| "handle SetRegistrarIdentity = apiSetRegistrarIdentity"
| "handle SetRegistration = apiSetRegistration"
| "handle TransitionEndpoint = apiTransition"
| "handle SetWebhook = apiSetWebhook"
| "handle SetAllowedOrigins = apiSetAllowedOrigins"
| "handle SetDCAPIRequestMode = apiSetDCAPIRequestMode"
| "handle CreateKey = apiCreateKey"

text \<open>The group \<^verbatim>\<open>/api\<close> has the key gate on every route; the two health routes are outside of it.\<close>

definition serve :: "endpoint \<Rightarrow> 's handler" where
  "serve ep = (if ep \<in> {Healthz, Readyz} then handle ep else requireAPIKey (handle ep))"

end
