(* ===== verification/ServerFacts.thy ===== *)
theory ServerFacts
  imports Server
begin

text \<open>
  The service on the in-memory store.  Every request is a short run of store calls that the handlers'
  own checks allow; what holds of such runs holds of the service, and the invariants of the running
  service are proved by induction over them.
\<close>

section \<open>The calls the handlers make\<close>

text \<open>\<open>api_move f c\<close>: a handler may make the call \<open>c\<close> in state \<open>f\<close>.\<close>

inductive api_move :: "fake \<Rightarrow> store_call \<Rightarrow> bool" for f where
  create: "nm \<noteq> [] \<Longrightarrow> api_move f (CallCreateDraft nm em ''api'')"
| identity: "ci \<noteq> [] \<Longrightarrow> isAbsoluteHTTPSURL u \<Longrightarrow> api_move f (CallSetRegistrarIdentity i u ci ''api'')"
| webhook: "u \<noteq> [] \<Longrightarrow> api_move f (CallSetWebhook i u ''api'')"
| origins: "(\<forall>or \<in> set os. isWebOrigin or) \<Longrightarrow> api_move f (CallSetAllowedOrigins i os ''api'')"
| mode: "md \<in> {''signed'', ''unsigned''} \<Longrightarrow> api_move f (CallSetDCAPIMode i md ''api'')"
| key: "api_move f (CallCreateAPIKey i p h)"
| save: "ius \<noteq> [] \<Longrightarrow> (\<forall>iu \<in> set ius. iu_ID iu = [] \<and> iu_RevokedAt iu = []) \<Longrightarrow>
    api_move f (CallSaveWRPDocument i doc ius ''api'')"
| transition: "(st = ''active'' \<longrightarrow> (\<exists>c. fake_row f i = Some c \<and> usable_identity c \<and> anyNonRevoked (fake_uses f i))) \<Longrightarrow>
    api_move f (CallTransition i st ''api'' ev rs)"
| purge: "api_move f (CallPurgeOffboarded i ''api'')"

inductive api_run :: "fake \<Rightarrow> fake \<Rightarrow> bool" for f where
  refl: "api_run f f"
| step: "api_run f g \<Longrightarrow> api_move g c \<Longrightarrow> fst (exec_call c g) = None \<Longrightarrow> api_run f (snd (exec_call c g))"

inductive_cases api_move_cases: "api_move f c"

lemma api_run_one: "api_move f c \<Longrightarrow> fst (exec_call c f) = None \<Longrightarrow> api_run f (snd (exec_call c f))"
  by (rule api_run.step [OF api_run.refl])

lemma api_run_trans: "api_run g h \<Longrightarrow> api_run f g \<Longrightarrow> api_run f h"
  by (induction rule: api_run.induct) (auto intro: api_run.step)

lemma api_move_plain: "api_move f c \<Longrightarrow> plain_call c \<and> call_actor c \<in> {''api'', []}"
  by (induction rule: api_move.induct) (simp_all add: plain_call_def)

text \<open>A store call in a handler: it fails and leaves the world, or it is one step.\<close>

lemma on_store_call:
  assumes "on_store op w = (r, w')" "exec_call c (w_state w) = outcome (op (w_state w))"
  shows "w' = w\<lparr>w_state := snd (exec_call c (w_state w))\<rparr>"
    "r = Inl e \<Longrightarrow> w' = w"
    "r = Inr v \<Longrightarrow> fst (exec_call c (w_state w)) = None"
proof -
  from assms show w': "w' = w\<lparr>w_state := snd (exec_call c (w_state w))\<rparr>"
    by (auto simp: on_store_def split: prod.splits)
  from assms have r: "r = fst (op (w_state w))" by (auto simp: on_store_def split: prod.splits)
  show "r = Inr v \<Longrightarrow> fst (exec_call c (w_state w)) = None"
    using r assms(2) by (metis is_ok_simps(1) outcome_simps(2))
  show "r = Inl e \<Longrightarrow> w' = w"
    using r assms(2) exec_call_error_frame [of c "w_state w" e] w' by (simp add: outcome_def)
qed

lemma on_store_get:
  "on_store (Fake_GetClientFull i) w =
     ((case fake_row (w_state w) i of None \<Rightarrow> fail ''registry:not_found'' | Some c \<Rightarrow> Inr c), w)"
  by (simp add: on_store_def fake_get)

section \<open>Handlers as runs\<close>

text \<open>\<open>runs w r w'\<close>: the handler went from \<open>w\<close> to \<open>w'\<close> by allowed calls; with an error it made none.\<close>

definition runs :: "fake world \<Rightarrow> response \<Rightarrow> fake world \<Rightarrow> bool" where
  "runs w r w' \<longleftrightarrow> api_run (w_state w) (w_state w') \<and> ((\<exists>e. r = RespError e) \<longrightarrow> w_state w' = w_state w)"

lemma runs_refl [simp]: "runs w r w"
  by (simp add: runs_def api_run.refl)

lemma row_after_setter:
  "fst (exec_call c f) = None \<Longrightarrow>
   c \<in> {CallSetWebhook i u a, CallSetAllowedOrigins i os a, CallSetDCAPIMode i md a, CallSaveWRPDocument i doc ius a} \<Longrightarrow>
   fake_row (snd (exec_call c f)) i \<noteq> None"
  by (auto simp: op_defs Let_def fake_row_def split: option.splits if_splits sum.splits)

lemma runs_set_and_echo:
  assumes "e_Store e = FakeStore" "set_and_echo op echo e rq w = (r, w')"
    "exec_call c (w_state w) = outcome (op (w_state w))" "api_move (w_state w) c"
    "\<And>f. fst (exec_call c f) = None \<Longrightarrow> fake_row (snd (exec_call c f)) (rq_id rq) \<noteq> None"
  shows "runs w r w'"
proof -
  obtain q w1 where q: "on_store op w = (q, w1)" by fastforce
  note call = on_store_call [OF q assms(3)]
  show ?thesis
  proof (cases q)
    case (Inl err)
    with call(2) assms(2) q show ?thesis by (auto simp: set_and_echo_def)
  next
    case (Inr v)
    from call(3) [OF this] have ok: "fst (exec_call c (w_state w)) = None" .
    with assms(5) obtain full where "fake_row (w_state w1) (rq_id rq) = Some full"
      using call(1) by fastforce
    with Inr q assms(1,2) have "w' = w1 \<and> (\<exists>n j. r = RespJSON n j)"
      by (auto simp: set_and_echo_def on_store_get)
    with api_run_one [OF assms(4) ok] call(1) show ?thesis by (auto simp: runs_def)
  qed
qed

lemma runs_apiSetWebhook:
  assumes "e_Store e = FakeStore" "apiSetWebhook e rq w = (r, w')" shows "runs w r w'"
proof (cases "unmarshal dec_apiWebhookRequest [] (rq_body rq)")
  case (Some u)
  show ?thesis
  proof (cases "u = []")
    case False
    with assms Some have "set_and_echo (Fake_SetClientWebhook (rq_id rq) u ''api'')
        (apiClientWebhookState (rq_id rq)) e rq w = (r, w')"
      by (simp add: apiSetWebhook_def)
    from runs_set_and_echo [OF assms(1) this, of "CallSetWebhook (rq_id rq) u ''api''"] False
    show ?thesis using row_after_setter [of "CallSetWebhook (rq_id rq) u ''api''"]
      by (auto intro: api_move.webhook simp del: exec_call.simps simp: exec_call.simps(4) [abs_def])
  qed (use assms Some in \<open>auto simp: apiSetWebhook_def invalidBody_def\<close>)
qed (use assms in \<open>auto simp: apiSetWebhook_def notJSON_def\<close>)

lemma runs_apiSetAllowedOrigins:
  assumes "e_Store e = FakeStore" "apiSetAllowedOrigins e rq w = (r, w')" shows "runs w r w'"
proof (cases "unmarshal dec_apiAllowedOriginsRequest None (rq_body rq)")
  case None
  with assms show ?thesis by (auto simp: apiSetAllowedOrigins_def notJSON_def)
next
  case (Some body)
  show ?thesis
  proof (cases body)
    case None
    with Some assms show ?thesis by (auto simp: apiSetAllowedOrigins_def invalidBody_def)
  next
    case os: (Some os)
    show ?thesis
    proof (cases "find (\<lambda>u. \<not> isWebOrigin u) os")
      case None
      then have "\<forall>u \<in> set os. isWebOrigin u" by (auto simp: find_None_iff)
      then have move: "api_move f (CallSetAllowedOrigins (rq_id rq) os ''api'')" for f by (rule api_move.origins)
      from assms Some os None have "set_and_echo (Fake_SetClientAllowedOrigins (rq_id rq) os ''api'')
          (apiClientOriginsState (rq_id rq)) e rq w = (r, w')"
        by (simp add: apiSetAllowedOrigins_def)
      from runs_set_and_echo [OF assms(1) this, of "CallSetAllowedOrigins (rq_id rq) os ''api''"] move
      show ?thesis using row_after_setter [of "CallSetAllowedOrigins (rq_id rq) os ''api''"]
        by (auto simp del: exec_call.simps simp: exec_call.simps(5) [abs_def])
    qed (use Some os assms in \<open>auto simp: apiSetAllowedOrigins_def invalidBody_def\<close>)
  qed
qed

lemma runs_apiSetDCAPIRequestMode:
  assumes "e_Store e = FakeStore" "apiSetDCAPIRequestMode e rq w = (r, w')" shows "runs w r w'"
proof (cases "unmarshal dec_apiDCAPIModeRequest None (rq_body rq)")
  case None
  with assms show ?thesis by (auto simp: apiSetDCAPIRequestMode_def notJSON_def)
next
  case (Some body)
  show ?thesis
  proof (cases body)
    case None
    with Some assms show ?thesis by (auto simp: apiSetDCAPIRequestMode_def invalidBody_def)
  next
    case md: (Some md)
    show ?thesis
    proof (cases "md \<in> {''signed'', ''unsigned''}")
      case True
      with assms Some md have "set_and_echo (Fake_SetClientDCAPIMode (rq_id rq) md ''api'')
          (apiClientDCAPIModeState (rq_id rq)) e rq w = (r, w')"
        by (auto simp: apiSetDCAPIRequestMode_def)
      from runs_set_and_echo [OF assms(1) this, of "CallSetDCAPIMode (rq_id rq) md ''api''"] api_move.mode [OF True]
      show ?thesis using row_after_setter [of "CallSetDCAPIMode (rq_id rq) md ''api''"]
        by (auto simp del: exec_call.simps simp: exec_call.simps(6) [abs_def])
    qed (use Some md assms in \<open>auto simp: apiSetDCAPIRequestMode_def invalidBody_def\<close>)
  qed
qed

lemma https_checks_agree: "isAbsoluteHTTPSURL_api u = isAbsoluteHTTPSURL u"
  by (simp add: isAbsoluteHTTPSURL_api_def isAbsoluteHTTPSURL_def)

lemma runs_apiSetRegistrarIdentity:
  assumes "e_Store e = FakeStore" "apiSetRegistrarIdentity e rq w = (r, w')" shows "runs w r w'"
proof (cases "unmarshal dec_apiRegistrarIdentityRequest \<lparr>ri_RegistryURI = [], ri_ClientIdentifier = []\<rparr> (rq_body rq)")
  case (Some req)
  let ?u = "ri_RegistryURI req" and ?ci = "ri_ClientIdentifier req"
  show ?thesis
  proof (cases "?u = [] \<or> ?ci = [] \<or> \<not> isAbsoluteHTTPSURL_api ?u")
    case False
    then have move: "api_move f (CallSetRegistrarIdentity (rq_id rq) ?u ?ci ''api'')" for f
      by (intro api_move.identity) (simp_all add: https_checks_agree)
    obtain q w1 where q: "on_store (Fake_SetClientRegistrarIdentity (rq_id rq) ?u ?ci ''api'') w = (q, w1)" by fastforce
    note call = on_store_call [OF q, of "CallSetRegistrarIdentity (rq_id rq) ?u ?ci ''api''", OF exec_call.simps(3)]
    show ?thesis
    proof (cases q)
      case (Inl err)
      with False Some q assms call(2) show ?thesis by (auto simp: apiSetRegistrarIdentity_def)
    next
      case (Inr v)
      with False Some q assms have "w' = w1 \<and> (\<exists>n. r = RespStatus n)" by (auto simp: apiSetRegistrarIdentity_def)
      with api_run_one [OF move call(3) [OF Inr]] call(1) show ?thesis by (auto simp: runs_def)
    qed
  qed (use Some assms in \<open>auto simp: apiSetRegistrarIdentity_def invalidBody_def split: if_splits\<close>)
qed (use assms in \<open>auto simp: apiSetRegistrarIdentity_def notJSON_def\<close>)

lemma runs_apiCreateClient:
  assumes "e_Store e = FakeStore" "apiCreateClient e rq w = (r, w')" shows "runs w r w'"
proof (cases "unmarshal dec_apiCreateRequest \<lparr>cq_Name = [], cq_ContactEmail = []\<rparr> (rq_body rq)")
  case (Some req)
  show ?thesis
  proof (cases "cq_Name req = []")
    case False
    let ?c = "CallCreateDraft (cq_Name req) (cq_ContactEmail req) ''api''"
    obtain q w1 where q: "on_store (Fake_CreateDraftClient (cq_Name req) (cq_ContactEmail req) ''api'') w = (q, w1)"
      by fastforce
    note call = on_store_call [OF q, of ?c, OF exec_call.simps(2)]
    have "q = Inr (fakeID (Suc (seq (w_state w)))) \<and> fake_row (w_state w1) (fakeID (Suc (seq (w_state w)))) \<noteq> None"
      using q by (auto simp: on_store_def Fake_CreateDraftClient_def nextID_eq Let_def)
    then obtain i full where i: "q = Inr i" "fake_row (w_state w1) i = Some full" by blast
    with False Some q assms have "w' = w1 \<and> (\<exists>n j. r = RespJSON n j)"
      by (auto simp: apiCreateClient_def on_store_get)
    with api_run_one [OF api_move.create [OF False] call(3) [OF i(1)]] call(1) show ?thesis
      by (auto simp: runs_def)
  qed (use Some assms in \<open>auto simp: apiCreateClient_def invalidBody_def\<close>)
qed (use assms in \<open>auto simp: apiCreateClient_def notJSON_def\<close>)

lemma runs_apiListClients:
  "e_Store e = FakeStore \<Longrightarrow> apiListClients e rq w = (r, w') \<Longrightarrow> runs w r w'"
  by (auto simp: apiListClients_def on_store_def Fake_ListClientsByState_def Let_def)

lemma runs_apiGetClient:
  "e_Store e = FakeStore \<Longrightarrow> apiGetClient e rq w = (r, w') \<Longrightarrow> runs w r w'"
  by (auto simp: apiGetClient_def on_store_get split: option.splits)

lemma Build_projections:
  "Build mp mk now f n = (Inr (doc, ius), n') \<Longrightarrow>
     ius \<noteq> [] \<and> (\<forall>iu \<in> set ius. iu_ID iu = [] \<and> iu_RevokedAt iu = [])"
  using Build_uses [of mp mk now f n doc ius n'] by (auto simp: agrees_def in_set_conv_nth)

lemma runs_apiSetRegistration:
  assumes "e_Store e = FakeStore" "apiSetRegistration e rq w = (r, w')" shows "runs w r w'"
proof (cases "unmarshal dec_apiRegistrationRequest zero_apiRegistrationRequest (rq_body rq)")
  case (Some req)
  obtain b w1 where b: "build_in e (toFormState req) w = (b, w1)" by fastforce
  then have w1: "w_state w1 = w_state w" by (auto simp: build_in_def split: prod.splits)
  show ?thesis
  proof (cases b)
    case (Inl err)
    with Some b assms w1 show ?thesis by (auto simp: apiSetRegistration_def runs_def api_run.refl)
  next
    case (Inr p)
    obtain doc ius where p: "p = (doc, ius)" by (cases p)
    show ?thesis
    proof (cases "e_marshalWRP e doc")
      case (Inl err)
      with Some b Inr p assms w1 show ?thesis by (auto simp: apiSetRegistration_def runs_def api_run.refl)
    next
      case js: (Inr js)
      let ?c = "CallSaveWRPDocument (rq_id rq) js ius ''api''"
      obtain q w2 where q: "on_store (Fake_SaveWRPDocument (rq_id rq) js ius ''api'') w1 = (q, w2)" by fastforce
      note call = on_store_call [OF q, of ?c, OF exec_call.simps(8)]
      show ?thesis
      proof (cases q)
        case (Inl err)
        with Some b Inr p js q assms call(2) w1 show ?thesis
          by (auto simp: apiSetRegistration_def runs_def api_run.refl)
      next
        case ok: (Inr v)
        obtain n' where "Build (e_marshalPurpose e) (e_ulid e) (e_clock e (w_ticks w)) (toFormState req) (w_ulids w)
            = (Inr (doc, ius), n')"
          using b Inr p by (auto simp: build_in_def split: prod.splits)
        from Build_projections [OF this] have move: "api_move (w_state w1) ?c" by (auto intro: api_move.save)
        have "fake_row (snd (exec_call ?c (w_state w1))) (rq_id rq) \<noteq> None"
          by (rule row_after_setter [OF call(3) [OF ok]]) blast
        then have "fake_row (w_state w2) (rq_id rq) \<noteq> None" using call(1) by simp
        then obtain full where "fake_row (w_state w2) (rq_id rq) = Some full" by blast
        with Some b Inr p js q ok assms have "w' = w2 \<and> (\<exists>n j. r = RespJSON n j)"
          by (auto simp: apiSetRegistration_def registration_stored_def on_store_get)
        with api_run_one [OF move call(3) [OF ok]] call(1) w1 show ?thesis by (auto simp: runs_def)
      qed
    qed
  qed
qed (use assms in \<open>auto simp: apiSetRegistration_def notJSON_def\<close>)

lemma runs_apiCreateKey:
  assumes "e_Store e = FakeStore" "apiCreateKey e rq w = (r, w')" shows "runs w r w'"
proof (cases "fake_row (w_state w) (rq_id rq)")
  case (Some full)
  obtain m w1 where m: "mint_in e w = (m, w1)" by fastforce
  then have w1: "w_state w1 = w_state w" by (auto simp: mint_in_def split: prod.splits)
  show ?thesis
  proof (cases m)
    case (Inl err)
    with Some m assms w1 show ?thesis by (auto simp: apiCreateKey_def on_store_get runs_def api_run.refl)
  next
    case (Inr p)
    obtain key pre phc where p: "p = (key, pre, phc)" by (cases p)
    let ?c = "CallCreateAPIKey (cf_ID full) pre phc"
    obtain q w2 where q: "on_store (Fake_CreateAPIKey (cf_ID full) pre phc) w1 = (q, w2)" by fastforce
    note call = on_store_call [OF q, of ?c, OF exec_call.simps(7)]
    show ?thesis
    proof (cases q)
      case (Inl err)
      with Some m Inr p q assms call(2) w1 show ?thesis
        by (auto simp: apiCreateKey_def on_store_get runs_def api_run.refl)
    next
      case ok: (Inr v)
      with Some m Inr p q assms have "w' = w2 \<and> (\<exists>n j. r = RespJSON n j)"
        by (auto simp: apiCreateKey_def on_store_get)
      with api_run_one [OF api_move.key call(3) [OF ok]] call(1) w1 show ?thesis by (auto simp: runs_def)
    qed
  qed
qed (use assms in \<open>auto simp: apiCreateKey_def on_store_get fail_def\<close>)

text \<open>A successful transition of the service is a transition of the store, a purge, or the one after
  the other; to active it is made only when the gate holds.\<close>

lemma flip_run:
  assumes "sv_Store sv = FakeStore" "flip_and_purge sv i st ''api'' ev rs f = (Inr (), g)"
    "api_move f (CallTransition i st ''api'' ev rs)"
  shows "api_run f g"
proof -
  let ?t = "CallTransition i st ''api'' ev rs" and ?p = "CallPurgeOffboarded i ''api''"
  obtain q f1 where t: "Fake_TransitionClient i st ''api'' ev rs f = (q, f1)" by fastforce
  with assms have q: "q = Inr ()" by (cases q) (auto simp: flip_and_purge_def)
  with t have ok: "fst (exec_call ?t f) = None" and f1: "snd (exec_call ?t f) = f1" by simp_all
  from api_run_one [OF assms(3) ok] f1 have run: "api_run f f1" by simp
  show ?thesis
  proof (cases "st = stateOffboarded")
    case True
    with assms t q have "Fake_PurgeOffboarded i ''api'' f1 = (Inr (), g)" by (simp add: flip_and_purge_def)
    then have "fst (exec_call ?p f1) = None" "snd (exec_call ?p f1) = g" by simp_all
    with api_run.step [OF run api_move.purge] show ?thesis by metis
  next
    case False
    with assms t q run show ?thesis by (simp add: flip_and_purge_def)
  qed
qed

lemma Transition_run:
  assumes "fake_inv f" "Transition (NewService FakeStore) i st ''api'' ev rs f = (r, g)"
  shows "api_run f g \<and> ((\<exists>e. r = Inl e) \<longrightarrow> g = f)"
proof (cases r)
  case (Inl e)
  have sv: "sv_Store (NewService FakeStore) = FakeStore" by (simp add: NewService_def)
  from Transition_error_frame [OF sv assms(2) [unfolded Inl]] show ?thesis using Inl by (simp add: api_run.refl)
next
  case (Inr u)
  let ?sv = "NewService FakeStore"
  have sv: "sv_Store ?sv = FakeStore" by (simp add: NewService_def)
  have t: "Transition ?sv i st ''api'' ev rs f = (Inr (), g)" using assms(2) Inr by simp
  have gate: "st = ''active'' \<longrightarrow> (\<exists>c. fake_row f i = Some c \<and> usable_identity c \<and> anyNonRevoked (fake_uses f i))"
  proof
    assume st: "st = ''active''"
    from fk.Transition_effect [OF sv assms(1) t] obtain c where
      c: "fake_row f i = Some c" "(cf_Status c, ''active'') \<in> set legalTransitions"
        "cf_Status c \<in> {''registered'', ''suspended''} \<longrightarrow> gate ?sv (fake_uses f i) c"
      using st by (auto simp: fk.success_def fk.moved_def state_defs)
    then have "cf_Status c \<in> {''registered'', ''suspended''}" by (auto simp: legalTransitions_def)
    with c show "\<exists>c. fake_row f i = Some c \<and> usable_identity c \<and> anyNonRevoked (fake_uses f i)"
      by (auto simp: gate_def)
  qed
  note move = api_move.transition [OF gate, of ev rs]
  have "api_run f g"
  proof (cases "st = stateActive \<or> st = stateOffboarded")
    case False
    with t have "flip_and_purge ?sv i st ''api'' ev rs f = (Inr (), g)" by (simp add: Transition_def)
    from flip_run [OF sv this move] show ?thesis .
  next
    case True
    then obtain c where c: "transition_from ?sv i st ''api'' ev rs c f = (Inr (), g)"
      using t sv by (auto simp: Transition_def fake_get fail_def split: option.splits)
    show ?thesis
    proof (cases "st = stateOffboarded \<and> cf_Status c = stateOffboarded")
      case True
      then have "Fake_PurgeOffboarded i ''api'' f = (Inr (), g)"
        using c sv by (simp add: transition_from_def state_defs)
      then have "fst (exec_call (CallPurgeOffboarded i ''api'') f) = None"
        "snd (exec_call (CallPurgeOffboarded i ''api'') f) = g" by simp_all
      with api_run_one [OF api_move.purge] show ?thesis by metis
    next
      case False
      obtain q h where k: "(if st = stateActive \<and> (cf_Status c = stateRegistered \<or> cf_Status c = stateSuspended)
          then checkActivationPreconditions ?sv c f else (Inr (), f)) = (q, h)" by fastforce
      then have "h = f" using check_state [OF sv, of c f] by (auto split: if_splits)
      with c False k have "flip_and_purge ?sv i st ''api'' ev rs f = (Inr (), g)"
        unfolding transition_from_def by (auto split: sum.splits)
      from flip_run [OF sv this move] show ?thesis .
    qed
  qed
  with Inr show ?thesis by simp
qed

lemma runs_apiTransition:
  assumes "e_Store e = FakeStore" "fake_inv (w_state w)" "apiTransition e rq w = (r, w')" shows "runs w r w'"
proof (cases "unmarshal dec_apiTransitionRequest \<lparr>tq_TargetState = [], tq_Reason = [], tq_EvidenceRef = []\<rparr> (rq_body rq)")
  case (Some req)
  show ?thesis
  proof (cases "tq_TargetState req = []")
    case False
    obtain q g where q: "Transition (NewService FakeStore) (rq_id rq) (tq_TargetState req) ''api''
        (tq_EvidenceRef req) (tq_Reason req) (w_state w) = (q, g)" by fastforce
    from Transition_run [OF assms(2) q] False Some q assms(1,3) show ?thesis
      by (cases q) (auto simp: apiTransition_def on_store_def runs_def)
  qed (use Some assms in \<open>auto simp: apiTransition_def invalidBody_def\<close>)
qed (use assms in \<open>auto simp: apiTransition_def notJSON_def\<close>)

section \<open>Requests as runs\<close>

lemma runs_handle:
  assumes "e_Store e = FakeStore" "fake_inv (w_state w)" "handle ep e rq w = (r, w')"
  shows "runs w r w'"
  using assms
  by (cases ep) (auto simp: healthz_def readyz_def runs_apiListClients runs_apiCreateClient runs_apiGetClient
      runs_apiSetRegistrarIdentity runs_apiSetRegistration runs_apiTransition runs_apiSetWebhook
      runs_apiSetAllowedOrigins runs_apiSetDCAPIRequestMode runs_apiCreateKey split: if_splits)

lemma runs_serve:
  assumes "e_Store e = FakeStore" "fake_inv (w_state w)" "serve ep e rq w = (r, w')"
  shows "runs w r w'"
  using assms runs_handle [OF assms(1,2)] by (auto simp: serve_def requireAPIKey_def Let_def split: if_splits)

end
