(* ===== verification/ServerInv.thy ===== *)
theory ServerInv
  imports ServerFacts
begin

text \<open>
  The invariants of the running service on the in-memory store, from an empty store and after any
  sequence of requests, authorised or not.
\<close>

section \<open>Sequences of requests\<close>

fun serve_all :: "(endpoint \<times> request) list \<Rightarrow> 's env \<Rightarrow> 's world \<Rightarrow> 's world" where
  "serve_all [] e w = w"
| "serve_all ((ep, rq) # reqs) e w = serve_all reqs e (snd (serve ep e rq w))"

definition new_world :: "(nat \<Rightarrow> time) \<Rightarrow> string \<Rightarrow> fake world" where
  "new_world clk b = \<lparr>w_state = NewFake clk, w_rand = b, w_ulids = 0, w_ticks = 0\<rparr>"

lemma serve_all_run:
  "e_Store e = FakeStore \<Longrightarrow> fake_inv (w_state w) \<Longrightarrow> api_run (w_state w) (w_state (serve_all reqs e w))"
proof (induction reqs e w rule: serve_all.induct)
  case (2 ep rq reqs e w)
  obtain r w' where s: "serve ep e rq w = (r, w')" by fastforce
  then have run: "api_run (w_state w) (w_state w')" using runs_serve [OF 2(2,3)] by (simp add: runs_def)
  have "fake_inv (w_state w')"
    using run 2(3) by (induction rule: api_run.induct) (auto intro: exec_call_inv)
  with 2(1) [OF 2(2)] s have "api_run (w_state w') (w_state (serve_all reqs e w'))" by simp
  from api_run_trans [OF this run] s show ?case by simp
qed (simp add: api_run.refl)

section \<open>The invariant\<close>

definition onboarded_ok :: "fake \<Rightarrow> bool" where
  "onboarded_ok f \<longleftrightarrow> (\<forall>i c. fake_row f i = Some c \<longrightarrow>
     cf_Status c \<in> {''active'', ''suspended'', ''offboarded''} \<longrightarrow>
     usable_identity c \<and> anyNonRevoked (fake_uses f i))"

definition serving_ok :: "fake \<Rightarrow> bool" where
  "serving_ok f \<longleftrightarrow> fake_inv f \<and> history_ok f \<and> all_urls_ok f \<and> onboarded_ok f \<and>
     (\<forall>en \<in> set (auditLog f). ae_Actor en = ''api'')"

lemma onboarded_put:
  assumes "onboarded_ok f" "fake_row g = (fake_row f)(i \<mapsto> c)"
    "\<And>j. j \<noteq> i \<Longrightarrow> fake_uses g j = fake_uses f j"
    "cf_Status c \<in> {''active'', ''suspended'', ''offboarded''} \<Longrightarrow> usable_identity c \<and> anyNonRevoked (fake_uses g i)"
  shows "onboarded_ok g"
  using assms by (auto simp: onboarded_ok_def)

lemma onboarded_same_row:
  assumes "onboarded_ok f" "fake_row f i = Some c0" "fake_row g = (fake_row f)(i \<mapsto> c)" "fake_uses g = fake_uses f"
    "cf_Status c = cf_Status c0" "cf_RegistryURI c = cf_RegistryURI c0" "cf_ClientIdentifier c = cf_ClientIdentifier c0"
  shows "onboarded_ok g"
  by (rule onboarded_put [OF assms(1,3)]) (use assms in \<open>auto simp: onboarded_ok_def usable_identity_def\<close>)

lemma fake_uses_saved:
  assumes "fake_inv f" "fst (exec_call (CallSaveWRPDocument i doc ius a) f) = None" "ius \<noteq> []"
    "\<forall>iu \<in> set ius. iu_RevokedAt iu = []"
  shows "anyNonRevoked (fake_uses (snd (exec_call (CallSaveWRPDocument i doc ius a) f)) i)"
proof -
  let ?c = "CallSaveWRPDocument i doc ius a" and ?g = "snd (exec_call (CallSaveWRPDocument i doc ius a) f)"
  have sub: "submits ?c i ius" by (simp add: submits_def)
  have "map iu_IntendedUseID (listed_uses i ?g) = replaced_order i ius f"
    using listed_ids [OF exec_call_inv [OF assms(1)], of i ?c] submits_effect(2) [OF sub assms(2)]
    by (simp del: exec_call.simps)
  moreover have "replaced_order i ius f \<noteq> []"
    using assms(3) append_unseen_set by (metis replaced_order_def Un_empty list.map_disc_iff set_empty)
  ultimately obtain r where r: "r \<in> set (listed_uses i ?g)" by (cases "listed_uses i ?g") auto
  obtain iu where "iu \<in> set ius" "resubmits (gomap_list (intendedUses f) i) iu r"
    using submitted_rows [OF assms(1) sub assms(2) r] .
  then have "r = iu\<lparr>iu_ID := iu_ID r\<rparr>" "iu_RevokedAt iu = []" using assms(4) by (auto simp: resubmits_def)
  then have "iu_RevokedAt r = []" by (metis IntendedUse.select_convs(5) IntendedUse.surjective IntendedUse.update_convs(1))
  with r show ?thesis by (auto simp: anyNonRevoked_def fake_uses_def list_ex_iff)
qed

lemma move_onboarded:
  assumes "serving_ok f" "api_move f c" "fst (exec_call c f) = None"
  shows "onboarded_ok (snd (exec_call c f))"
proof -
  have inv: "fake_inv f" and on: "onboarded_ok f" using assms(1) by (auto simp: serving_ok_def)
  show ?thesis
    using assms(2)
  proof (cases rule: api_move.cases)
    case (create nm em)
    with on show ?thesis
      by (auto simp: Fake_CreateDraftClient_def nextID_eq Let_def onboarded_ok_def fake_row_def fake_uses_def listed_uses_def)
  next
    case (identity ci u i)
    with assms(3) obtain c0 where c0: "fake_row f i = Some c0"
      by (auto simp: Fake_SetClientRegistrarIdentity_def fake_row_def split: option.splits)
    with identity on show ?thesis
      by (intro onboarded_put [OF on, where i = i and c = "c0\<lparr>cf_RegistryURI := u, cf_ClientIdentifier := ci\<rparr>"])
         (auto simp: Fake_SetClientRegistrarIdentity_def fake_row_def [of f] Let_def usable_identity_def onboarded_ok_def)
  next
    case (webhook u i)
    with assms(3) obtain c0 where c0: "fake_row f i = Some c0"
      by (auto simp: Fake_SetClientWebhook_def fake_row_def split: option.splits if_splits)
    with webhook assms(3) show ?thesis
      by (intro onboarded_same_row [OF on c0, where c = "c0\<lparr>cf_DefaultWebhook := u\<rparr>"])
         (auto simp: Fake_SetClientWebhook_def fake_row_def [of f] Let_def split: if_splits)
  next
    case (origins os i)
    with assms(3) obtain c0 where c0: "fake_row f i = Some c0"
      by (auto simp: Fake_SetClientAllowedOrigins_def fake_row_def split: option.splits if_splits)
    with origins assms(3) show ?thesis
      by (intro onboarded_same_row [OF on c0, where c = "c0\<lparr>cf_AllowedOrigins := os\<rparr>"])
         (auto simp: Fake_SetClientAllowedOrigins_def fake_row_def [of f] Let_def split: if_splits)
  next
    case (mode md i)
    with assms(3) obtain c0 p where c0: "fake_row f i = Some c0" "merge_policy (cf_Policy c0) md = Inr p"
      by (auto simp: Fake_SetClientDCAPIMode_def fake_row_def split: option.splits if_splits sum.splits)
    with mode assms(3) show ?thesis
      by (intro onboarded_same_row [OF on c0(1), where c = "c0\<lparr>cf_Policy := p\<rparr>"])
         (auto simp: Fake_SetClientDCAPIMode_def fake_row_def [of f] Let_def split: if_splits)
  next
    case (key i p h)
    then show ?thesis
      using on by (auto simp: Fake_CreateAPIKey_def onboarded_ok_def fake_row_def fake_uses_def listed_uses_def split: option.split)
  next
    case (save ius i doc)
    let ?g = "snd (exec_call c f)"
    from save assms(3) obtain c0 where c0: "fake_row f i = Some c0"
      by (auto simp: Fake_SaveWRPDocument_def fake_row_def split: option.splits if_splits)
    have uses: "anyNonRevoked (fake_uses ?g i)"
      using fake_uses_saved [OF inv, of i doc ius "''api''"] save assms(3) by simp
    have "submits c i ius" using save by (simp add: submits_def)
    note eff = submits_effect [OF this assms(3)]
    show ?thesis
    proof (rule onboarded_put [OF on, where i = i and c = "c0\<lparr>cf_WRPDocument := doc\<rparr>"])
      show "fake_row ?g = (fake_row f)(i \<mapsto> c0\<lparr>cf_WRPDocument := doc\<rparr>)"
        using save c0 assms(3) by (auto simp: Fake_SaveWRPDocument_def fake_row_def [of f] Let_def split: if_splits)
      show "fake_uses ?g j = fake_uses f j" if "j \<noteq> i" for j
        using eff(1,2) that by (simp add: fake_uses_def listed_uses_def)
    qed (use uses on c0 in \<open>auto simp: onboarded_ok_def usable_identity_def\<close>)
  next
    case (transition st i ev rs)
    with assms(3) obtain c0 where c0: "fake_row f i = Some c0" "(cf_Status c0, st) \<in> set legalTransitions"
      by (auto simp: fake_transition split: option.splits if_splits)
    have uses: "fake_uses (snd (exec_call c f)) = fake_uses f"
      and row: "fake_row (snd (exec_call c f)) = (fake_row f)(i \<mapsto> c0\<lparr>cf_Status := st\<rparr>)"
      using transition c0 by (simp_all add: fake_transition)
    have "st \<in> {''suspended'', ''offboarded''} \<Longrightarrow> cf_Status c0 \<in> {''active'', ''suspended''}"
      using c0(2) by (auto simp: legalTransitions_def)
    then have "st \<in> {''active'', ''suspended'', ''offboarded''} \<Longrightarrow> usable_identity c0 \<and> anyNonRevoked (fake_uses f i)"
      using transition(2) c0(1) on unfolding onboarded_ok_def by auto
    then show ?thesis
      by (intro onboarded_put [OF on row]) (auto simp: uses usable_identity_def)
  next
    case (purge i)
    with on show ?thesis
      by (auto simp: fake_purge onboarded_ok_def split: option.split)
  qed
qed

lemma move_actor:
  assumes "serving_ok f" "api_move f c" "fst (exec_call c f) = None"
  shows "\<forall>en \<in> set (auditLog (snd (exec_call c f))). ae_Actor en = ''api''"
proof (cases "call_action c")
  case None
  with exec_call_audits [OF assms(3)] assms(1) show ?thesis by (simp add: serving_ok_def)
next
  case (Some n)
  with exec_call_audits [OF assms(3)] obtain en where
    "auditLog (snd (exec_call c f)) = auditLog f @ [en]" "ae_Actor en = call_actor c" by (auto simp: audits_def)
  moreover have "call_actor c = ''api''"
    using assms(2) Some by (cases rule: api_move.cases) simp_all
  ultimately show ?thesis using assms(1) by (simp add: serving_ok_def)
qed

lemma serving_ok_move:
  assumes "serving_ok f" "api_move f c" "fst (exec_call c f) = None"
  shows "serving_ok (snd (exec_call c f))"
proof -
  have f: "fake_inv f" "history_ok f" "all_urls_ok f" using assms(1) by (simp_all add: serving_ok_def)
  have "history_ok (snd (exec_call c f))"
    using history_ok_step [OF f(2)] exec_call_step [OF f(1)] api_move_plain [OF assms(2)] by blast
  with f move_onboarded [OF assms] move_actor [OF assms] exec_call_inv exec_call_urls show ?thesis
    by (simp add: serving_ok_def del: exec_call.simps)
qed

lemma serving_ok_run: "api_run f g \<Longrightarrow> serving_ok f \<Longrightarrow> serving_ok g"
  by (induction rule: api_run.induct) (auto intro: serving_ok_move simp del: exec_call.simps)

lemma serving_ok_new: "serving_ok (NewFake clk)"
  using fake_inv_NewFake history_ok_NewFake
  by (simp add: serving_ok_def all_urls_ok_def onboarded_ok_def fake_row_def) (simp add: NewFake_def)

lemma serving_ok_serve_all:
  assumes "e_Store e = FakeStore"
  shows "serving_ok (w_state (serve_all reqs e (new_world clk b)))"
  using serve_all_run [OF assms, of "new_world clk b" reqs] serving_ok_run serving_ok_new fake_inv_NewFake
  by (simp add: new_world_def)

section \<open>Properties of the running service\<close>

definition demo_env :: "fake env" where
  "demo_env = \<lparr>e_Store = FakeStore, e_AdminAPIKey = ''secret'', e_marshalPurpose = demo_mp,
     e_marshalWRP = (\<lambda>_. Inr (RawJSON (JObj []))), e_ulid = nat_dec, e_clock = (\<lambda>n. 946684800 * 10 ^ 9),
     e_idKey = demo_idKey, e_argonVersion = 19, e_PingOK = True\<rparr>"

lemma demo_env_store: "e_Store demo_env = FakeStore"
  by (simp add: demo_env_def)

text \<open>
  C1 (who is in service is fit for service): after any sequence of requests to a new service, every
  client that is active, suspended or offboarded has a client identifier, an absolute https registry
  URL and an intended use that is not revoked.  The gate is passed once, at activation, and no later
  request can undo what it checked.
\<close>

theorem active_clients_are_fit:
  assumes "e_Store e = FakeStore"
    "map_of (clients (w_state (serve_all reqs e (new_world clk b)))) i = Some c"
    "cf_Status c \<in> {''active'', ''suspended'', ''offboarded''}"
  shows "cf_ClientIdentifier c \<noteq> [] \<and> isAbsoluteHTTPSURL (cf_RegistryURI c) \<and>
     (\<exists>iu \<in> set (listed_uses i (w_state (serve_all reqs e (new_world clk b)))). iu_RevokedAt iu = [])"
proof -
  have "usable_identity c \<and> anyNonRevoked (fake_uses (w_state (serve_all reqs e (new_world clk b))) i)"
    using serving_ok_serve_all [OF assms(1), of reqs clk b] assms(2,3)
    unfolding serving_ok_def onboarded_ok_def fake_row_def by blast
  then show ?thesis by (simp add: usable_identity_def anyNonRevoked_def fake_uses_def list_ex_iff)
qed

text \<open>
  The log of the running service: after any sequence of requests to a new service, every audit
  entry names the actor \<^verbatim>\<open>api\<close>, and the transition entries of each client form a legal path from
  draft to its present status.
\<close>

theorem service_log:
  assumes "e_Store e = FakeStore" "status_of (w_state (serve_all reqs e (new_world clk b))) i = Some t"
  shows "legal_path ''draft'' (history i (w_state (serve_all reqs e (new_world clk b)))) t \<and>
     (\<forall>en \<in> set (auditLog (w_state (serve_all reqs e (new_world clk b)))). ae_Actor en = ''api'')"
proof -
  have ok: "serving_ok (w_state (serve_all reqs e (new_world clk b)))" by (rule serving_ok_serve_all [OF assms(1)])
  then have "history_ok (w_state (serve_all reqs e (new_world clk b)))" by (simp add: serving_ok_def)
  from history_ok_path [OF this assms(2)] ok show ?thesis by (simp add: serving_ok_def)
qed


text \<open>
  The key gate: unless the request carries the configured key, and a key is configured, every
  endpoint but the two health endpoints answers with the same unauthorized error, whatever the
  reason, and leaves the whole world as it was.
\<close>

theorem unauthorized_is_uniform:
  assumes "ep \<notin> {Healthz, Readyz}" "e_AdminAPIKey e = [] \<or> rq_key rq \<noteq> e_AdminAPIKey e"
  shows "serve ep e rq w = (RespError UnauthorizedError, w)"
  using assms by (auto simp: serve_def requireAPIKey_def)

theorem unauthorized_is_uniform_witness:
  "serve CreateKey demo_env \<lparr>rq_id = ''x'', rq_state = None, rq_key = ''guess'', rq_body = RawNil\<rparr>
     (new_world (\<lambda>n. int n) []) = (RespError UnauthorizedError, new_world (\<lambda>n. int n) [])"
  by (rule unauthorized_is_uniform) (simp_all add: demo_env_def)


text \<open>A client taken from its creation to activation by seven requests.\<close>

definition demo_request :: "raw \<Rightarrow> request" where
  "demo_request body = \<lparr>rq_id = fakeID 1, rq_state = None, rq_key = ''secret'', rq_body = body\<rparr>"

definition body_of :: "(string \<times> json) list \<Rightarrow> raw" where "body_of kvs = RawJSON (JObj kvs)"

definition demo_requests :: "(endpoint \<times> request) list" where
  "demo_requests =
     [(CreateClient, demo_request (body_of [(''name'', JStr ''Acme'')])),
      (SetRegistrarIdentity, demo_request (body_of [(''registryUri'', JStr ''https://a.example/p''), (''clientIdentifier'', JStr ''RP'')])),
      (SetRegistration, demo_request (body_of [(''legalKind'', JStr ''legalPerson''), (''legalName'', JArr [JStr ''Acme'']),
         (''euid'', JStr ''LV1''), (''country'', JStr ''LV''),
         (''supervisoryAuthority'', JObj [(''country'', JStr ''LV''), (''email'', JArr [JStr ''d@l''])]),
         (''intendedUses'', JArr [JObj [(''purpose'', JArr [JObj [(''lang'', JStr ''en''), (''text'', JStr ''x'')]]),
            (''privacyPolicy'', JArr [JObj [(''uri'', JStr ''https://a.example/p'')]]),
            (''credentials'', JArr [JObj [(''format'', JStr ''mso_mdoc''), (''doctypesOrVcts'', JArr [JStr ''d'']),
               (''allClaims'', JBool True)]])]])])),
      (TransitionEndpoint, demo_request (body_of [(''targetState'', JStr ''evidence_submitted'')])),
      (TransitionEndpoint, demo_request (body_of [(''targetState'', JStr ''filed_with_registrar'')])),
      (TransitionEndpoint, demo_request (body_of [(''targetState'', JStr ''registered'')])),
      (TransitionEndpoint, demo_request (body_of [(''targetState'', JStr ''active'')]))]"

lemma demo_served:
  "status_of (w_state (serve_all demo_requests demo_env (new_world (\<lambda>n. int n) []))) (fakeID 1) = Some ''active''"
  by code_simp

theorem active_clients_are_fit_witness:
  "\<exists>c. map_of (clients (w_state (serve_all demo_requests demo_env (new_world (\<lambda>n. int n) [])))) (fakeID 1) = Some c \<and>
     cf_ClientIdentifier c \<noteq> [] \<and> isAbsoluteHTTPSURL (cf_RegistryURI c)"
proof -
  obtain c where c: "map_of (clients (w_state (serve_all demo_requests demo_env (new_world (\<lambda>n. int n) [])))) (fakeID 1) = Some c"
    "cf_Status c = ''active''" using demo_served by (auto simp: status_of_def)
  then have "cf_Status c \<in> {''active'', ''suspended'', ''offboarded''}" by simp
  from active_clients_are_fit [OF demo_env_store c(1) this] c(1) show ?thesis by blast
qed

theorem service_log_witness:
  "legal_path ''draft'' (history (fakeID 1) (w_state (serve_all demo_requests demo_env (new_world (\<lambda>n. int n) [])))) ''active''"
  using service_log [OF demo_env_store demo_served] by blast

end
