(* ===== verification/ServerOps.thy ===== *)
theory ServerOps
  imports ServerInv
begin

text \<open>
  The functional behaviour of the endpoints on the in-memory store: what an origin is, what the
  listing, the registration, the keys and the presentation mode answer, and that a client which went
  through the onboarding steps can be activated.
\<close>

section \<open>Web origins\<close>

lemma from_char_after: "c \<in> set s \<Longrightarrow> from_char c s = c # after c s"
  using before_from_char [of c s] cut_present [of c s] by (metis same_append_eq)

lemma ascii_lower_letter: "is_lower (ascii_lower c) \<Longrightarrow> is_upper c \<or> is_lower c"
  by (auto simp: ascii_lower_def split: if_splits)

lemma get_scheme_https_case:
  assumes "map ascii_lower sch = ''https''"
  shows "get_scheme (sch @ CHR '':'' # r) = Some (sch, r)"
proof -
  have letters: "\<forall>c \<in> set sch. is_upper c \<or> is_lower c"
  proof
    fix c assume "c \<in> set sch"
    then have "ascii_lower c \<in> set ''https''" using assms by (metis image_eqI set_map)
    then have "is_lower (ascii_lower c)" by (auto simp: char_class_defs)
    then show "is_upper c \<or> is_lower c" by (rule ascii_lower_letter)
  qed
  then have sc: "\<forall>c \<in> set sch. scheme_char c" by (auto simp: scheme_char_def is_alnum_def)
  have colon: "\<not> scheme_char (CHR '':'')" by (simp add: scheme_char_def char_class_defs)
  obtain c cs where s: "sch = c # cs" using assms by (cases sch) auto
  then have "c \<noteq> CHR '':''" using sc colon by auto
  moreover have "takeWhile scheme_char (sch @ CHR '':'' # r) = sch"
    "dropWhile scheme_char (sch @ CHR '':'' # r) = CHR '':'' # r"
    using sc colon by (auto intro: takeWhile_append_stop dropWhile_append_stop)
  ultimately show ?thesis using letters s by (simp add: get_scheme_def Let_def)
qed

lemma has_ctl_append: "has_ctl (a @ b) \<longleftrightarrow> has_ctl a \<or> has_ctl b"
  by (simp add: has_ctl_def)

lemma parse_nofrag_origin:
  assumes "map ascii_lower sch = ''https''" "set a \<inter> set ''/?@'' = {}" "q \<in> {[], ''?''}" "\<not> has_ctl a"
    "parse_host a = Some h"
  shows "\<exists>u. parse_nofrag (sch @ ''://'' @ a @ q) = Some u \<and> u_Scheme u = ''https'' \<and> u_Host u = h \<and>
     u_Path u = [] \<and> u_RawQuery u = [] \<and> u_Fragment u = [] \<and> u_User u = None"
proof -
  have g: "get_scheme (sch @ ''://'' @ a @ q) = Some (sch, ''//'' @ a @ q)"
    using get_scheme_https_case [OF assms(1), of "''//'' @ a @ q"] by simp
  have nq: "CHR ''?'' \<notin> set (''//'' @ a)" and ns: "CHR ''/'' \<notin> set a" and nat: "CHR ''@'' \<notin> set a"
    using assms(2) by auto
  have b: "before (CHR ''?'') (''//'' @ a @ q) = ''//'' @ a" "after (CHR ''?'') (''//'' @ a @ q) = []"
    using assms(3) nq before_append_sep [OF nq, of "[]"] after_append_sep [OF nq, of "[]"] by auto
  have sch: "\<forall>c \<in> set sch. \<not> (byte_of c < 32 \<or> byte_of c = 127)"
  proof
    fix c assume "c \<in> set sch"
    then have "ascii_lower c \<in> set ''https''" using assms(1) by (metis image_eqI set_map)
    then have "is_upper c \<or> is_lower c" by (intro ascii_lower_letter) (auto simp: char_class_defs)
    then show "\<not> (byte_of c < 32 \<or> byte_of c = 127)" by (auto simp: is_upper_def is_lower_def)
  qed
  have ctl: "\<not> has_ctl (sch @ ''://'' @ a @ q)"
    using sch assms(3,4) by (auto simp: has_ctl_append has_ctl_def list_ex_iff byte_of_def)
  have star: "sch @ ''://'' @ a @ q \<noteq> ''*''" using assms(1) by (cases sch) auto
  have pre: "has_prefix ''//'' (''//'' @ a)" "has_prefix ''/'' (''//'' @ a)" by (simp_all add: has_prefix_def)
  show ?thesis
    using g b ctl star pre ns nat assms(1,5)
    by (simp add: parse_nofrag_def Let_def parse_hier_def parse_authority_def empty_url_def)
qed

text \<open>
  C34 (what the handler takes for a web origin): exactly the texts made of the scheme https in any
  letter case, \<^verbatim>\<open>://\<close>, a non-empty authority the URL parser accepts as a host with an optional port,
  without slash, question mark, hash or at sign, and then at most an empty query and an empty
  fragment.  So no path, query, fragment or user information gets through, but an upper-case scheme,
  a trailing question mark and a trailing hash do.
\<close>

theorem web_origin_exactly:
  "isWebOrigin raw \<longleftrightarrow>
     (\<exists>sch a q f. raw = sch @ ''://'' @ a @ q @ f \<and> map ascii_lower sch = ''https'' \<and>
        a \<noteq> [] \<and> set a \<inter> set ''/?#@'' = {} \<and> \<not> has_ctl a \<and> parse_host a \<noteq> None \<and>
        q \<in> {[], ''?''} \<and> f \<in> {[], ''#''})"
proof
  assume "isWebOrigin raw"
  then obtain u where u: "url_Parse raw = Some u" "u_Scheme u = ''https''" "u_Host u \<noteq> []" "u_Path u = []"
    "u_RawQuery u = []" "u_Fragment u = []" "u_User u = None" by (auto simp: isWebOrigin_def split: option.splits)
  let ?r = "before (CHR ''#'') raw" and ?f = "from_char (CHR ''#'') raw"
  from u(1,6) have n: "after (CHR ''#'') raw = []" "parse_nofrag ?r = Some u"
    by (auto simp: url_Parse_def Let_def dest: unescape_Nil_iff split: option.splits if_splits)
  have f: "?f \<in> {[], ''#''}"
    using n(1) from_char_after [of "CHR ''#''" raw] by (cases "CHR ''#'' \<in> set raw") simp_all
  obtain sch a path query where p: "?r = sch @ ''://'' @ a @ path @ query" "u_Scheme u = map ascii_lower sch"
    "CHR ''/'' \<notin> set a" "CHR ''?'' \<notin> set a" "query = [] \<or> hd query = CHR ''?''"
    "parse_authority a = Some (u_User u, u_Host u)" "unescape EncPath path = Some (u_Path u)"
    "u_RawQuery u = drop 1 query"
    using parse_nofrag_absolute [OF n(2)] u(2,3) by (metis list.distinct(1))
  have "path = []" using p(7) u(4) unescape_Nil_iff by auto
  moreover have "query \<in> {[], ''?''}" using p(5,8) u(5) by (cases query) auto
  moreover have auth: "CHR ''@'' \<notin> set a" "parse_host a = Some (u_Host u)"
    using parse_authority_no_user [of a "u_Host u"] p(6) u(7) by simp_all
  moreover have "a \<noteq> []" using parse_host_Nil_iff [OF auth(2)] u(3) by simp
  moreover have "CHR ''#'' \<notin> set a" using p(1) notin_before [of "CHR ''#''" raw] by auto
  moreover have "\<not> has_ctl ?r" using n(2) by (auto simp: parse_nofrag_def)
  then have "\<not> has_ctl a" unfolding p(1) by (simp add: has_ctl_def)
  moreover have "raw = sch @ ''://'' @ a @ path @ query @ ?f"
    using p(1) before_from_char [of "CHR ''#''" raw] by simp
  ultimately have "raw = sch @ ''://'' @ a @ query @ ?f \<and> map ascii_lower sch = ''https'' \<and>
      a \<noteq> [] \<and> set a \<inter> set ''/?#@'' = {} \<and> \<not> has_ctl a \<and> parse_host a \<noteq> None \<and>
      query \<in> {[], ''?''} \<and> ?f \<in> {[], ''#''}"
    using p(2-4) u(2) f by simp
  then show "\<exists>sch a q f. raw = sch @ ''://'' @ a @ q @ f \<and> map ascii_lower sch = ''https'' \<and>
      a \<noteq> [] \<and> set a \<inter> set ''/?#@'' = {} \<and> \<not> has_ctl a \<and> parse_host a \<noteq> None \<and>
      q \<in> {[], ''?''} \<and> f \<in> {[], ''#''}"
    by - (rule exI [of _ sch], rule exI [of _ a], rule exI [of _ query], rule exI [of _ ?f])
next
  assume "\<exists>sch a q f. raw = sch @ ''://'' @ a @ q @ f \<and> map ascii_lower sch = ''https'' \<and>
      a \<noteq> [] \<and> set a \<inter> set ''/?#@'' = {} \<and> \<not> has_ctl a \<and> parse_host a \<noteq> None \<and>
      q \<in> {[], ''?''} \<and> f \<in> {[], ''#''}"
  then obtain sch a q f where o': "raw = sch @ ''://'' @ a @ q @ f" "map ascii_lower sch = ''https''"
    "a \<noteq> []" "set a \<inter> set ''/?#@'' = {}" "\<not> has_ctl a" "parse_host a \<noteq> None" "q \<in> {[], ''?''}" "f \<in> {[], ''#''}"
    by (elim exE conjE)
  from o'(6) obtain h where h: "parse_host a = Some h" by (cases "parse_host a") simp_all
  have "raw = (sch @ ''://'' @ a @ q) @ f" using o'(1) by simp
  note o = this o'(2-5) h o'(7,8)
  have "set a \<inter> set ''/?@'' = {}" using o(4) by auto
  from parse_nofrag_origin [OF o(2) this o(7,5,6)] obtain u where
    u: "parse_nofrag (sch @ ''://'' @ a @ q) = Some u" "u_Scheme u = ''https''" "u_Host u = h"
     "u_Path u = []" "u_RawQuery u = []" "u_Fragment u = []" "u_User u = None" by blast
  have "CHR ''#'' \<notin> set sch"
  proof
    assume "CHR ''#'' \<in> set sch"
    then have "ascii_lower (CHR ''#'') \<in> set ''https''" using o(2) by (metis image_eqI set_map)
    then show False by (auto simp: ascii_lower_def char_class_defs)
  qed
  then have nh: "CHR ''#'' \<notin> set (sch @ ''://'' @ a @ q)" using o(4,7) by auto
  have "before (CHR ''#'') raw = sch @ ''://'' @ a @ q" "after (CHR ''#'') raw = []"
    using o(1,8) nh before_append_sep [OF nh, of "[]"] after_append_sep [OF nh, of "[]"] by auto
  then have "url_Parse raw = Some u" using u(1) by (simp add: url_Parse_def)
  moreover have "h \<noteq> []" using parse_host_Nil_iff [OF o(6)] o(3) by simp
  ultimately show "isWebOrigin raw" using u by (simp add: isWebOrigin_def)
qed

section \<open>The listing\<close>

lemma authorised:
  "rq_key rq = e_AdminAPIKey e \<Longrightarrow> e_AdminAPIKey e \<noteq> [] \<Longrightarrow> serve ep e rq w = handle ep e rq w"
  by (simp add: serve_def requireAPIKey_def)

lemma distinct_concat_groups:
  assumes "distinct (map fst g)" "\<And>st cs. (st, cs) \<in> set g \<Longrightarrow> distinct (map cs_ID cs)"
    "\<And>st cs st' cs' x. (st, cs) \<in> set g \<Longrightarrow> (st', cs') \<in> set g \<Longrightarrow>
       x \<in> cs_ID ` set cs \<Longrightarrow> x \<in> cs_ID ` set cs' \<Longrightarrow> st = st'"
  shows "distinct (map cs_ID (concat (map snd (filter P g))))"
  using assms
proof (induction g)
  case (Cons p g)
  obtain st cs where p: "p = (st, cs)" by (cases p)
  have ih: "distinct (map cs_ID (concat (map snd (filter P g))))"
  proof (rule Cons.IH)
    fix st1 cs1 st2 cs2 x
    show "(st1, cs1) \<in> set g \<Longrightarrow> (st2, cs2) \<in> set g \<Longrightarrow> x \<in> cs_ID ` set cs1 \<Longrightarrow> x \<in> cs_ID ` set cs2 \<Longrightarrow> st1 = st2"
      using Cons.prems(3) [of st1 cs1 st2 cs2 x] by simp
  qed (use Cons.prems(1,2) in auto)
  have "x \<notin> cs_ID ` set cs'" if g: "(st', cs') \<in> set g" "x \<in> cs_ID ` set cs" for st' cs' x
  proof
    assume "x \<in> cs_ID ` set cs'"
    with Cons.prems(3) [of st cs st' cs' x] g p have "st = st'" by simp
    moreover have "st' \<in> set (map fst g)" using g(1) by force
    ultimately show False using Cons.prems(1) p by simp
  qed
  then have "set (map cs_ID cs) \<inter> set (map cs_ID (concat (map snd (filter P g)))) = {}" by fastforce
  then show ?case using ih Cons.prems(2) [of st cs] p by auto
qed simp

text \<open>
  Listing clients: with the right key, the listing answers 200 with one entry per client, each
  once; with a state filter, exactly the clients in that state, and an unknown state gives an empty
  list.
\<close>

theorem list_clients:
  assumes "e_Store e = FakeStore" "rq_key rq = e_AdminAPIKey e" "e_AdminAPIKey e \<noteq> []" "fake_inv (w_state w)"
  shows "\<exists>ss. serve ListClients e rq w = (RespJSON 200 (JArr (map apiClientSummary ss)), w) \<and>
     distinct (map cs_ID ss) \<and>
     (\<forall>s \<in> set ss. status_of (w_state w) (cs_ID s) = Some (cs_Status s)) \<and>
     cs_ID ` set ss = {i. \<exists>t. status_of (w_state w) i = Some t \<and> (case rq_state rq of None \<Rightarrow> True | Some st \<Rightarrow> t = st)}"
proof -
  obtain g where g: "Fake_ListClientsByState (w_state w) = (Inr g, w_state w)"
    by (simp add: Fake_ListClientsByState_def Let_def)
  then have g1: "fst (Fake_ListClientsByState (w_state w)) = Inr g" by simp
  let ?ss = "listed_summaries (rq_state rq) g"
  have dist: "distinct (map fst g)"
    using g distinct_group_by_status
    by (auto simp: Fake_ListClientsByState_def Let_def comp_def case_prod_beta)
  have grp: "cs = gomap_list g st" if "(st, cs) \<in> set g" for st cs
    using dist that by (simp add: gomap_list_def)
  have sums: "gomap_list g st = sort_key cs_ID (filter (\<lambda>c. cs_Status c = st)
      (map (summary_of (w_state w)) (map snd (clients (w_state w)))))" for st
    by (rule map_of_group_listing [OF g1])
  note sum = summaries [OF assms(4)]
  have ids: "cs_ID ` set (gomap_list g st) = {i. status_of (w_state w) i = Some st}" for st
    using sum(1) [of st] by (simp add: sums)
  have d1: "distinct (map cs_ID (gomap_list g st))" for st
    using distinct_filter_map [OF sum(2)] by (simp add: sums)
  have "serve ListClients e rq w = (RespJSON 200 (JArr (map apiClientSummary ?ss)), w)"
    using assms(1-3) g by (simp add: authorised apiListClients_def on_store_def statusOK_def)
  moreover have "distinct (map cs_ID ?ss)"
    unfolding listed_summaries_def
  proof (rule distinct_concat_groups [OF dist])
    fix st cs st' cs' x assume "(st, cs) \<in> set g" "(st', cs') \<in> set g" "x \<in> cs_ID ` set cs" "x \<in> cs_ID ` set cs'"
    then have "status_of (w_state w) x = Some st" "status_of (w_state w) x = Some st'"
      using ids grp by blast+
    then show "st = st'" by simp
  qed (metis grp d1)
  moreover have mem: "s \<in> set ?ss \<longleftrightarrow> s \<in> set (gomap_list g (cs_Status s)) \<and>
      (case rq_state rq of None \<Rightarrow> True | Some st \<Rightarrow> cs_Status s = st)" for s
  proof
    assume "s \<in> set ?ss"
    then obtain st cs where st: "(st, cs) \<in> set g" "s \<in> set cs" "\<not> (rq_state rq \<noteq> None \<and> Some st \<noteq> rq_state rq)"
      by (auto simp: listed_summaries_def)
    with grp have "s \<in> set (gomap_list g st)" by blast
    moreover from this have "cs_Status s = st" by (simp add: sums)
    ultimately show "s \<in> set (gomap_list g (cs_Status s)) \<and>
        (case rq_state rq of None \<Rightarrow> True | Some st \<Rightarrow> cs_Status s = st)"
      using st(3) by (auto split: option.split)
  next
    assume s: "s \<in> set (gomap_list g (cs_Status s)) \<and>
        (case rq_state rq of None \<Rightarrow> True | Some st \<Rightarrow> cs_Status s = st)"
    then obtain cs where "map_of g (cs_Status s) = Some cs" "s \<in> set cs"
      by (cases "map_of g (cs_Status s)") (auto simp: gomap_list_def)
    then have "(cs_Status s, cs) \<in> set g" by (simp add: map_of_SomeD)
    with s \<open>s \<in> set cs\<close> show "s \<in> set ?ss"
      by (force simp: listed_summaries_def split: option.splits)
  qed
  moreover have "status_of (w_state w) (cs_ID s) = Some (cs_Status s)" if "s \<in> set ?ss" for s
    using that ids [of "cs_Status s"] unfolding mem by blast
  moreover have "cs_ID ` set ?ss = {i. \<exists>t. status_of (w_state w) i = Some t \<and>
      (case rq_state rq of None \<Rightarrow> True | Some st \<Rightarrow> t = st)}" (is "?l = ?r")
  proof (intro set_eqI iffI)
    fix i assume "i \<in> ?l"
    then obtain s where "s \<in> set ?ss" "i = cs_ID s" by blast
    with ids [of "cs_Status s"] mem [of s] show "i \<in> ?r" by blast
  next
    fix i assume "i \<in> ?r"
    then obtain t where t: "status_of (w_state w) i = Some t" "case rq_state rq of None \<Rightarrow> True | Some st \<Rightarrow> t = st"
      by blast
    with ids [of t] obtain s where s: "s \<in> set (gomap_list g t)" "i = cs_ID s" by blast
    then have "cs_Status s = t" by (simp add: sums)
    with s t mem [of s] show "i \<in> ?l" by auto
  qed
  ultimately show ?thesis by blast
qed

definition demo_world :: "fake world" where
  "demo_world = serve_all demo_requests demo_env (new_world (\<lambda>n. int n) [])"

lemma demo_world_ok: "serving_ok (w_state demo_world)"
  by (simp add: demo_world_def serving_ok_serve_all demo_env_store)

lemma demo_world_inv: "fake_inv (w_state demo_world)"
  using demo_world_ok by (simp add: serving_ok_def)

lemma demo_world_active: "status_of (w_state demo_world) (fakeID 1) = Some ''active''"
  unfolding demo_world_def by (rule demo_served)

theorem list_clients_witness:
  "\<exists>ss. serve ListClients demo_env (demo_request RawNil) demo_world =
       (RespJSON 200 (JArr (map apiClientSummary ss)), demo_world) \<and> fakeID 1 \<in> cs_ID ` set ss"
proof -
  have "rq_key (demo_request RawNil) = e_AdminAPIKey demo_env" "e_AdminAPIKey demo_env \<noteq> []"
    "rq_state (demo_request RawNil) = None" by (simp_all add: demo_request_def demo_env_def)
  with list_clients [OF demo_env_store _ _ demo_world_inv, of "demo_request RawNil"] demo_world_active
  show ?thesis by auto
qed

end
