(* ===== verification/ServerFlows.thy ===== *)
theory ServerFlows
  imports ServerOps "HOL-Library.Multiset"
begin

text \<open>
  Flows through the endpoints on the in-memory store: what a registration leaves in the store, what
  minting a key leaves there, the round trip of the presentation mode, and that a client which went
  through the onboarding steps can be activated.
\<close>

section \<open>Registration\<close>

lemma serve_registration:
  assumes "e_Store e = FakeStore" "serve SetRegistration e rq w = (RespJSON n j, w')"
  obtains req wrp ius doc where
    "unmarshal dec_apiRegistrationRequest zero_apiRegistrationRequest (rq_body rq) = Some req"
    "Build (e_marshalPurpose e) (e_ulid e) (e_clock e (w_ticks w)) (toFormState req) (w_ulids w) = (Inr (wrp, ius), w_ulids w')"
    "e_marshalWRP e wrp = Inr doc"
    "fst (exec_call (CallSaveWRPDocument (rq_id rq) doc ius ''api'') (w_state w)) = None"
    "w_state w' = snd (exec_call (CallSaveWRPDocument (rq_id rq) doc ius ''api'') (w_state w))"
    "n = 200" "\<exists>st. j = JObj [(''id'', JStr (rq_id rq)), (''state'', JStr st), (''intendedUses'', JNum (int (length ius)))]"
proof -
  from assms(2) have a: "apiSetRegistration e rq w = (RespJSON n j, w')"
    by (auto simp: serve_def requireAPIKey_def Let_def split: if_splits)
  then obtain req where req: "unmarshal dec_apiRegistrationRequest zero_apiRegistrationRequest (rq_body rq) = Some req"
    by (auto simp: apiSetRegistration_def notJSON_def invalidBody_def split: option.splits)
  obtain r n' where b: "Build (e_marshalPurpose e) (e_ulid e) (e_clock e (w_ticks w)) (toFormState req) (w_ulids w) = (r, n')"
    by fastforce
  let ?w1 = "w\<lparr>w_ulids := n', w_ticks := Suc (w_ticks w)\<rparr>"
  from a req b obtain wrp ius where r: "r = Inr (wrp, ius)"
    by (cases r) (auto simp: apiSetRegistration_def build_in_def)
  from a req b r obtain doc where d: "e_marshalWRP e wrp = Inr doc"
    by (cases "e_marshalWRP e wrp") (auto simp: apiSetRegistration_def build_in_def)
  obtain q w2 where q: "on_store (Fake_SaveWRPDocument (rq_id rq) doc ius ''api'') ?w1 = (q, w2)" by fastforce
  from a req b r d q assms(1) obtain v where v: "q = Inr v"
    by (cases q) (auto simp: apiSetRegistration_def build_in_def)
  note call = on_store_call [OF q, of "CallSaveWRPDocument (rq_id rq) doc ius ''api''", OF exec_call.simps(8)]
  from a req b r d q v assms(1) have "registration_stored (length ius) e rq w2 = (RespJSON n j, w')"
    by (simp add: apiSetRegistration_def build_in_def)
  then have "w' = w2 \<and> n = 200 \<and>
      (\<exists>st. j = JObj [(''id'', JStr (rq_id rq)), (''state'', JStr st), (''intendedUses'', JNum (int (length ius)))])"
    using assms(1) by (auto simp: registration_stored_def on_store_get statusOK_def split: option.splits)
  with that req b r d call(1) call(3) [OF v] show thesis by simp
qed

text \<open>
  C22 (a stored registration): when the registration endpoint answers with a body, the status is 200,
  the request decoded, the wizard accepted the form, and the store keeps the encoded document on the
  client's row and as its intended uses exactly the projections of the wizard: each listed row is one
  of them but for its internal id, none of them is missing or listed twice, whatever the client listed
  before.  The number in the answer is the number listed; other clients' rows and uses stay.
\<close>

theorem registration_replaces:
  assumes "e_Store e = FakeStore" "fake_inv (w_state w)" "inj (e_ulid e)"
    "serve SetRegistration e rq w = (RespJSON n j, w')"
  shows "\<exists>req wrp ius doc c st.
     unmarshal dec_apiRegistrationRequest zero_apiRegistrationRequest (rq_body rq) = Some req \<and>
     Build (e_marshalPurpose e) (e_ulid e) (e_clock e (w_ticks w)) (toFormState req) (w_ulids w) = (Inr (wrp, ius), w_ulids w') \<and>
     e_marshalWRP e wrp = Inr doc \<and>
     map_of (clients (w_state w)) (rq_id rq) = Some c \<and>
     map_of (clients (w_state w')) = (map_of (clients (w_state w)))(rq_id rq \<mapsto> c\<lparr>cf_WRPDocument := doc\<rparr>) \<and>
     mset (map (iu_ID_update (\<lambda>_. [])) (listed_uses (rq_id rq) (w_state w'))) = mset ius \<and>
     (\<forall>i. i \<noteq> rq_id rq \<longrightarrow> listed_uses i (w_state w') = listed_uses i (w_state w)) \<and>
     n = 200 \<and> j = JObj [(''id'', JStr (rq_id rq)), (''state'', JStr st),
       (''intendedUses'', JNum (int (length (listed_uses (rq_id rq) (w_state w')))))]"
proof -
  let ?i = "rq_id rq" and ?f = "w_state w" and ?g = "w_state w'"
  obtain req wrp ius doc where s:
    "unmarshal dec_apiRegistrationRequest zero_apiRegistrationRequest (rq_body rq) = Some req"
    "Build (e_marshalPurpose e) (e_ulid e) (e_clock e (w_ticks w)) (toFormState req) (w_ulids w) = (Inr (wrp, ius), w_ulids w')"
    "e_marshalWRP e wrp = Inr doc"
    "fst (exec_call (CallSaveWRPDocument ?i doc ius ''api'') ?f) = None"
    "?g = snd (exec_call (CallSaveWRPDocument ?i doc ius ''api'') ?f)" "n = 200"
    and j: "\<exists>st. j = JObj [(''id'', JStr ?i), (''state'', JStr st), (''intendedUses'', JNum (int (length ius)))]"
    using serve_registration [OF assms(1,4)] .
  let ?c = "CallSaveWRPDocument ?i doc ius ''api''"
  have sub: "submits ?c ?i ius" by (simp add: submits_def)
  have dist: "distinct (map iu_IntendedUseID ius)" by (rule Build_ids_distinct [OF s(2) assms(3)])
  have ids0: "iu_ID iu = []" if "iu \<in> set ius" for iu using Build_projections [OF s(2)] that by blast
  note eff = submits_effect [OF sub s(4)]
  have inv: "fake_inv ?g" unfolding s(5) by (rule exec_call_inv [OF assms(2)])
  have lids: "map iu_IntendedUseID (listed_uses ?i ?g) = replaced_order ?i ius ?f"
    using listed_ids [OF inv] eff(2) s(5) by simp
  have "distinct (gomap_list (intendedUseOrder ?f) ?i)"
    using uses_ok_gomap [OF assms(2)] by (simp add: uses_ok_def)
  then have dl: "distinct (map iu_IntendedUseID (listed_uses ?i ?g))" and
    sl: "iu_IntendedUseID ` set (listed_uses ?i ?g) = iu_IntendedUseID ` set ius"
    using lids append_unseen_set [of "filter (\<lambda>j. j \<in> iu_IntendedUseID ` set ius) (gomap_list (intendedUseOrder ?f) ?i)"
        "map iu_IntendedUseID ius"]
    by (auto simp: replaced_order_def append_unseen_distinct simp flip: set_map)
  let ?strip = "iu_ID_update (\<lambda>_. []) :: IntendedUse \<Rightarrow> IntendedUse"
  have strip: "?strip r \<in> set ius" if "r \<in> set (listed_uses ?i ?g)" for r
  proof -
    have "r \<in> set (listed_uses ?i (snd (exec_call ?c ?f)))" using that unfolding s(5) .
    then obtain iu where iu: "iu \<in> set ius" "resubmits (gomap_list (intendedUses ?f) ?i) iu r"
      by (rule submitted_rows [OF assms(2) sub s(4)])
    then have "r = iu\<lparr>iu_ID := iu_ID r\<rparr>" unfolding resubmits_def by blast
    then have "?strip r = ?strip (iu\<lparr>iu_ID := iu_ID r\<rparr>)" by (rule arg_cong)
    also have "\<dots> = iu" using ids0 [OF iu(1)] by (cases iu) simp
    finally show ?thesis using iu(1) by simp
  qed
  have ms: "mset (map ?strip (listed_uses ?i ?g)) = mset ius"
  proof (rule set_eq_iff_mset_eq_distinct [THEN iffD1])
    show "distinct ius" using dist by (simp add: distinct_map)
    have k: "iu_IntendedUseID (?strip r) = iu_IntendedUseID r" for r by simp
    then have "map iu_IntendedUseID (map ?strip (listed_uses ?i ?g)) = map iu_IntendedUseID (listed_uses ?i ?g)" by simp
    with dl show "distinct (map ?strip (listed_uses ?i ?g))" by (metis distinct_map)
    show "set (map ?strip (listed_uses ?i ?g)) = set ius"
    proof
      show "set ius \<subseteq> set (map ?strip (listed_uses ?i ?g))"
      proof
        fix iu assume "iu \<in> set ius"
        with sl obtain r where r: "r \<in> set (listed_uses ?i ?g)" "iu_IntendedUseID r = iu_IntendedUseID iu"
          by (metis image_iff)
        with strip [OF r(1)] dist \<open>iu \<in> set ius\<close> k have "?strip r = iu" by (metis distinct_map inj_onD)
        with r(1) show "iu \<in> set (map ?strip (listed_uses ?i ?g))" by force
      qed
    qed (use strip in auto)
  qed
  then have len: "length (listed_uses ?i ?g) = length ius" by (metis length_map size_mset)
  obtain c where c: "map_of (clients ?f) ?i = Some c"
    "map_of (clients ?g) = (map_of (clients ?f))(?i \<mapsto> c\<lparr>cf_WRPDocument := doc\<rparr>)"
    using s(4) unfolding s(5) by (auto simp: Fake_SaveWRPDocument_def Let_def split: option.splits if_splits)
  have other: "\<forall>i. i \<noteq> ?i \<longrightarrow> listed_uses i ?g = listed_uses i ?f"
    using eff(1,2) s(5) by (simp add: listed_uses_eq)
  from j obtain st where st: "j = JObj [(''id'', JStr ?i), (''state'', JStr st), (''intendedUses'', JNum (int (length ius)))]" ..
  show ?thesis
    by (rule exI [of _ req], rule exI [of _ wrp], rule exI [of _ ius], rule exI [of _ doc], rule exI [of _ c],
        rule exI [of _ st], unfold len, intro conjI, fact s(1), fact s(2), fact s(3), fact c(1), fact c(2), fact ms,
        fact other, fact s(6), fact st)
qed

section \<open>Concrete worlds\<close>

text \<open>The service after the first \<open>n\<close> of the seven requests that take a client from its creation to
  activation.\<close>

definition demo_after :: "nat \<Rightarrow> fake world" where
  "demo_after n = serve_all (take n demo_requests) demo_env (new_world (\<lambda>n. int n) [])"

definition demo_rq :: "nat \<Rightarrow> request" where "demo_rq n = snd (demo_requests ! n)"

definition answers :: "nat \<Rightarrow> response \<Rightarrow> bool" where
  "answers code r = (case r of RespJSON n _ \<Rightarrow> n = code | RespStatus n \<Rightarrow> n = code | _ \<Rightarrow> False)"

lemma demo_after_inv: "fake_inv (w_state (demo_after n))"
  using serving_ok_serve_all [OF demo_env_store] by (simp add: demo_after_def serving_ok_def)

lemma demo_env_ulid: "inj (e_ulid demo_env)"
  by (simp add: demo_env_def) (metis dec_val_nat_dec injI)

lemma demo_rq_id [simp]: "rq_id (demo_rq 1) = fakeID 1" "rq_id (demo_rq 2) = fakeID 1"
  by (simp_all add: demo_rq_def demo_requests_def demo_request_def eval_nat_numeral)

lemma demo_identity_served: "fst (serve SetRegistrarIdentity demo_env (demo_rq 1) (demo_after 1)) = RespStatus 204"
  by code_simp

lemma demo_registration_served: "answers 200 (fst (serve SetRegistration demo_env (demo_rq 2) (demo_after 2)))"
  by code_simp

lemma demo_registration: "\<exists>j. serve SetRegistration demo_env (demo_rq 2) (demo_after 2) =
    (RespJSON 200 j, snd (serve SetRegistration demo_env (demo_rq 2) (demo_after 2)))"
proof -
  have "fst (serve SetRegistration demo_env (demo_rq 2) (demo_after 2)) \<noteq> RespStatus n" for n
  proof
    assume "fst (serve SetRegistration demo_env (demo_rq 2) (demo_after 2)) = RespStatus n"
    then show False
      by (auto simp: serve_def requireAPIKey_def Let_def apiSetRegistration_def registration_stored_def notJSON_def
          invalidBody_def split: option.splits sum.splits prod.splits if_splits)
  qed
  with demo_registration_served show ?thesis
    by (cases "serve SetRegistration demo_env (demo_rq 2) (demo_after 2)")
       (auto simp: answers_def split: response.splits)
qed

theorem registration_replaces_witness:
  "\<exists>st. fst (serve SetRegistration demo_env (demo_rq 2) (demo_after 2)) =
     RespJSON 200 (JObj [(''id'', JStr (fakeID 1)), (''state'', JStr st), (''intendedUses'',
       JNum (int (length (listed_uses (fakeID 1)
         (w_state (snd (serve SetRegistration demo_env (demo_rq 2) (demo_after 2))))))))])"
proof -
  obtain j where j: "serve SetRegistration demo_env (demo_rq 2) (demo_after 2) =
    (RespJSON 200 j, snd (serve SetRegistration demo_env (demo_rq 2) (demo_after 2)))"
    using demo_registration by blast
  from registration_replaces [OF demo_env_store demo_after_inv demo_env_ulid this] show ?thesis
    unfolding arg_cong [OF j, of fst, unfolded fst_conv] by auto
qed

section \<open>From onboarding to activation\<close>

text \<open>What the activation gate asks of the store, and that no request takes it away.\<close>

definition identified :: "string \<Rightarrow> fake \<Rightarrow> bool" where
  "identified i f \<longleftrightarrow> (\<exists>c. fake_row f i = Some c \<and> usable_identity c)"

definition in_use_for :: "string \<Rightarrow> fake \<Rightarrow> bool" where
  "in_use_for i f \<longleftrightarrow> anyNonRevoked (fake_uses f i)"

lemma usable_identity_update [simp]:
  "usable_identity (c\<lparr>cf_DefaultWebhook := u\<rparr>) = usable_identity c"
  "usable_identity (c\<lparr>cf_AllowedOrigins := os\<rparr>) = usable_identity c"
  "usable_identity (c\<lparr>cf_Policy := p\<rparr>) = usable_identity c"
  "usable_identity (c\<lparr>cf_WRPDocument := d\<rparr>) = usable_identity c"
  "usable_identity (c\<lparr>cf_Status := st\<rparr>) = usable_identity c"
  by (simp_all add: usable_identity_def)

lemma move_keeps_identity:
  assumes "fake_inv f" "api_move f c" "fst (exec_call c f) = None" "identified i f"
  shows "identified i (snd (exec_call c f))"
proof -
  have "map_of (clients f) (fakeID (Suc (seq f))) = None" by (rule fresh_client [OF assms(1)])
  then have "i \<noteq> fakeID (Suc (seq f))" using assms(4) by (auto simp: identified_def fake_row_def)
  with assms(2,3,4) show ?thesis
    by (cases rule: api_move.cases)
       (auto simp: op_defs Let_def nextID_eq now_utc_def identified_def fake_row_def usable_identity_def
          split: option.splits if_splits sum.splits)
qed

lemma move_keeps_use:
  assumes "fake_inv f" "api_move f c" "fst (exec_call c f) = None" "in_use_for i f"
  shows "in_use_for i (snd (exec_call c f))"
  using assms(2)
proof (cases rule: api_move.cases)
  case (save ius j doc)
  show ?thesis
  proof (cases "j = i")
    case True
    with fake_uses_saved [OF assms(1), of i doc ius "''api''"] save assms(3) show ?thesis by (simp add: in_use_for_def)
  next
    case False
    have "submits c j ius" using save by (simp add: submits_def)
    from submits_effect(1,2) [OF this assms(3)] False assms(4) show ?thesis
      by (simp add: in_use_for_def fake_uses_def listed_uses_def)
  qed
qed (use assms(3,4) in \<open>auto simp: op_defs Let_def nextID_eq now_utc_def in_use_for_def fake_uses_def listed_uses_def
      split: option.splits if_splits sum.splits\<close>)

lemma run_keeps:
  assumes "api_run f g" "fake_inv f"
  shows "fake_inv g \<and> (identified i f \<longrightarrow> identified i g) \<and> (in_use_for i f \<longrightarrow> in_use_for i g)"
  using assms
proof (induction rule: api_run.induct)
  case (step g c)
  then have "fake_inv g" by simp
  with step exec_call_inv [of g c] move_keeps_identity [of g c i] move_keeps_use [of g c i] show ?case by blast
qed simp

lemma serve_all_keeps:
  assumes "e_Store e = FakeStore" "fake_inv (w_state w)"
  shows "fake_inv (w_state (serve_all reqs e w)) \<and>
     (identified i (w_state w) \<longrightarrow> identified i (w_state (serve_all reqs e w))) \<and>
     (in_use_for i (w_state w) \<longrightarrow> in_use_for i (w_state (serve_all reqs e w)))"
  by (rule run_keeps [OF serve_all_run [OF assms] assms(2)])

lemma identity_recorded:
  assumes "e_Store e = FakeStore" "serve SetRegistrarIdentity e rq w = (RespStatus n, w')"
  shows "identified (rq_id rq) (w_state w')"
proof -
  from assms(2) have a: "apiSetRegistrarIdentity e rq w = (RespStatus n, w')"
    by (auto simp: serve_def requireAPIKey_def Let_def split: if_splits)
  then obtain req where req: "unmarshal dec_apiRegistrarIdentityRequest \<lparr>ri_RegistryURI = [], ri_ClientIdentifier = []\<rparr> (rq_body rq) = Some req"
    "ri_ClientIdentifier req \<noteq> []" "isAbsoluteHTTPSURL (ri_RegistryURI req)"
    by (auto simp: apiSetRegistrarIdentity_def notJSON_def invalidBody_def https_checks_agree split: option.splits if_splits)
  with a assms(1) show ?thesis
    by (auto simp: apiSetRegistrarIdentity_def notJSON_def invalidBody_def https_checks_agree on_store_def
        Fake_SetClientRegistrarIdentity_def Let_def identified_def fake_row_def usable_identity_def fail_def
        split: option.splits if_splits sum.splits prod.splits)
qed

lemma use_recorded:
  assumes "e_Store e = FakeStore" "fake_inv (w_state w)" "serve SetRegistration e rq w = (RespJSON n j, w')"
  shows "in_use_for (rq_id rq) (w_state w')"
proof -
  obtain req wrp ius doc where s:
    "Build (e_marshalPurpose e) (e_ulid e) (e_clock e (w_ticks w)) (toFormState req) (w_ulids w) = (Inr (wrp, ius), w_ulids w')"
    "fst (exec_call (CallSaveWRPDocument (rq_id rq) doc ius ''api'') (w_state w)) = None"
    "w_state w' = snd (exec_call (CallSaveWRPDocument (rq_id rq) doc ius ''api'') (w_state w))"
    using serve_registration [OF assms(1,3)] .
  from Build_projections [OF s(1)] fake_uses_saved [OF assms(2) s(2)] s(3) show ?thesis
    by (simp add: in_use_for_def)
qed

lemma activation_served:
  assumes "e_Store e = FakeStore" "rq_key rq = e_AdminAPIKey e" "e_AdminAPIKey e \<noteq> []" "fake_inv (w_state w)"
    "identified (rq_id rq) (w_state w)" "in_use_for (rq_id rq) (w_state w)"
    "status_of (w_state w) (rq_id rq) \<in> {Some ''registered'', Some ''suspended''}"
    "unmarshal dec_apiTransitionRequest \<lparr>tq_TargetState = [], tq_Reason = [], tq_EvidenceRef = []\<rparr> (rq_body rq) = Some tq"
    "tq_TargetState tq = ''active''"
  shows "fst (serve TransitionEndpoint e rq w) = RespJSON 200 (JObj [(''id'', JStr (rq_id rq)), (''state'', JStr ''active'')]) \<and>
     status_of (w_state (snd (serve TransitionEndpoint e rq w))) (rq_id rq) = Some ''active''"
proof -
  let ?i = "rq_id rq" and ?f = "w_state w" and ?sv = "NewService FakeStore"
  have sv: "sv_Store ?sv = FakeStore" by (simp add: NewService_def)
  obtain c where c: "fake_row ?f ?i = Some c" "usable_identity c" using assms(5) by (auto simp: identified_def)
  then have st: "cf_Status c \<in> {''registered'', ''suspended''}" using assms(7) by (auto simp: status_of_def fake_row_def)
  have "ts5OK ?sv ?i" by (simp add: ts5OK_def NewService_def)
  with c assms(6) fk.row_id [OF assms(4) c(1)] have "gate ?sv (fake_uses ?f ?i) c"
    by (simp add: gate_def in_use_for_def)
  with st c have v: "verdict (set legalTransitions) ?sv (fake_row ?f ?i) (fake_uses ?f ?i) ''active'' = Inr ()"
    by (auto simp: verdict_def legalTransitions_def state_defs)
  obtain q g where t: "Transition ?sv ?i ''active'' ''api'' (tq_EvidenceRef tq) (tq_Reason tq) ?f = (q, g)" by fastforce
  with fk.Transition_exact [OF sv assms(4), of ?i "''active''" "''api''" "tq_EvidenceRef tq" "tq_Reason tq"] v
  have q: "q = Inr ()" by simp
  from fk.Transition_effect [OF sv assms(4) t [unfolded q]] have "status_of g ?i = Some ''active''"
    by (auto simp: fk.success_def fk.moved_def state_defs status_of_def fake_row_def)
  moreover have "serve TransitionEndpoint e rq w =
      (RespJSON 200 (JObj [(''id'', JStr ?i), (''state'', JStr ''active'')]), w\<lparr>w_state := g\<rparr>)"
    using assms(1-3,8,9) t q by (simp add: authorised apiTransition_def on_store_def statusOK_def)
  ultimately show ?thesis by simp
qed


definition demo_transitions :: "(endpoint \<times> request) list" where
  "demo_transitions = take 3 (drop 3 demo_requests)"

lemma demo_registered: "status_of (w_state (serve_all demo_transitions demo_env
    (snd (serve SetRegistration demo_env (demo_rq 2) (demo_after 2))))) (fakeID 1) = Some ''registered''"
  by code_simp

lemma demo_after_2: "serve_all [] demo_env (snd (serve SetRegistrarIdentity demo_env (demo_rq 1) (demo_after 1))) = demo_after 2"
proof -
  have "serve_all (xs @ ys) e w = serve_all ys e (serve_all xs e w)" for xs ys e and w :: "fake world"
    by (induction xs e w rule: serve_all.induct) simp_all
  from this [of "[demo_requests ! 0]" "[demo_requests ! 1]"] show ?thesis
    by (simp add: demo_after_def demo_rq_def demo_requests_def eval_nat_numeral)
qed


section \<open>Minting a key\<close>

text \<open>
  C39 (minting a key): with the right key in the header, the endpoint mints for every client the store
  has, whatever its status.  With 45 random bytes or more it answers 201 with the display key, whose
  prefix and hash, and nothing else, are appended to the client's stored keys; the audit log does not
  change.  With fewer bytes, and for an unknown client, it answers an error and the store does not
  change; for an unknown client no random byte is read.
\<close>

theorem create_key:
  assumes "e_Store e = FakeStore" "rq_key rq = e_AdminAPIKey e" "e_AdminAPIKey e \<noteq> []" "fake_inv (w_state w)"
  shows "serve CreateKey e rq w =
    (let i = rq_id rq; f = w_state w in
     case map_of (clients f) i of
       None \<Rightarrow> (RespError (FromResultCode ''err:registry:not_found''), w)
     | Some c \<Rightarrow>
         (case Mint (e_idKey e) (e_argonVersion e) (w_rand w) of
            (Inl err, b) \<Rightarrow> (RespError err, w\<lparr>w_rand := b\<rparr>)
          | (Inr (key, prefix, phc), b) \<Rightarrow>
              (RespJSON 201 (JObj [(''clientId'', JStr i), (''prefix'', JStr prefix), (''apiKey'', JStr key)]),
               w\<lparr>w_rand := b, w_state := f\<lparr>apiKeys := AList.update i
                  (gomap_list (apiKeys f) i @ [\<lparr>ak_Prefix = prefix, ak_SecretHash = phc\<rparr>]) (apiKeys f)\<rparr>\<rparr>))) \<and>
    is_ok (fst (Mint (e_idKey e) (e_argonVersion e) (w_rand w))) = (45 \<le> length (w_rand w))"
proof (cases "map_of (clients (w_state w)) (rq_id rq)")
  case None
  then show ?thesis
    using assms by (simp add: authorised apiCreateKey_def on_store_get fake_row_def Mint_eq fail_def)
next
  case (Some c)
  then have id: "cf_ID c = rq_id rq" using stored_client [OF assms(4)] by blast
  show ?thesis
  proof (cases "45 \<le> length (w_rand w)")
    case True
    obtain key prefix phc where k: "minted_key (e_idKey e) (e_argonVersion e) (w_rand w) = (key, prefix, phc)"
      by (cases "minted_key (e_idKey e) (e_argonVersion e) (w_rand w)") auto
    with True Some assms(1-3) id show ?thesis
      by (simp add: authorised apiCreateKey_def fake_get fake_row_def mint_in_def Mint_eq on_store_def
          Fake_CreateAPIKey_def statusCreated_def Let_def)
  next
    case False
    with Some assms(1-3) show ?thesis
      by (simp add: authorised apiCreateKey_def on_store_get fake_row_def mint_in_def Mint_eq Let_def)
  qed
qed

theorem create_key_witness:
  "serve CreateKey demo_env (demo_rq 6) (new_world (\<lambda>n. int n) []) =
     (RespError (FromResultCode ''err:registry:not_found''), new_world (\<lambda>n. int n) []) \<and>
   (\<exists>key prefix phc. serve CreateKey demo_env (demo_rq 6) (demo_after 1\<lparr>w_rand := replicate 45 (CHR ''x'')\<rparr>) =
     (RespJSON 201 (JObj [(''clientId'', JStr (fakeID 1)), (''prefix'', JStr prefix), (''apiKey'', JStr key)]),
      demo_after 1\<lparr>w_rand := [], w_state := (w_state (demo_after 1))\<lparr>apiKeys :=
        [(fakeID 1, [\<lparr>ak_Prefix = prefix, ak_SecretHash = phc\<rparr>])]\<rparr>\<rparr>))"
proof -
  have rq: "rq_id (demo_rq 6) = fakeID 1" "rq_key (demo_rq 6) = e_AdminAPIKey demo_env" "e_AdminAPIKey demo_env \<noteq> []"
    by (simp_all add: demo_rq_def demo_requests_def demo_request_def demo_env_def eval_nat_numeral)
  let ?w = "demo_after 1\<lparr>w_rand := replicate 45 (CHR ''x'')\<rparr>"
  have "fake_inv (w_state (new_world (\<lambda>n. int n) []))" by (simp add: new_world_def fake_inv_NewFake)
  from create_key [OF demo_env_store rq(2,3) this] rq(1)
  have none: "serve CreateKey demo_env (demo_rq 6) (new_world (\<lambda>n. int n) []) =
      (RespError (FromResultCode ''err:registry:not_found''), new_world (\<lambda>n. int n) [])"
    by (simp add: new_world_def NewFake_def)
  have "status_of (w_state (demo_after 1)) (fakeID 1) = Some ''draft'' \<and> apiKeys (w_state (demo_after 1)) = []"
    by code_simp
  then obtain c where c: "map_of (clients (w_state ?w)) (fakeID 1) = Some c" "apiKeys (w_state ?w) = []"
    by (auto simp: status_of_def)
  obtain key prefix phc where k: "minted_key (e_idKey demo_env) (e_argonVersion demo_env) (replicate 45 (CHR ''x'')) = (key, prefix, phc)"
    by (cases "minted_key (e_idKey demo_env) (e_argonVersion demo_env) (replicate 45 (CHR ''x''))") auto
  have "fake_inv (w_state ?w)" using demo_after_inv by simp
  from create_key [OF demo_env_store rq(2,3) this] rq(1) c k
  have "serve CreateKey demo_env (demo_rq 6) ?w =
     (RespJSON 201 (JObj [(''clientId'', JStr (fakeID 1)), (''prefix'', JStr prefix), (''apiKey'', JStr key)]),
      demo_after 1\<lparr>w_rand := [], w_state := (w_state (demo_after 1))\<lparr>apiKeys :=
        [(fakeID 1, [\<lparr>ak_Prefix = prefix, ak_SecretHash = phc\<rparr>])]\<rparr>\<rparr>)"
    by (simp add: Mint_eq gomap_list_def Let_def)
  with none show ?thesis by blast
qed

section \<open>The presentation mode\<close>

text \<open>The policies the service itself writes: the one of a draft, and the flag alone.\<close>

definition own_policy :: "raw \<Rightarrow> bool" where
  "own_policy p \<longleftrightarrow> p \<in> {RawJSON (JObj []), RawJSON (JObj [(''require_signed_dcapi'', JBool True)]),
     RawJSON (JObj [(''require_signed_dcapi'', JBool False)])}"

definition own_policies :: "fake \<Rightarrow> bool" where
  "own_policies f \<longleftrightarrow> (\<forall>i c. fake_row f i = Some c \<longrightarrow> own_policy (cf_Policy c))"

lemma merge_own_policy:
  "own_policy p \<Longrightarrow> merge_policy p md = Inr (RawJSON (JObj [(''require_signed_dcapi'', JBool (md = ''signed''))]))"
  by (auto simp: own_policy_def merge_policy_def map_any_def marshal_map_def)

lemma own_policies_put:
  "own_policies f \<Longrightarrow> own_policy (cf_Policy c) \<Longrightarrow> fake_row g = (fake_row f)(i \<mapsto> c) \<Longrightarrow> own_policies g"
  by (simp add: own_policies_def)

lemma own_policies_same: "own_policies f \<Longrightarrow> fake_row g = fake_row f \<Longrightarrow> own_policies g"
  by (simp add: own_policies_def)

lemma move_own_policies:
  assumes "api_move f c" "fst (exec_call c f) = None" "own_policies f"
  shows "own_policies (snd (exec_call c f))"
proof -
  have own: "own_policy (cf_Policy r)" if "map_of (clients f) i = Some r" for i r
    using assms(3) that by (simp add: own_policies_def fake_row_def)
  show ?thesis
    using assms(1)
  proof (cases rule: api_move.cases)
    case (create nm em)
    with assms(3) show ?thesis
      by (auto simp: Fake_CreateDraftClient_def nextID_eq Let_def own_policies_def fake_row_def own_policy_def)
  next
    case (mode md i)
    with assms(2) own merge_own_policy show ?thesis
      by (intro own_policies_put [OF assms(3), of "(the (map_of (clients f) i))\<lparr>cf_Policy :=
            RawJSON (JObj [(''require_signed_dcapi'', JBool (md = ''signed''))])\<rparr>" _ i])
         (auto simp: Fake_SetClientDCAPIMode_def Let_def fake_row_def [of f] own_policy_def split: option.splits if_splits)
  qed (use assms(2,3) own in \<open>auto simp: op_defs Let_def own_policies_def fake_row_def split: option.splits if_splits\<close>)
qed

lemma serve_all_own_policies:
  assumes "e_Store e = FakeStore"
  shows "own_policies (w_state (serve_all reqs e (new_world clk b)))"
proof -
  have "api_run (w_state (new_world clk b)) (w_state (serve_all reqs e (new_world clk b)))"
    by (rule serve_all_run [OF assms]) (simp add: new_world_def fake_inv_NewFake)
  moreover have "own_policies g" if "api_run f g" "own_policies f" for f g
    using that by (induction rule: api_run.induct) (auto intro: move_own_policies simp del: exec_call.simps)
  ultimately show ?thesis by (simp add: new_world_def own_policies_def fake_row_def NewFake_def)
qed

lemma stored_mode: "storedDCAPIMode (RawJSON (JObj [(''require_signed_dcapi'', JBool b)])) = (if b then ''signed'' else ''unsigned'')"
proof -
  have "storedDCAPIMode (RawJSON (JObj [(''require_signed_dcapi'', JBool True)])) = ''signed''"
    "storedDCAPIMode (RawJSON (JObj [(''require_signed_dcapi'', JBool False)])) = ''unsigned''" by code_simp+
  then show ?thesis by (cases b) simp_all
qed

text \<open>
  C40 (the mode that is chosen is the mode that is read): on a service reached by any requests, a
  request that asks for a presentation mode of an existing client with the right key answers 200 and
  echoes, read back from the stored policy, the mode asked for; anything but the two modes is an
  error and changes nothing.
\<close>

theorem presentation_mode_round_trip:
  assumes "e_Store e = FakeStore" "rq_key rq = e_AdminAPIKey e" "e_AdminAPIKey e \<noteq> []"
    "unmarshal dec_apiDCAPIModeRequest None (rq_body rq) = Some (Some md)"
    "map_of (clients (w_state (serve_all reqs e (new_world clk b)))) (rq_id rq) = Some c"
  shows "if md = ''signed'' \<or> md = ''unsigned''
    then fst (serve SetDCAPIRequestMode e rq (serve_all reqs e (new_world clk b))) =
       RespJSON 200 (JObj [(''id'', JStr (rq_id rq)), (''state'', JStr (cf_Status c)), (''dcapiRequestMode'', JStr md)]) \<and>
     map_of (clients (w_state (snd (serve SetDCAPIRequestMode e rq (serve_all reqs e (new_world clk b)))))) (rq_id rq) =
       Some (c\<lparr>cf_Policy := RawJSON (JObj [(''require_signed_dcapi'', JBool (md = ''signed''))])\<rparr>)
    else \<exists>err. serve SetDCAPIRequestMode e rq (serve_all reqs e (new_world clk b)) =
       (RespError err, serve_all reqs e (new_world clk b))"
proof (cases "md = ''signed'' \<or> md = ''unsigned''")
  case True
  let ?w = "serve_all reqs e (new_world clk b)" and ?p = "RawJSON (JObj [(''require_signed_dcapi'', JBool (md = ''signed''))])"
  have "own_policy (cf_Policy c)"
    using serve_all_own_policies [OF assms(1), of reqs clk b] assms(5) by (simp add: own_policies_def fake_row_def)
  from merge_own_policy [OF this, of md] obtain g where
    g: "Fake_SetClientDCAPIMode (rq_id rq) md ''api'' (w_state ?w) = (Inr (), g)"
      "map_of (clients g) (rq_id rq) = Some (c\<lparr>cf_Policy := ?p\<rparr>)"
    using True assms(5) by (auto simp: Fake_SetClientDCAPIMode_def Let_def)
  have "storedDCAPIMode ?p = md" using True by (auto simp: stored_mode)
  with g True assms(1-4) have "serve SetDCAPIRequestMode e rq ?w = (RespJSON 200 (JObj [(''id'', JStr (rq_id rq)),
      (''state'', JStr (cf_Status c)), (''dcapiRequestMode'', JStr md)]), ?w\<lparr>w_state := g\<rparr>)"
    by (auto simp: authorised apiSetDCAPIRequestMode_def set_and_echo_def on_store_def fake_get fake_row_def statusOK_def)
  with g(2) True show ?thesis by simp
qed (use assms(1-4) in \<open>simp add: authorised apiSetDCAPIRequestMode_def invalidBody_def\<close>)

theorem presentation_mode_round_trip_witness:
  "\<exists>st. fst (serve SetDCAPIRequestMode demo_env (demo_request (body_of [(''dcapiRequestMode'', JStr ''unsigned'')])) (demo_after 1)) =
     RespJSON 200 (JObj [(''id'', JStr (fakeID 1)), (''state'', JStr st), (''dcapiRequestMode'', JStr ''unsigned'')])"
proof -
  let ?rq = "demo_request (body_of [(''dcapiRequestMode'', JStr ''unsigned'')])"
  have rq: "rq_key ?rq = e_AdminAPIKey demo_env" "e_AdminAPIKey demo_env \<noteq> []" "rq_id ?rq = fakeID 1"
    by (simp_all add: demo_request_def demo_env_def)
  have u: "unmarshal dec_apiDCAPIModeRequest None (rq_body ?rq) = Some (Some ''unsigned'')" by code_simp
  have "status_of (w_state (demo_after 1)) (fakeID 1) = Some ''draft''" by code_simp
  then obtain c where "map_of (clients (w_state (demo_after 1))) (rq_id ?rq) = Some c"
    unfolding rq(3) by (auto simp: status_of_def)
  from presentation_mode_round_trip [OF demo_env_store rq(1,2) u this [unfolded demo_after_def]]
  show ?thesis unfolding demo_after_def rq(3) by auto
qed

end
