(* ===== verification/Programs.thy ===== *)
theory Programs
  imports ServerFlows
begin

text \<open>
  Requests as programs.  The server handles requests concurrently; what is atomic is one store call
  (the in-memory store holds its mutex, a procedure is one transaction), the making of a key and the
  building of a document.  Here every handler is a program of such steps, so that the steps of several
  requests can be interleaved; run without interruption, the program of a request is \<open>serve\<close>.
\<close>

section \<open>Programs\<close>

datatype 's prog = Done response | Step "'s world \<Rightarrow> 's prog \<times> 's world"

primrec run_prog :: "'s prog \<Rightarrow> 's world \<Rightarrow> response \<times> 's world" where
  "run_prog (Done r) = (\<lambda>w. (r, w))"
| "run_prog (Step f) = (\<lambda>w. case (map_prod run_prog id \<circ> f) w of (g, w') \<Rightarrow> g w')"

text \<open>One atomic operation, then the rest.\<close>

definition atomically :: "('s world \<Rightarrow> 'a \<times> 's world) \<Rightarrow> ('a \<Rightarrow> 's prog) \<Rightarrow> 's prog" where
  "atomically op k = Step (\<lambda>w. case op w of (a, w') \<Rightarrow> (k a, w'))"

lemma run_atomically [simp]:
  "run_prog (atomically op k) w = (case op w of (a, w') \<Rightarrow> run_prog (k a) w')"
  by (simp add: atomically_def split: prod.split)

declare run_prog.simps(2) [simp del]

text \<open>A store call whose error is the answer.\<close>

definition storing :: "('s \<Rightarrow> 'a result \<times> 's) \<Rightarrow> ('a \<Rightarrow> 's prog) \<Rightarrow> 's prog" where
  "storing op k = atomically (on_store op) (\<lambda>r. case r of Inl err \<Rightarrow> Done (RespError err) | Inr v \<Rightarrow> k v)"

lemma run_storing [simp]:
  "run_prog (storing op k) w =
     (case on_store op w of (Inl err, w') \<Rightarrow> (RespError err, w') | (Inr v, w') \<Rightarrow> run_prog (k v) w')"
  by (simp add: storing_def split: prod.split sum.split)

section \<open>The lifecycle service\<close>

definition prog_flip ::
  "'s Service \<Rightarrow> string \<Rightarrow> string \<Rightarrow> string \<Rightarrow> string \<Rightarrow> string \<Rightarrow> (unit \<Rightarrow> 's prog) \<Rightarrow> 's prog" where
  "prog_flip s clientID toState actor evidenceRef reason k =
     storing (TransitionClient (sv_Store s) clientID toState actor evidenceRef reason)
       (\<lambda>_. if toState = stateOffboarded then storing (PurgeOffboarded (sv_Store s) clientID actor) k else k ())"

definition prog_check :: "'s Service \<Rightarrow> ClientFull \<Rightarrow> (unit \<Rightarrow> 's prog) \<Rightarrow> 's prog" where
  "prog_check s c k =
     (if cf_ClientIdentifier c = [] \<or> \<not> isAbsoluteHTTPSURL (cf_RegistryURI c)
      then Done (RespError registrarIdentityRequired)
      else storing (ListIntendedUses (sv_Store s) (cf_ID c))
        (\<lambda>ius. if \<not> anyNonRevoked ius then Done (RespError (intendedUseRequired (cf_ID c)))
               else if \<not> ts5OK s (cf_ID c) then Done (RespError ts5CheckFailed)
               else k ()))"

definition prog_Transition ::
  "'s Service \<Rightarrow> string \<Rightarrow> string \<Rightarrow> string \<Rightarrow> string \<Rightarrow> string \<Rightarrow> (unit \<Rightarrow> 's prog) \<Rightarrow> 's prog" where
  "prog_Transition s clientID toState actor evidenceRef reason k =
     (let flip = prog_flip s clientID toState actor evidenceRef reason k in
      if toState = stateActive \<or> toState = stateOffboarded then
        storing (GetClientFull (sv_Store s) clientID)
          (\<lambda>current.
             if toState = stateActive \<and> (cf_Status current = stateRegistered \<or> cf_Status current = stateSuspended)
             then prog_check s current (\<lambda>_. flip)
             else if toState = stateOffboarded \<and> cf_Status current = stateOffboarded
             then storing (PurgeOffboarded (sv_Store s) clientID actor) k
             else flip)
      else flip)"

text \<open>The answer after an operation of the service: its error, or what the continuation makes of its result.\<close>

definition answer :: "('a \<Rightarrow> 's prog) \<Rightarrow> 'a result \<times> 's world \<Rightarrow> response \<times> 's world" where
  "answer k p = (case p of (Inl err, w) \<Rightarrow> (RespError err, w) | (Inr v, w) \<Rightarrow> run_prog (k v) w)"

lemma answer_simps [simp]:
  "answer k (Inl err, w) = (RespError err, w)"
  "answer k (Inr v, w) = run_prog (k v) w"
  by (simp_all add: answer_def)

lemma run_storing_answer [simp]: "run_prog (storing op k) w = answer k (on_store op w)"
  by (simp add: answer_def)

declare run_storing [simp del]

lemma on_store_pair: "op (w_state w) = (r, s) \<Longrightarrow> on_store op w = (r, w\<lparr>w_state := s\<rparr>)"
  by (simp add: on_store_def)

lemma run_prog_flip:
  "run_prog (prog_flip s i st a ev rs k) w = answer k (on_store (flip_and_purge s i st a ev rs) w)"
proof -
  obtain q g where t: "TransitionClient (sv_Store s) i st a ev rs (w_state w) = (q, g)" by fastforce
  then show ?thesis
    by (cases q; cases "st = stateOffboarded"; cases "PurgeOffboarded (sv_Store s) i a g")
       (simp_all add: prog_flip_def flip_and_purge_def on_store_def)
qed

lemma run_prog_check:
  "run_prog (prog_check s c k) w = answer k (on_store (checkActivationPreconditions s c) w)"
proof -
  obtain q g where "ListIntendedUses (sv_Store s) (cf_ID c) (w_state w) = (q, g)" by fastforce
  then show ?thesis
    by (cases q) (simp_all add: prog_check_def checkActivationPreconditions_def on_store_def)
qed

lemma run_prog_Transition:
  "run_prog (prog_Transition s i st a ev rs k) w = answer k (on_store (Transition s i st a ev rs) w)"
proof (cases "st = stateActive \<or> st = stateOffboarded")
  case True
  obtain q g where t: "GetClientFull (sv_Store s) i (w_state w) = (q, g)" by fastforce
  show ?thesis
  proof (cases q)
    case (Inl err)
    with True t show ?thesis by (auto simp: prog_Transition_def Transition_def on_store_def Let_def)
  next
    case (Inr c)
    let ?w = "w\<lparr>w_state := g\<rparr>"
    obtain r h where chk: "checkActivationPreconditions s c g = (r, h)" by fastforce
    have differ: "stateActive \<noteq> stateOffboarded" by (simp add: state_defs)
    have "run_prog (prog_Transition s i st a ev rs k) w =
        answer k (on_store (transition_from s i st a ev rs c) ?w)"
      using True differ t Inr chk
      by (cases r) (auto simp: prog_Transition_def transition_from_def Let_def run_prog_flip run_prog_check on_store_def)
    also have "on_store (transition_from s i st a ev rs c) ?w = on_store (Transition s i st a ev rs) w"
      using True t Inr by (simp add: Transition_def on_store_def)
    finally show ?thesis .
  qed
qed (simp add: prog_Transition_def Transition_def [abs_def] run_prog_flip)

section \<open>The handlers\<close>

definition prog_apiListClients :: "'s env \<Rightarrow> request \<Rightarrow> 's prog" where
  "prog_apiListClients e rq = storing (ListClientsByState (e_Store e))
     (\<lambda>byState. Done (RespJSON statusOK (JArr (map apiClientSummary (listed_summaries (rq_state rq) byState)))))"

definition prog_apiCreateClient :: "'s env \<Rightarrow> request \<Rightarrow> 's prog" where
  "prog_apiCreateClient e rq =
     (case unmarshal dec_apiCreateRequest \<lparr>cq_Name = [], cq_ContactEmail = []\<rparr> (rq_body rq) of
        None \<Rightarrow> Done notJSON
      | Some req \<Rightarrow>
     if cq_Name req = [] then Done (invalidBody [WithDetail [Txt ''name is required'']])
     else storing (CreateDraftClient (e_Store e) (cq_Name req) (cq_ContactEmail req) ''api'')
       (\<lambda>i. storing (GetClientFull (e_Store e) i)
         (\<lambda>full. Done (RespJSON statusCreated (apiClientCreated full)))))"

definition prog_apiGetClient :: "'s env \<Rightarrow> request \<Rightarrow> 's prog" where
  "prog_apiGetClient e rq = storing (GetClientFull (e_Store e) (rq_id rq))
     (\<lambda>full. case apiClientDetail full of None \<Rightarrow> Done RespUnencodable | Some j \<Rightarrow> Done (RespJSON statusOK j))"

definition prog_apiTransition :: "'s env \<Rightarrow> request \<Rightarrow> 's prog" where
  "prog_apiTransition e rq =
     (case unmarshal dec_apiTransitionRequest \<lparr>tq_TargetState = [], tq_Reason = [], tq_EvidenceRef = []\<rparr> (rq_body rq) of
        None \<Rightarrow> Done notJSON
      | Some req \<Rightarrow>
     if tq_TargetState req = [] then Done (invalidBody [WithDetail [Txt ''targetState is required'']])
     else prog_Transition (NewService (e_Store e)) (rq_id rq) (tq_TargetState req) ''api''
            (tq_EvidenceRef req) (tq_Reason req)
       (\<lambda>_. Done (RespJSON statusOK (apiClientState (rq_id rq) (tq_TargetState req)))))"

definition prog_set_and_echo ::
  "('s \<Rightarrow> unit result \<times> 's) \<Rightarrow> (ClientFull \<Rightarrow> json) \<Rightarrow> 's env \<Rightarrow> request \<Rightarrow> 's prog" where
  "prog_set_and_echo op echo e rq = storing op
     (\<lambda>_. storing (GetClientFull (e_Store e) (rq_id rq))
       (\<lambda>full. Done (RespJSON statusOK (echo full))))"

definition prog_apiSetWebhook :: "'s env \<Rightarrow> request \<Rightarrow> 's prog" where
  "prog_apiSetWebhook e rq =
     (case unmarshal dec_apiWebhookRequest [] (rq_body rq) of
        None \<Rightarrow> Done notJSON
      | Some url \<Rightarrow>
     if url = [] then Done (invalidBody [WithDetail [Txt ''webhookUrl is required'']])
     else prog_set_and_echo (SetClientWebhook (e_Store e) (rq_id rq) url ''api'')
            (apiClientWebhookState (rq_id rq)) e rq)"

definition prog_apiSetAllowedOrigins :: "'s env \<Rightarrow> request \<Rightarrow> 's prog" where
  "prog_apiSetAllowedOrigins e rq =
     (case unmarshal dec_apiAllowedOriginsRequest None (rq_body rq) of
        None \<Rightarrow> Done notJSON
      | Some None \<Rightarrow>
          Done (invalidBody [WithPublicDetail [Txt (''allowedOrigins is required (send an empty array to '' @
             ''withdraw every origin)'')]])
      | Some (Some origins) \<Rightarrow>
     (case find (\<lambda>u. \<not> isWebOrigin u) origins of
        Some u \<Rightarrow>
          Done (invalidBody [WithPublicDetail [Txt ''allowedOrigins['', Quoted u, Txt (''] must be '' @
             ''https://host[:port] with no path, query, fragment or userinfo'')]])
      | None \<Rightarrow>
          prog_set_and_echo (SetClientAllowedOrigins (e_Store e) (rq_id rq) origins ''api'')
            (apiClientOriginsState (rq_id rq)) e rq))"

definition prog_apiSetDCAPIRequestMode :: "'s env \<Rightarrow> request \<Rightarrow> 's prog" where
  "prog_apiSetDCAPIRequestMode e rq =
     (case unmarshal dec_apiDCAPIModeRequest None (rq_body rq) of
        None \<Rightarrow> Done notJSON
      | Some None \<Rightarrow>
          Done (invalidBody [WithPublicDetail [Txt ''dcapiRequestMode is required (\"signed\" or \"unsigned\")'']])
      | Some (Some md) \<Rightarrow>
          if md \<noteq> ''signed'' \<and> md \<noteq> ''unsigned'' then
            Done (invalidBody [WithPublicDetail [Txt ''dcapiRequestMode '', Quoted md,
               Txt '' must be \"signed\" or \"unsigned\"'']])
          else
            prog_set_and_echo (SetClientDCAPIMode (e_Store e) (rq_id rq) md ''api'')
              (apiClientDCAPIModeState (rq_id rq)) e rq)"

definition prog_apiSetRegistrarIdentity :: "'s env \<Rightarrow> request \<Rightarrow> 's prog" where
  "prog_apiSetRegistrarIdentity e rq =
     (case unmarshal dec_apiRegistrarIdentityRequest \<lparr>ri_RegistryURI = [], ri_ClientIdentifier = []\<rparr> (rq_body rq) of
        None \<Rightarrow> Done notJSON
      | Some req \<Rightarrow>
     if ri_RegistryURI req = [] \<or> ri_ClientIdentifier req = [] then
       Done (invalidBody [WithDetail [Txt ''registryUri and clientIdentifier are required'']])
     else if \<not> isAbsoluteHTTPSURL_api (ri_RegistryURI req) then
       Done (invalidBody [WithDetail [Txt ''registryUri must be an absolute https URL'']])
     else storing (SetClientRegistrarIdentity (e_Store e) (rq_id rq) (ri_RegistryURI req)
            (ri_ClientIdentifier req) ''api'') (\<lambda>_. Done (RespStatus statusNoContent)))"

definition prog_apiSetRegistration :: "'s env \<Rightarrow> request \<Rightarrow> 's prog" where
  "prog_apiSetRegistration e rq =
     (case unmarshal dec_apiRegistrationRequest zero_apiRegistrationRequest (rq_body rq) of
        None \<Rightarrow> Done notJSON
      | Some req \<Rightarrow>
     atomically (build_in e (toFormState req)) (\<lambda>b. case b of
        Inl err \<Rightarrow> Done (RespError (NewProblem ''err:api:registrationInvalid'' [WithDetail [Wrapped err]]))
      | Inr (doc, ius) \<Rightarrow>
     (case e_marshalWRP e doc of
        Inl err \<Rightarrow> Done (RespError err)
      | Inr docJSON \<Rightarrow> storing (SaveWRPDocument (e_Store e) (rq_id rq) docJSON ius ''api'')
          (\<lambda>_. storing (GetClientFull (e_Store e) (rq_id rq))
            (\<lambda>full. Done (RespJSON statusOK (apiRegistrationResult (rq_id rq) (cf_Status full) (length ius))))))))"

definition prog_apiCreateKey :: "'s env \<Rightarrow> request \<Rightarrow> 's prog" where
  "prog_apiCreateKey e rq = storing (GetClientFull (e_Store e) (rq_id rq))
     (\<lambda>full. atomically (mint_in e) (\<lambda>m. case m of
        Inl err \<Rightarrow> Done (RespError err)
      | Inr (key, prefix, phc) \<Rightarrow> storing (CreateAPIKey (e_Store e) (cf_ID full) prefix phc)
          (\<lambda>_. Done (RespJSON statusCreated (apiKeyCreated (cf_ID full) prefix key)))))"

definition prog_health :: "'s handler \<Rightarrow> 's env \<Rightarrow> request \<Rightarrow> 's prog" where
  "prog_health h e rq = atomically (h e rq) Done"

fun prog_handle :: "endpoint \<Rightarrow> 's env \<Rightarrow> request \<Rightarrow> 's prog" where
  "prog_handle Healthz = prog_health healthz"
| "prog_handle Readyz = prog_health readyz"
| "prog_handle ListClients = prog_apiListClients"
| "prog_handle CreateClient = prog_apiCreateClient"
| "prog_handle GetClient = prog_apiGetClient"
| "prog_handle SetRegistrarIdentity = prog_apiSetRegistrarIdentity"
| "prog_handle SetRegistration = prog_apiSetRegistration"
| "prog_handle TransitionEndpoint = prog_apiTransition"
| "prog_handle SetWebhook = prog_apiSetWebhook"
| "prog_handle SetAllowedOrigins = prog_apiSetAllowedOrigins"
| "prog_handle SetDCAPIRequestMode = prog_apiSetDCAPIRequestMode"
| "prog_handle CreateKey = prog_apiCreateKey"

definition prog_serve :: "endpoint \<Rightarrow> 's env \<Rightarrow> request \<Rightarrow> 's prog" where
  "prog_serve ep e rq =
     (if ep \<in> {Healthz, Readyz} then prog_handle ep e rq
      else if e_AdminAPIKey e = [] \<or> rq_key rq \<noteq> e_AdminAPIKey e then Done (RespError UnauthorizedError)
      else prog_handle ep e rq)"

section \<open>A program that runs alone\<close>

text \<open>The handlers are written with the same case distinctions as their programs.\<close>

lemma answer_def': "answer k p = (case fst p of Inl err \<Rightarrow> (RespError err, snd p) | Inr v \<Rightarrow> run_prog (k v) (snd p))"
  by (cases p) (simp split: sum.split)

lemma run_set_and_echo:
  "run_prog (prog_set_and_echo op echo e rq) w = set_and_echo op echo e rq w"
  by (simp add: prog_set_and_echo_def set_and_echo_def answer_def' case_prod_beta split: sum.split)

lemma run_handlers:
  "run_prog (prog_apiListClients e rq) w = apiListClients e rq w"
  "run_prog (prog_apiCreateClient e rq) w = apiCreateClient e rq w"
  "run_prog (prog_apiGetClient e rq) w = apiGetClient e rq w"
  "run_prog (prog_apiSetWebhook e rq) w = apiSetWebhook e rq w"
  "run_prog (prog_apiSetRegistrarIdentity e rq) w = apiSetRegistrarIdentity e rq w"
  "run_prog (prog_apiSetDCAPIRequestMode e rq) w = apiSetDCAPIRequestMode e rq w"
  "run_prog (prog_apiSetAllowedOrigins e rq) w = apiSetAllowedOrigins e rq w"
  by (simp_all add: prog_apiListClients_def apiListClients_def prog_apiCreateClient_def apiCreateClient_def
      prog_apiGetClient_def apiGetClient_def prog_apiSetWebhook_def apiSetWebhook_def
      prog_apiSetRegistrarIdentity_def apiSetRegistrarIdentity_def prog_apiSetDCAPIRequestMode_def
      apiSetDCAPIRequestMode_def prog_apiSetAllowedOrigins_def apiSetAllowedOrigins_def run_set_and_echo
      answer_def' case_prod_beta split: sum.split option.split)

lemma run_apiTransition: "run_prog (prog_apiTransition e rq) w = apiTransition e rq w"
  by (simp add: prog_apiTransition_def apiTransition_def run_prog_Transition answer_def' case_prod_beta
      split: sum.split option.split)

lemma run_apiSetRegistration: "run_prog (prog_apiSetRegistration e rq) w = apiSetRegistration e rq w"
  by (simp add: prog_apiSetRegistration_def apiSetRegistration_def registration_stored_def answer_def' case_prod_beta
      split: sum.split option.split prod.split)

lemma run_apiCreateKey: "run_prog (prog_apiCreateKey e rq) w = apiCreateKey e rq w"
  by (simp add: prog_apiCreateKey_def apiCreateKey_def answer_def' case_prod_beta split: sum.split)

lemma run_handle: "run_prog (prog_handle ep e rq) w = handle ep e rq w"
  by (cases ep) (simp_all add: run_handlers run_apiTransition run_apiSetRegistration run_apiCreateKey prog_health_def
      case_prod_beta)

lemma run_serve: "run_prog (prog_serve ep e rq) w = serve ep e rq w"
  by (simp add: prog_serve_def serve_def requireAPIKey_def run_handle)

end
