(* ===== verification/Interleaving.thy ===== *)
theory Interleaving
  imports Programs
begin

text \<open>
  Concurrent requests on the in-memory store.  A schedule says which request arrives or makes its next
  atomic step; the theorems hold for every schedule.
\<close>

section \<open>Schedules\<close>

type_synonym 's thread = "endpoint \<times> request \<times> 's prog"

datatype event = Arrive endpoint request | Go nat

fun happen :: "'s env \<Rightarrow> event \<Rightarrow> 's thread list \<times> 's world \<Rightarrow> 's thread list \<times> 's world" where
  "happen e (Arrive ep rq) (ts, w) = (ts @ [(ep, rq, prog_serve ep e rq)], w)"
| "happen e (Go n) (ts, w) =
     (if n < length ts then
        (case ts ! n of
           (ep, rq, Done r) \<Rightarrow> (ts, w)
         | (ep, rq, Step f) \<Rightarrow> (case f w of (p, w') \<Rightarrow> (ts[n := (ep, rq, p)], w')))
      else (ts, w))"

definition happens :: "'s env \<Rightarrow> event list \<Rightarrow> 's thread list \<times> 's world \<Rightarrow> 's thread list \<times> 's world" where
  "happens e evs c = fold (happen e) evs c"

lemma happens_simps [simp]:
  "happens e [] c = c" "happens e (ev # evs) c = happens e evs (happen e ev c)"
  "happens e (evs @ evs') c = happens e evs' (happens e evs c)"
  by (simp_all add: happens_def)

section \<open>A request takes few steps\<close>

fun within :: "nat \<Rightarrow> 's prog \<Rightarrow> bool" where
  "within n (Done r) = True"
| "within 0 (Step f) = False"
| "within (Suc n) (Step f) = (\<forall>w. within n (fst (f w)))"

lemma within_atomically [simp]: "within (Suc n) (atomically op k) = (\<forall>w. within n (k (fst (op w))))"
  by (simp add: atomically_def case_prod_beta)

lemma within_storing: "(\<And>v. within n (k v)) \<Longrightarrow> within (Suc n) (storing op k)"
  by (simp add: storing_def split: sum.split)

lemma within_mono: "within n p \<Longrightarrow> n \<le> m \<Longrightarrow> within m p"
proof (induction n p arbitrary: m rule: within.induct)
  case (3 n f)
  then show ?case by (cases m) auto
qed simp_all

text \<open>Every step either stops or leaves at most \<open>n\<close> more; the final answers take none.\<close>

lemma within_flip: "(\<And>v. within 0 (k v)) \<Longrightarrow> within (if st = stateOffboarded then 2 else 1) (prog_flip s i st a ev rs k)"
  by (auto simp: prog_flip_def numeral_2_eq_2 intro!: within_storing intro: within_mono)

lemma within_Transition:
  assumes "\<And>v. within 0 (k v)" shows "within 3 (prog_Transition s i st a ev rs k)"
proof -
  note flip = within_flip [of k st s i a ev rs, OF assms]
  have active: "within 2 (prog_check s c (\<lambda>_. prog_flip s i st a ev rs k))" if "st = stateActive" for c
    using flip that by (auto simp: prog_check_def numeral_2_eq_2 state_defs intro!: within_storing)
  have purge: "within 2 (storing (PurgeOffboarded (sv_Store s) i a) k)"
    using assms by (auto simp: numeral_2_eq_2 intro!: within_storing intro: within_mono)
  have le: "within 2 (prog_flip s i st a ev rs k)" using flip by (auto intro: within_mono split: if_splits)
  show ?thesis
    unfolding prog_Transition_def Let_def numeral_3_eq_3
    using active purge le within_mono [OF le, of 3]
    by (auto simp: numeral_2_eq_2 numeral_3_eq_3 intro!: within_storing)
qed

lemma within_set_and_echo: "within 2 (prog_set_and_echo op echo e rq)"
  by (auto simp: prog_set_and_echo_def numeral_2_eq_2 intro!: within_storing)

lemma within_serve: "within 3 (prog_serve ep e rq)"
proof -
  have echo: "within 3 (prog_set_and_echo op echo e rq)" for op and echo
    by (rule within_mono [OF within_set_and_echo]) simp
  have "within 3 (prog_handle ep e rq)"
    by (cases ep)
       (auto simp: prog_health_def prog_apiListClients_def prog_apiCreateClient_def prog_apiGetClient_def
          prog_apiSetRegistrarIdentity_def prog_apiSetRegistration_def prog_apiTransition_def
          prog_apiSetWebhook_def prog_apiSetAllowedOrigins_def prog_apiSetDCAPIRequestMode_def prog_apiCreateKey_def
          notJSON_def numeral_3_eq_3 within_Transition [unfolded numeral_3_eq_3] echo [unfolded numeral_3_eq_3]
          intro!: within_storing split: option.split sum.split)
  then show ?thesis by (simp add: prog_serve_def)
qed

lemma within_Done: "within 0 p \<Longrightarrow> \<exists>r. p = Done r"
  by (cases p) simp_all

text \<open>How often a schedule lets the thread \<open>n\<close> go.\<close>

definition goes :: "nat \<Rightarrow> event list \<Rightarrow> nat" where
  "goes n evs = length (filter (\<lambda>ev. ev = Go n) evs)"

lemma goes_simps [simp]:
  "goes n [] = 0" "goes n (ev # evs) = (if ev = Go n then Suc (goes n evs) else goes n evs)"
  by (simp_all add: goes_def)

lemma happen_thread:
  assumes "n < length ts" "ts ! n = (ep, rq, p)" "happen e ev (ts, w) = (ts', w')"
  shows "n < length ts' \<and>
    ts' ! n = (ep, rq, case p of Step f \<Rightarrow> if ev = Go n then fst (f w) else p | Done r \<Rightarrow> p)"
proof (cases ev)
  case (Go m)
  obtain ep' rq' q where "ts ! m = (ep', rq', q)" by (cases "ts ! m")
  with Go assms show ?thesis
    by (cases q; cases "m = n") (auto split: if_splits prod.splits prog.split)
qed (use assms in \<open>auto simp: nth_append split: prog.split\<close>)

lemma happens_within:
  assumes "n < length ts" "ts ! n = (ep, rq, p)" "within m p" "happens e evs (ts, w) = (ts', w')"
  shows "n < length ts' \<and> (\<exists>q. ts' ! n = (ep, rq, q) \<and> within (m - goes n evs) q)"
  using assms
proof (induction evs arbitrary: ts w p m)
  case (Cons ev evs)
  obtain ts1 w1 where h: "happen e ev (ts, w) = (ts1, w1)" by fastforce
  define q where "q = (case p of Step f \<Rightarrow> if ev = Go n then fst (f w) else p | Done r \<Rightarrow> p)"
  from happen_thread [OF Cons.prems(1,2) h] have n: "n < length ts1" "ts1 ! n = (ep, rq, q)" by (simp_all add: q_def)
  have "within (if ev = Go n then m - 1 else m) q"
    using Cons.prems(3) by (cases p; cases m) (auto simp: q_def)
  from Cons.IH [OF n this] Cons.prems(4) h show ?case by (auto split: if_splits)
qed simp

lemma happens_done:
  "n < length ts \<Longrightarrow> ts ! n = (ep, rq, Done r) \<Longrightarrow> happens e evs (ts, w) = (ts', w') \<Longrightarrow>
     n < length ts' \<and> ts' ! n = (ep, rq, Done r)"
proof (induction evs arbitrary: ts w)
  case (Cons ev evs)
  obtain ts1 w1 where h: "happen e ev (ts, w) = (ts1, w1)" by fastforce
  from happen_thread [OF Cons.prems(1,2) h] Cons.IH [of ts1 w1] Cons.prems(3) h show ?case by simp
qed simp

text \<open>An invariant of the pool and the world holds after every schedule when every event keeps it.\<close>

lemma happens_invariant:
  assumes "I ts w" "\<And>ts w ev ts' w'. I ts w \<Longrightarrow> happen e ev (ts, w) = (ts', w') \<Longrightarrow> I ts' w'"
    "happens e evs (ts, w) = (ts', w')"
  shows "I ts' w'"
  using assms(1,3)
proof (induction evs arbitrary: ts w)
  case (Cons ev evs)
  obtain ts1 w1 where h: "happen e ev (ts, w) = (ts1, w1)" by fastforce
  from assms(2) [OF Cons.prems(1) h] Cons.IH [of ts1 w1] Cons.prems(2) h show ?case by simp
qed simp

text \<open>What an event does: a request arrives, a thread makes a step, or nothing happens.\<close>

lemma happen_cases:
  assumes "happen e ev (ts, w) = (ts', w')"
  obtains (arrive) ep rq where "ts' = ts @ [(ep, rq, prog_serve ep e rq)]" "w' = w"
  | (step) n ep rq f where "n < length ts" "ts ! n = (ep, rq, Step f)" "ts' = ts[n := (ep, rq, fst (f w))]" "w' = snd (f w)"
  | (idle) "ts' = ts" "w' = w"
proof (cases ev)
  case (Arrive ep rq)
  with assms show thesis by (intro that(1) [of ep rq]) simp_all
next
  case (Go m)
  obtain ep rq q where q: "ts ! m = (ep, rq, q)" by (cases "ts ! m")
  show thesis
  proof (cases q)
    case (Step f)
    with Go q assms that(2) [of m ep rq f] that(3) show thesis by (auto simp: case_prod_beta split: if_splits)
  qed (use Go q assms that(3) in \<open>auto split: if_splits\<close>)
qed

lemma set_pool_update: "t \<in> set (ts[n := x]) \<Longrightarrow> t = x \<or> t \<in> set ts"
  using set_update_subset_insert by fastforce

definition pool_within :: "'s thread list \<Rightarrow> bool" where
  "pool_within ts \<longleftrightarrow> (\<forall>ep rq p. (ep, rq, p) \<in> set ts \<longrightarrow> within 3 p)"

lemma pool_within_happen:
  assumes "pool_within ts" "happen e ev (ts, w) = (ts', w')" shows "pool_within ts'"
  using assms(2)
proof (cases rule: happen_cases)
  case (arrive ep rq)
  with assms(1) within_serve show ?thesis by (auto simp: pool_within_def)
next
  case (step n ep rq f)
  then have "within 3 (Step f)" using assms(1) nth_mem unfolding pool_within_def by metis
  then have "within 2 (fst (f w))" by (simp add: numeral_3_eq_3 numeral_2_eq_2)
  then have "within 3 (fst (f w))" by (rule within_mono) simp
  with step assms(1) show ?thesis by (auto simp: pool_within_def dest!: set_pool_update)
qed (use assms(1) in simp)

lemma pool_within_happens: "happens e evs ([], w) = (ts, w') \<Longrightarrow> pool_within ts"
  by (rule happens_invariant [where I = "\<lambda>ts _. pool_within ts"])
     (auto intro: pool_within_happen simp: pool_within_def [of "[]"])

text \<open>
  C29 (no request waits for another): whatever the schedule, a request that has arrived is answered as
  soon as it has made three steps of its own, and the answer is final.  No handler retries or waits.
\<close>

theorem answered_in_three_steps:
  assumes "happens e evs ([], w) = (ts, w1)" "n < length ts" "3 \<le> goes n evs'" "happens e evs' (ts, w1) = (ts', w2)"
  shows "\<exists>ep rq p r. ts ! n = (ep, rq, p) \<and> ts' ! n = (ep, rq, Done r) \<and>
    fst (happens e evs'' (ts', w2)) ! n = (ep, rq, Done r)"
proof -
  obtain ep rq p where p: "ts ! n = (ep, rq, p)" by (cases "ts ! n")
  have "within 3 p" using pool_within_happens [OF assms(1)] nth_mem [OF assms(2)] p by (auto simp: pool_within_def)
  from happens_within [OF assms(2) p this assms(4)] assms(3) obtain q where
    q: "n < length ts'" "ts' ! n = (ep, rq, q)" "within 0 q" by auto
  then obtain r where r: "q = Done r" using within_Done by blast
  have "fst (happens e evs'' (ts', w2)) ! n = (ep, rq, Done r)"
    using happens_done [OF q(1) q(2) [unfolded r], of e evs'' w2] by (cases "happens e evs'' (ts', w2)") simp
  with p q r show ?thesis by blast
qed

theorem answered_in_three_steps_witness:
  "\<exists>r. fst (happens demo_env [Arrive CreateClient (demo_request RawNil), Arrive Healthz (demo_request RawNil),
       Go 0, Go 1, Go 0, Go 1, Go 0] ([], new_world (\<lambda>n. int n) [])) ! 0 = (CreateClient, demo_request RawNil, Done r)"
proof -
  let ?w = "new_world (\<lambda>n. int n) []" and ?as = "[Arrive CreateClient (demo_request RawNil), Arrive Healthz (demo_request RawNil)]"
    and ?gs = "[Go 0, Go 1, Go 0, Go 1, Go 0]"
  obtain ts w where a: "happens demo_env ?as ([], ?w) = (ts, w)" by fastforce
  obtain ts' w' where g: "happens demo_env ?gs (ts, w) = (ts', w')" by fastforce
  from a have "ts ! 0 = (CreateClient, demo_request RawNil, prog_serve CreateClient demo_env (demo_request RawNil))" "0 < length ts"
    by auto
  with answered_in_three_steps [OF a _ _ g, of 0 "[]"]
  obtain r where "ts' ! 0 = (CreateClient, demo_request RawNil, Done r)" by auto
  moreover have "happens demo_env (?as @ ?gs) ([], ?w) = (ts', w')" using a g by (simp only: happens_simps(3))
  ultimately show ?thesis by (intro exI [of _ r]) (simp del: happens_simps(2))
qed

section \<open>A request that runs alone\<close>

lemma run_alone:
  "within m p \<Longrightarrow> n < length ts \<Longrightarrow> ts ! n = (ep, rq, p) \<Longrightarrow> happens e (replicate m (Go n)) (ts, w) =
     (ts[n := (ep, rq, Done (fst (run_prog p w)))], snd (run_prog p w))"
proof (induction m p arbitrary: ts w rule: within.induct)
  case (1 m r)
  then have "ts[n := (ep, rq, Done r)] = ts" by (metis list_update_id)
  moreover have "happens e (replicate m (Go n)) (ts, w) = (ts, w)" using 1 by (induction m) simp_all
  ultimately show ?case by simp
next
  case (3 m f)
  obtain p' w' where f: "f w = (p', w')" by fastforce
  with 3 have "happens e (replicate m (Go n)) (ts[n := (ep, rq, p')], w') =
      (ts[n := (ep, rq, p'), n := (ep, rq, Done (fst (run_prog p' w')))], snd (run_prog p' w'))"
    by (metis (no_types, lifting) fst_conv length_list_update nth_list_update_eq within.simps(3))
  with f 3(3,4) show ?case by (simp add: run_prog.simps(2))
qed simp


text \<open>Requests that arrive one after the other, each when the one before it was answered.\<close>

fun in_turn :: "nat \<Rightarrow> (endpoint \<times> request) list \<Rightarrow> event list" where
  "in_turn n [] = []"
| "in_turn n ((ep, rq) # reqs) = [Arrive ep rq, Go n, Go n, Go n] @ in_turn (Suc n) reqs"

lemma in_turn_serve_all:
  "\<exists>ts'. happens e (in_turn (length ts) reqs) (ts, w) = (ts', serve_all reqs e w)"
proof (induction reqs e w arbitrary: ts rule: serve_all.induct)
  case (2 ep rq reqs e w)
  let ?t = "(ep, rq, Done (fst (serve ep e rq w)))"
  have "happens e [Arrive ep rq, Go (length ts), Go (length ts), Go (length ts)] (ts, w) = (ts @ [?t], snd (serve ep e rq w))"
    using run_alone [OF within_serve [of ep e rq], of "length ts" "ts @ [(ep, rq, prog_serve ep e rq)]" ep rq e w]
    by (simp add: numeral_3_eq_3 run_serve)
  with 2 [of "ts @ [?t]"] show ?case by simp
qed simp

end
