(* ===== verification/Concurrency.thy ===== *)
theory Concurrency
  imports Interleaving
begin

text \<open>
  What concurrent requests can and cannot do to the in-memory store: the log, the URLs and the
  lifecycle are safe under every schedule; the activation gate is safe as long as nobody registers a
  client while another request activates it, and can be passed by otherwise.
\<close>

section \<open>The calls of a program\<close>

definition moves :: "(fake \<Rightarrow> store_call \<Rightarrow> bool) \<Rightarrow> fake \<Rightarrow> fake \<Rightarrow> bool" where
  "moves M f g \<longleftrightarrow> g = f \<or> (\<exists>c. M f c \<and> fst (exec_call c f) = None \<and> g = snd (exec_call c f))"

inductive makes :: "(fake \<Rightarrow> store_call \<Rightarrow> bool) \<Rightarrow> fake prog \<Rightarrow> bool" for M where
  makes_Done: "makes M (Done r)"
| makes_Step: "(\<And>w. fake_inv (w_state w) \<Longrightarrow> moves M (w_state w) (w_state (snd (f w)))) \<Longrightarrow>
    (\<And>w. fake_inv (w_state w) \<Longrightarrow> makes M (fst (f w))) \<Longrightarrow> makes M (Step f)"

inductive_cases makes_StepE: "makes M (Step f)"

declare makes_Done [simp]

lemma on_store_eq: "on_store op w = (fst (op (w_state w)), w\<lparr>w_state := snd (op (w_state w))\<rparr>)"
  by (simp add: on_store_def case_prod_beta)

lemma makes_atomically:
  assumes "\<And>w. fake_inv (w_state w) \<Longrightarrow> moves M (w_state w) (w_state (snd (op w)))"
    "\<And>w. fake_inv (w_state w) \<Longrightarrow> makes M (k (fst (op w)))"
  shows "makes M (atomically op k)"
  unfolding atomically_def by (rule makes_Step) (use assms in \<open>simp_all add: case_prod_beta\<close>)

lemma makes_read:
  assumes "\<And>f. snd (op f) = f" "\<And>v. makes M (k v)" shows "makes M (storing op k)"
  unfolding storing_def
  by (rule makes_atomically) (use assms in \<open>simp_all add: on_store_eq moves_def split: sum.split\<close>)

lemma makes_call:
  assumes "\<And>f. exec_call c f = outcome (op f)" "\<And>f. fake_inv f \<Longrightarrow> M f c" "\<And>v. makes M (k v)"
  shows "makes M (storing op k)"
  unfolding storing_def
proof (rule makes_atomically)
  fix w :: "fake world" assume inv: "fake_inv (w_state w)"
  let ?f = "w_state w"
  have "snd (exec_call c ?f) = snd (op ?f)" "fst (exec_call c ?f) = None \<or> snd (exec_call c ?f) = ?f"
    using assms(1) exec_call_error_frame [of c ?f] by (auto simp del: exec_call.simps simp: outcome_def split: sum.splits)
  then show "moves M ?f (w_state (snd (on_store op w)))"
    using assms(2) [OF inv] by (auto simp: on_store_eq moves_def simp del: exec_call.simps)
qed (use assms(3) in \<open>simp split: sum.split\<close>)

section \<open>The calls of a request\<close>

text \<open>The target of a transition request, as the handler reads it.\<close>

definition target :: "request \<Rightarrow> string option" where
  "target rq = map_option tq_TargetState
     (unmarshal dec_apiTransitionRequest \<lparr>tq_TargetState = [], tq_Reason = [], tq_EvidenceRef = []\<rparr> (rq_body rq))"

text \<open>A request makes the calls its handler allows; transitions only the transition endpoint, of the
  client and to the state the request names, and without the gate.\<close>

definition thread_move :: "endpoint \<Rightarrow> request \<Rightarrow> fake \<Rightarrow> store_call \<Rightarrow> bool" where
  "thread_move ep rq f c \<longleftrightarrow>
     (if \<exists>i st a ev rs. c = CallTransition i st a ev rs
      then ep = TransitionEndpoint \<and> (\<exists>st ev rs. c = CallTransition (rq_id rq) st ''api'' ev rs \<and> target rq = Some st)
      else api_move f c)"

lemma reads [simp]:
  "snd (Fake_GetClientFull i f) = f" "snd (Fake_ListIntendedUses i f) = f" "snd (Fake_ListClientsByState f) = f"
  by (simp_all add: fake_get fake_list Fake_ListClientsByState_def Let_def)

lemma makes_set_and_echo:
  assumes "e_Store e = FakeStore" "\<And>f. exec_call c f = outcome (op f)" "\<And>f. fake_inv f \<Longrightarrow> M f c"
  shows "makes M (prog_set_and_echo op echo e rq)"
  unfolding prog_set_and_echo_def
  by (rule makes_call [of c op M, OF assms(2,3)]) (simp_all add: assms(1) makes_read)

lemma thread_move_other: "api_move f c \<Longrightarrow> (\<And>i st a ev rs. c \<noteq> CallTransition i st a ev rs) \<Longrightarrow> thread_move ep rq f c"
  by (simp add: thread_move_def)

lemma makes_flip:
  assumes "sv_Store s = FakeStore" "target rq = Some st" "\<And>v. makes (thread_move TransitionEndpoint rq) (k v)"
  shows "makes (thread_move TransitionEndpoint rq) (prog_flip s (rq_id rq) st ''api'' ev rs k)"
proof -
  let ?M = "thread_move TransitionEndpoint rq"
  have "makes ?M (storing (Fake_PurgeOffboarded (rq_id rq) ''api'') k)"
    by (rule makes_call [OF _ _ assms(3), of "CallPurgeOffboarded (rq_id rq) ''api''"])
       (auto intro: thread_move_other api_move.purge)
  then show ?thesis
    unfolding prog_flip_def using assms
    by (intro makes_call [where c = "CallTransition (rq_id rq) st ''api'' ev rs"]) (auto simp: thread_move_def)
qed

lemma makes_Transition:
  assumes "sv_Store s = FakeStore" "target rq = Some st" "\<And>v. makes (thread_move TransitionEndpoint rq) (k v)"
  shows "makes (thread_move TransitionEndpoint rq) (prog_Transition s (rq_id rq) st ''api'' ev rs k)"
proof -
  let ?M = "thread_move TransitionEndpoint rq"
  note flip = makes_flip [OF assms]
  have "makes ?M (storing (Fake_PurgeOffboarded (rq_id rq) ''api'') k)"
    by (rule makes_call [OF _ _ assms(3), of "CallPurgeOffboarded (rq_id rq) ''api''"])
       (auto intro: thread_move_other api_move.purge)
  moreover have "makes ?M (prog_check s c (\<lambda>_. prog_flip s (rq_id rq) st ''api'' ev rs k))" for c
    using flip assms(1) by (simp add: prog_check_def makes_read)
  ultimately show ?thesis
    using flip assms(1) by (auto simp: prog_Transition_def Let_def state_defs intro!: makes_read)
qed

text \<open>Every program of a request makes only its calls.\<close>

lemma makes_handle:
  assumes "e_Store e = FakeStore"
  shows "makes (thread_move ep rq) (prog_handle ep e rq)"
proof (cases ep)
  case TransitionEndpoint
  have "makes (thread_move TransitionEndpoint rq) (prog_Transition (NewService FakeStore) (rq_id rq) st ''api'' ev rs (\<lambda>_. Done r))"
    if "target rq = Some st" for st ev rs r
    by (rule makes_Transition) (simp_all add: NewService_def that)
  then show ?thesis
    using assms TransitionEndpoint
    by (auto simp: prog_apiTransition_def target_def notJSON_def split: option.split)
next
  case SetRegistration
  have mv: "makes (thread_move SetRegistration rq) (storing (Fake_SaveWRPDocument (rq_id rq) doc ius ''api'') k)"
    if "ius \<noteq> []" "\<forall>iu \<in> set ius. iu_ID iu = [] \<and> iu_RevokedAt iu = []" "\<And>v. makes (thread_move SetRegistration rq) (k v)"
    for doc ius k
    by (rule makes_call [of "CallSaveWRPDocument (rq_id rq) doc ius ''api''"])
       (use that in \<open>auto intro!: thread_move_other api_move.save\<close>)
  have built: "makes (thread_move SetRegistration rq)
      (case fst (build_in e (toFormState req) w) of
         Inl err \<Rightarrow> Done (RespError (NewProblem ''err:api:registrationInvalid'' [WithDetail [Wrapped err]]))
       | Inr (doc, ius) \<Rightarrow>
      (case e_marshalWRP e doc of
         Inl err \<Rightarrow> Done (RespError err)
       | Inr docJSON \<Rightarrow> storing (SaveWRPDocument (e_Store e) (rq_id rq) docJSON ius ''api'')
           (\<lambda>_. storing (GetClientFull (e_Store e) (rq_id rq))
             (\<lambda>full. Done (RespJSON statusOK (apiRegistrationResult (rq_id rq) (cf_Status full) (length ius)))))))" for req w
  proof (cases "fst (build_in e (toFormState req) w)")
    case (Inr p)
    obtain doc ius where p: "p = (doc, ius)" by (cases p)
    obtain n' where "Build (e_marshalPurpose e) (e_ulid e) (e_clock e (w_ticks w)) (toFormState req) (w_ulids w)
        = (Inr (doc, ius), n')"
      using Inr p by (auto simp: build_in_def split: prod.splits)
    from Build_projections [OF this] Inr p show ?thesis
      by (auto simp: makes_read assms split: sum.split intro!: mv)
  qed simp
  have state: "w_state (snd (build_in e fs w)) = w_state w" for fs w by (simp add: build_in_def split: prod.split)
  show ?thesis
    using assms SetRegistration built
    by (auto simp: prog_apiSetRegistration_def notJSON_def moves_def state split: option.split intro!: makes_atomically)
next
  case CreateKey
  have "makes (thread_move CreateKey rq) (storing (Fake_CreateAPIKey i p h) k)"
    if "\<And>v. makes (thread_move CreateKey rq) (k v)" for i p h k
    by (rule makes_call [of "CallCreateAPIKey i p h"]) (use that in \<open>auto intro: thread_move_other api_move.key\<close>)
  moreover have "w_state (snd (mint_in e w)) = w_state w" for w by (simp add: mint_in_def split: prod.split)
  ultimately show ?thesis
    using assms CreateKey
    by (auto simp: prog_apiCreateKey_def moves_def split: sum.split intro!: makes_read makes_atomically)
next
  case SetRegistrarIdentity
  have "makes (thread_move SetRegistrarIdentity rq) (storing (Fake_SetClientRegistrarIdentity (rq_id rq) u ci ''api'') k)"
    if "ci \<noteq> []" "isAbsoluteHTTPSURL u" "\<And>v. makes (thread_move SetRegistrarIdentity rq) (k v)" for u ci k
    by (rule makes_call [of "CallSetRegistrarIdentity (rq_id rq) u ci ''api''"])
       (use that in \<open>auto intro: thread_move_other api_move.identity\<close>)
  with assms SetRegistrarIdentity show ?thesis
    by (auto simp: prog_apiSetRegistrarIdentity_def notJSON_def https_checks_agree split: option.split)
next
  case CreateClient
  have "makes (thread_move CreateClient rq) (storing (Fake_CreateDraftClient nm em ''api'') k)"
    if "nm \<noteq> []" "\<And>v. makes (thread_move CreateClient rq) (k v)" for nm em k
    by (rule makes_call [of "CallCreateDraft nm em ''api''"])
       (use that in \<open>auto intro: thread_move_other api_move.create\<close>)
  with assms CreateClient show ?thesis
    by (auto simp: prog_apiCreateClient_def notJSON_def makes_read split: option.split)
next
  case SetWebhook
  have "makes (thread_move SetWebhook rq) (prog_set_and_echo (Fake_SetClientWebhook (rq_id rq) u ''api'') echo e rq)"
    if "u \<noteq> []" for u echo
    by (rule makes_set_and_echo [OF assms, of "CallSetWebhook (rq_id rq) u ''api''"])
       (use that in \<open>auto intro: thread_move_other api_move.webhook\<close>)
  with assms SetWebhook show ?thesis by (auto simp: prog_apiSetWebhook_def notJSON_def split: option.split)
next
  case SetAllowedOrigins
  have "makes (thread_move SetAllowedOrigins rq) (prog_set_and_echo (Fake_SetClientAllowedOrigins (rq_id rq) os ''api'') echo e rq)"
    if "find (\<lambda>u. \<not> isWebOrigin u) os = None" for os echo
    by (rule makes_set_and_echo [OF assms, of "CallSetAllowedOrigins (rq_id rq) os ''api''"])
       (use that in \<open>auto simp: find_None_iff intro: thread_move_other api_move.origins\<close>)
  with assms SetAllowedOrigins show ?thesis
    by (auto simp: prog_apiSetAllowedOrigins_def notJSON_def split: option.split)
next
  case SetDCAPIRequestMode
  have "makes (thread_move SetDCAPIRequestMode rq) (prog_set_and_echo (Fake_SetClientDCAPIMode (rq_id rq) md ''api'') echo e rq)"
    if "md = ''signed'' \<or> md = ''unsigned''" for md echo
    by (rule makes_set_and_echo [OF assms, of "CallSetDCAPIMode (rq_id rq) md ''api''"])
       (use that in \<open>auto intro: thread_move_other api_move.mode\<close>)
  with assms SetDCAPIRequestMode show ?thesis
    by (auto simp: prog_apiSetDCAPIRequestMode_def notJSON_def split: option.split)
qed (use assms in \<open>auto simp: prog_health_def prog_apiListClients_def prog_apiGetClient_def healthz_def readyz_def
  moves_def split: option.split intro!: makes_read makes_atomically\<close>)

lemma makes_serve:
  assumes "e_Store e = FakeStore" shows "makes (thread_move ep rq) (prog_serve ep e rq)"
  using makes_handle [OF assms] by (auto simp: prog_serve_def)

section \<open>Under every schedule\<close>

definition logged_ok :: "fake \<Rightarrow> bool" where
  "logged_ok f \<longleftrightarrow> fake_inv f \<and> history_ok f \<and> all_urls_ok f \<and> (\<forall>en \<in> set (auditLog f). ae_Actor en = ''api'')"

lemma serving_ok_logged: "serving_ok f \<longleftrightarrow> logged_ok f \<and> onboarded_ok f"
  by (auto simp: serving_ok_def logged_ok_def)

lemma thread_move_plain:
  "thread_move ep rq f c \<Longrightarrow> plain_call c \<and> call_actor c \<in> {''api'', []} \<and> (call_action c \<noteq> None \<longrightarrow> call_actor c = ''api'')"
  by (auto simp: thread_move_def plain_call_def split: if_splits elim!: api_move_cases)

lemma logged_ok_call:
  assumes "logged_ok f" "thread_move ep rq f c" "fst (exec_call c f) = None"
  shows "logged_ok (snd (exec_call c f))"
proof -
  note f = assms(1) [unfolded logged_ok_def]
  have "history_ok (snd (exec_call c f))"
    using history_ok_step f exec_call_step thread_move_plain [OF assms(2)] by blast
  moreover have "\<forall>en \<in> set (auditLog (snd (exec_call c f))). ae_Actor en = ''api''"
    using f exec_call_audits [OF assms(3)] thread_move_plain [OF assms(2)]
    by (cases "call_action c") (auto simp: audits_def simp del: exec_call.simps)
  ultimately show ?thesis
    using f exec_call_inv exec_call_urls by (simp add: logged_ok_def del: exec_call.simps)
qed

lemma logged_ok_new: "logged_ok (NewFake clk)"
  using serving_ok_new by (simp add: serving_ok_logged)

definition pool_makes :: "fake thread list \<Rightarrow> bool" where
  "pool_makes ts \<longleftrightarrow> (\<forall>ep rq p. (ep, rq, p) \<in> set ts \<longrightarrow> makes (thread_move ep rq) p)"

lemma pool_makesD:
  assumes "pool_makes ts" "n < length ts" "ts ! n = (ep, rq, Step f)" "fake_inv (w_state w)"
  shows "moves (thread_move ep rq) (w_state w) (w_state (snd (f w)))" "makes (thread_move ep rq) (fst (f w))"
proof -
  have "makes (thread_move ep rq) (Step f)" using assms(1-3) nth_mem unfolding pool_makes_def by metis
  then show "moves (thread_move ep rq) (w_state w) (w_state (snd (f w)))" "makes (thread_move ep rq) (fst (f w))"
    using assms(4) by (auto elim!: makes_StepE)
qed

lemma pool_makes_happen:
  assumes "e_Store e = FakeStore" "pool_makes ts" "fake_inv (w_state w)" "happen e ev (ts, w) = (ts', w')"
  shows "pool_makes ts'"
  using assms(4)
proof (cases rule: happen_cases)
  case (arrive ep rq)
  with assms(2) makes_serve [OF assms(1)] show ?thesis by (auto simp: pool_makes_def)
next
  case (step n ep rq f)
  from pool_makesD(2) [OF assms(2) step(1,2) assms(3)] step(3) assms(2) show ?thesis
    by (auto simp: pool_makes_def dest!: set_pool_update)
qed (use assms(2) in simp)

lemma logged_ok_happen:
  assumes "pool_makes ts" "logged_ok (w_state w)" "happen e ev (ts, w) = (ts', w')"
  shows "logged_ok (w_state w')"
  using assms(3)
proof (cases rule: happen_cases)
  case (step n ep rq f)
  have "fake_inv (w_state w)" using assms(2) by (simp add: logged_ok_def)
  from pool_makesD(1) [OF assms(1) step(1,2) this] step(4) assms(2) show ?thesis
    by (auto simp: moves_def intro: logged_ok_call simp del: exec_call.simps)
qed (use assms(2) in simp_all)

lemma concurrent_logged:
  assumes "e_Store e = FakeStore" "happens e evs ([], new_world clk b) = (ts, w)"
  shows "pool_makes ts \<and> logged_ok (w_state w)"
proof (rule happens_invariant [where I = "\<lambda>ts w. pool_makes ts \<and> logged_ok (w_state w)", OF _ _ assms(2)])
  show "pool_makes [] \<and> logged_ok (w_state (new_world clk b))"
    by (simp add: pool_makes_def new_world_def logged_ok_new)
next
  fix ts w ev ts' w'
  assume I: "pool_makes ts \<and> logged_ok (w_state w)" and h: "happen e ev (ts, w) = (ts', w')"
  then have "fake_inv (w_state w)" by (simp add: logged_ok_def)
  with I pool_makes_happen [OF assms(1) _ _ h] logged_ok_happen [OF _ _ h]
  show "pool_makes ts' \<and> logged_ok (w_state w')" by blast
qed

text \<open>
  C14 (what no race can break): after any schedule of any requests, in which their steps interleave
  freely, the store invariant holds, the transition entries of each client in the audit log form a
  legal path from draft to its present status, every audit entry names the actor \<^verbatim>\<open>api\<close>, and every
  stored webhook and origin matches its pattern.
\<close>

theorem concurrent_log:
  assumes "e_Store e = FakeStore" "happens e evs ([], new_world clk b) = (ts, w)" "status_of (w_state w) i = Some t"
  shows "legal_path ''draft'' (history i (w_state w)) t \<and> fake_inv (w_state w) \<and> all_urls_ok (w_state w) \<and>
    (\<forall>en \<in> set (auditLog (w_state w)). ae_Actor en = ''api'')"
  using concurrent_logged [OF assms(1,2)] history_ok_path assms(3) by (auto simp: logged_ok_def)

theorem concurrent_log_witness:
  "\<exists>ts w. happens demo_env (in_turn 0 demo_requests) ([], new_world (\<lambda>n. int n) []) = (ts, w) \<and>
     legal_path ''draft'' (history (fakeID 1) (w_state w)) ''active''"
proof -
  obtain ts where "happens demo_env (in_turn 0 demo_requests) ([], new_world (\<lambda>n. int n) []) =
      (ts, serve_all demo_requests demo_env (new_world (\<lambda>n. int n) []))"
    using in_turn_serve_all [of demo_env "[]"] by auto
  from concurrent_log [OF demo_env_store this demo_served] this show ?thesis by blast
qed

end
