(* ===== verification/GateRace.thy ===== *)
theory GateRace
  imports Concurrency
begin

text \<open>
  The activation gate under concurrent requests.  The service reads the client, checks it and then
  calls the transition; between these calls other requests go on.  What is checked stays true, but
  whether it has to be checked does not: a client that is registered while it is being activated
  becomes active without any check.
\<close>

section \<open>The race\<close>

definition fit :: "string \<Rightarrow> fake \<Rightarrow> bool" where
  "fit i f \<longleftrightarrow> identified i f \<and> in_use_for i f"

text \<open>An authorised transition request is the program of the service's transition.\<close>

lemma prog_serve_transition:
  assumes "e_Store e = FakeStore" "e_AdminAPIKey e \<noteq> []" "rq_key rq = e_AdminAPIKey e" "target rq = Some st" "st \<noteq> []"
  obtains ev rs where "prog_serve TransitionEndpoint e rq =
    prog_Transition (NewService FakeStore) (rq_id rq) st ''api'' ev rs
      (\<lambda>_. Done (RespJSON statusOK (JObj [(''id'', JStr (rq_id rq)), (''state'', JStr st)])))"
  using assms
  by (auto simp: target_def prog_serve_def prog_apiTransition_def)

text \<open>
  C3 (the activation gate can be raced): whenever a client is filed with its registrar, two overlapping
  requests, one to register it and one to activate it, can both succeed and leave it active with
  whatever identity and intended uses it had, none included: the activation reads the client while it
  is filed and finds nothing to check, and the registration makes the transition legal before it is
  called.  One after the other, in either order, they cannot.
\<close>

theorem activation_race:
  assumes "e_Store e = FakeStore" "e_AdminAPIKey e \<noteq> []"
    "rq_key rqa = e_AdminAPIKey e" "target rqa = Some ''active''" "rq_id rqa = i"
    "rq_key rqr = e_AdminAPIKey e" "target rqr = Some ''registered''" "rq_id rqr = i"
    "map_of (clients (w_state w)) i = Some c" "cf_Status c = ''filed_with_registrar''"
  shows "\<exists>w' ja jr. happens e [Arrive TransitionEndpoint rqa, Arrive TransitionEndpoint rqr, Go 0, Go 1, Go 0] ([], w) =
      ([(TransitionEndpoint, rqa, Done (RespJSON statusOK ja)), (TransitionEndpoint, rqr, Done (RespJSON statusOK jr))], w') \<and>
    map_of (clients (w_state w')) i = Some (c\<lparr>cf_Status := ''active''\<rparr>) \<and>
    listed_uses i (w_state w') = listed_uses i (w_state w)"
proof -
  obtain eva rsa where pa: "prog_serve TransitionEndpoint e rqa =
      prog_Transition (NewService FakeStore) i ''active'' ''api'' eva rsa
        (\<lambda>_. Done (RespJSON statusOK (JObj [(''id'', JStr i), (''state'', JStr ''active'')])))"
    using prog_serve_transition [OF assms(1-4)] assms(5) by auto
  obtain evr rsr where pr: "prog_serve TransitionEndpoint e rqr =
      prog_Transition (NewService FakeStore) i ''registered'' ''api'' evr rsr
        (\<lambda>_. Done (RespJSON statusOK (JObj [(''id'', JStr i), (''state'', JStr ''registered'')])))"
    using prog_serve_transition [OF assms(1,2,6,7)] assms(8) by auto
  have row: "fake_row (w_state w) i = Some c" using assms(9) by (simp add: fake_row_def)
  obtain g where g: "Fake_TransitionClient i ''registered'' ''api'' evr rsr (w_state w) = (Inr (), g)"
    "fake_row g i = Some (c\<lparr>cf_Status := ''registered''\<rparr>)" "fake_uses g = fake_uses (w_state w)"
    using row assms(10) by (simp add: fake_transition legalTransitions_def)
  obtain h where h: "Fake_TransitionClient i ''active'' ''api'' eva rsa g = (Inr (), h)"
    "fake_row h i = Some (c\<lparr>cf_Status := ''active''\<rparr>)" "fake_uses h = fake_uses g"
    using g(2) by (simp add: fake_transition legalTransitions_def)
  have "fake_uses h i = fake_uses (w_state w) i" using h(3) g(3) by simp
  then have "map_of (clients h) i = Some (c\<lparr>cf_Status := ''active''\<rparr>)" "listed_uses i h = listed_uses i (w_state w)"
    using h(2) by (simp_all add: fake_row_def fake_uses_def)
  then show ?thesis
    using assms(10) row g h
    by (simp add: pa pr prog_Transition_def Let_def state_defs storing_def atomically_def on_store_def fake_get
        NewService_def prog_flip_def)
qed

section \<open>Schedules without the race\<close>

fun in_flight :: "'s prog \<Rightarrow> bool" where
  "in_flight (Done r) = False"
| "in_flight (Step f) = True"

text \<open>\<open>clash\<close>: the first request is activating a client that the second is registering.\<close>

fun clash :: "'s thread \<Rightarrow> 's thread \<Rightarrow> bool" where
  "clash (ep, rq, p) (ep', rq', p') \<longleftrightarrow> in_flight p \<and> in_flight p' \<and> ep = TransitionEndpoint \<and>
     ep' = TransitionEndpoint \<and> rq_id rq = rq_id rq' \<and> target rq = Some ''active'' \<and> target rq' = Some ''registered''"

definition quiet :: "'s thread list \<Rightarrow> bool" where
  "quiet ts \<longleftrightarrow> list_all (\<lambda>t. list_all (\<lambda>t'. \<not> clash t t') ts) ts"

fun calm :: "'s env \<Rightarrow> event list \<Rightarrow> 's thread list \<times> 's world \<Rightarrow> bool" where
  "calm e [] c = quiet (fst c)"
| "calm e (ev # evs) c = (quiet (fst c) \<and> calm e evs (happen e ev c))"

text \<open>The states of an activation of the client \<open>i\<close>, with what it knows of the store.\<close>

definition gated :: "string \<Rightarrow> fake \<Rightarrow> bool" where
  "gated i f \<longleftrightarrow> status_of f i \<in> {Some ''registered'', Some ''suspended''}"

inductive activating :: "string \<Rightarrow> fake \<Rightarrow> fake prog \<Rightarrow> bool" for i f where
  act_answered: "activating i f (Done r)"
| act_reading: "activating i f (prog_Transition (NewService FakeStore) i ''active'' ''api'' ev rs (\<lambda>_. Done r))"
| act_checking: "identified i f \<Longrightarrow> cf_ID c = i \<Longrightarrow> activating i f
    (prog_check (NewService FakeStore) c (\<lambda>_. prog_flip (NewService FakeStore) i ''active'' ''api'' ev rs (\<lambda>_. Done r)))"
| act_flipping: "gated i f \<longrightarrow> fit i f \<Longrightarrow>
    activating i f (prog_flip (NewService FakeStore) i ''active'' ''api'' ev rs (\<lambda>_. Done r))"

text \<open>A call by another request keeps what the activation knows, unless it registers the client.\<close>

lemma fit_call: "fake_inv f \<Longrightarrow> api_move f c \<Longrightarrow> fst (exec_call c f) = None \<Longrightarrow> fit i f \<Longrightarrow> fit i (snd (exec_call c f))"
  using move_keeps_identity move_keeps_use by (simp add: fit_def del: exec_call.simps)

lemma status_setters:
  "status_of (snd (Fake_SetClientRegistrarIdentity j u ci a f)) i = status_of f i"
  "status_of (snd (Fake_SetClientWebhook j u a f)) i = status_of f i"
  "status_of (snd (Fake_SetClientAllowedOrigins j os a f)) i = status_of f i"
  "status_of (snd (Fake_SetClientDCAPIMode j md a f)) i = status_of f i"
  "status_of (snd (Fake_SaveWRPDocument j doc ius a f)) i = status_of f i"
  by (auto simp: Let_def status_of_Some Fake_SetClientRegistrarIdentity_def Fake_SetClientWebhook_def
      Fake_SetClientAllowedOrigins_def Fake_SetClientDCAPIMode_def Fake_SaveWRPDocument_def
      split: option.split sum.split)

lemma status_others:
  "status_of (snd (Fake_CreateAPIKey j p h f)) i = status_of f i"
  "status_of (snd (Fake_SetIntendedUses j ius a f)) i = status_of f i"
  "status_of (snd (Fake_AddEvidence j ev ct a f)) i = status_of f i"
  "status_of (snd (Fake_AppendAudit a j n d f)) i = status_of f i"
  "status_of (snd (Fake_LogDeletionRequest j sid ns f)) i = status_of f i"
  "status_of (snd (Fake_PurgeOffboarded j a f)) i = status_of f i"
  by (auto simp: Let_def nextID_eq now_utc_def Fake_CreateAPIKey_def Fake_SetIntendedUses_def Fake_AddEvidence_def
      Fake_AppendAudit_def Fake_LogDeletionRequest_def Fake_PurgeOffboarded_def split: option.split)

lemma status_call:
  assumes "status_of (snd (exec_call c f)) i \<noteq> status_of f i"
  shows "status_of (snd (exec_call c f)) i = Some ''draft'' \<or>
    (\<exists>a st ev rs s. c = CallTransition i st a ev rs \<and> status_of f i = Some s \<and> (s, st) \<in> set legalTransitions \<and>
       status_of (snd (exec_call c f)) i = Some st)"
proof (cases c)
  case (CallTransition j st a ev rs)
  show ?thesis
  proof (cases "map_of (clients f) j")
    case (Some c0)
    with CallTransition assms show ?thesis
      by (auto simp: Fake_TransitionClient_def Let_def status_of_def [of f] split: if_splits)
  qed (use CallTransition assms in \<open>simp add: Fake_TransitionClient_def\<close>)
next
  case (CallCreateDraft nm em a)
  with assms show ?thesis by (auto simp: Fake_CreateDraftClient_def nextID_eq Let_def split: if_splits)
qed (use assms in \<open>simp_all add: status_setters status_others\<close>)

lemma gated_call:
  assumes "serving_ok f" "api_move f c" "fst (exec_call c f) = None" "gated i f \<longrightarrow> fit i f"
    "\<forall>a ev rs. c \<noteq> CallTransition i ''registered'' a ev rs" "gated i (snd (exec_call c f))"
  shows "fit i (snd (exec_call c f))"
proof -
  have inv: "fake_inv f" using assms(1) by (simp add: serving_ok_def)
  have "fit i f"
  proof (cases "status_of (snd (exec_call c f)) i = status_of f i")
    case True
    with assms(4,6) show ?thesis by (auto simp: gated_def simp del: exec_call.simps)
  next
    case False
    from status_call [OF this] assms(6) obtain s st a ev rs where
      st: "c = CallTransition i st a ev rs" "status_of f i = Some s" "(s, st) \<in> set legalTransitions"
        "status_of (snd (exec_call c f)) i = Some st"
      by (auto simp: gated_def simp del: exec_call.simps)
    with assms(5,6) have "st = ''suspended''" by (auto simp: gated_def simp del: exec_call.simps)
    with st(3) have "s = ''active''" by (auto simp: legalTransitions_def)
    with st(2) assms(1) show ?thesis
      by (auto simp: serving_ok_def onboarded_ok_def fit_def identified_def in_use_for_def status_of_def fake_row_def)
  qed
  with fit_call [OF inv assms(2,3)] show ?thesis by blast
qed

lemma activating_call:
  assumes "serving_ok f" "api_move f c" "fst (exec_call c f) = None"
    "\<forall>a ev rs. c \<noteq> CallTransition i ''registered'' a ev rs" "activating i f p"
  shows "activating i (snd (exec_call c f)) p"
  using assms(5)
proof cases
  case (act_checking c' ev rs r)
  have "fake_inv f" using assms(1) by (simp add: serving_ok_def)
  from move_keeps_identity [OF this assms(2,3) act_checking(2)] show ?thesis
    unfolding act_checking(1) using act_checking(3) by (rule activating.act_checking)
next
  case (act_flipping ev rs r)
  with gated_call [OF assms(1-3) _ assms(4)] have "gated i (snd (exec_call c f)) \<longrightarrow> fit i (snd (exec_call c f))" by blast
  then show ?thesis unfolding act_flipping(1) by (rule activating.act_flipping)
qed (auto intro: activating.intros)

lemma NewService_sel [simp]: "sv_Store (NewService S) = S"
  by (simp add: NewService_def)

lemma prog_activate:
  "prog_Transition (NewService FakeStore) i ''active'' ''api'' ev rs k =
     storing (Fake_GetClientFull i)
       (\<lambda>c. if cf_Status c = ''registered'' \<or> cf_Status c = ''suspended''
            then prog_check (NewService FakeStore) c (\<lambda>_. prog_flip (NewService FakeStore) i ''active'' ''api'' ev rs k)
            else prog_flip (NewService FakeStore) i ''active'' ''api'' ev rs k)"
  by (simp add: prog_Transition_def Let_def state_defs cong: if_cong)

text \<open>A step of the activation: a read, or a transition that the gate has allowed.\<close>

lemma storing_Step: "storing op k = Step f \<Longrightarrow>
   fst (f w) = (case fst (op (w_state w)) of Inl err \<Rightarrow> Done (RespError err) | Inr v \<Rightarrow> k v) \<and>
   w_state (snd (f w)) = snd (op (w_state w))"
  by (auto simp: storing_def atomically_def on_store_eq)

lemma activating_step:
  assumes "fake_inv (w_state w)" "activating i (w_state w) (Step f)"
  shows "activating i (w_state (snd (f w))) (fst (f w)) \<and>
    (w_state (snd (f w)) = w_state w \<or>
     (\<exists>ev rs. let c = CallTransition i ''active'' ''api'' ev rs in
        api_move (w_state w) c \<and> fst (exec_call c (w_state w)) = None \<and> w_state (snd (f w)) = snd (exec_call c (w_state w))))"
  using assms(2)
proof cases
  case (act_reading ev rs r)
  let ?f = "w_state w"
  let ?flip = "prog_flip (NewService FakeStore) i ''active'' ''api'' ev rs (\<lambda>_. Done r)"
  define k where "k = (\<lambda>c. if cf_Status c = ''registered'' \<or> cf_Status c = ''suspended''
      then prog_check (NewService FakeStore) c (\<lambda>_. ?flip) else ?flip)"
  have "storing (Fake_GetClientFull i) k = Step f"
    using act_reading by (simp add: prog_activate k_def)
  from storing_Step [OF this, of w] have s: "w_state (snd (f w)) = ?f"
    "fst (f w) = (case fake_row ?f i of None \<Rightarrow> Done (RespError (FromResultCode ''err:registry:not_found'')) | Some c \<Rightarrow> k c)"
    by (auto simp: fake_get fail_def split: option.splits)
  have "activating i ?f (k c)" if c: "fake_row ?f i = Some c" for c
  proof (cases "cf_Status c = ''registered'' \<or> cf_Status c = ''suspended''")
    case True
    show ?thesis
    proof (cases "usable_identity c")
      case True
      have "identified i ?f" "cf_ID c = i" using c True fk.row_id [OF assms(1) c] by (auto simp: identified_def)
      then have "activating i ?f (prog_check (NewService FakeStore) c (\<lambda>_. ?flip))" by (rule act_checking)
      then show ?thesis using \<open>cf_Status c = ''registered'' \<or> _\<close> by (simp add: k_def)
    next
      case False
      then have "prog_check (NewService FakeStore) c (\<lambda>_. ?flip) = Done (RespError registrarIdentityRequired)"
        by (auto simp: prog_check_def usable_identity_def)
      then show ?thesis using \<open>cf_Status c = ''registered'' \<or> _\<close> act_answered by (simp add: k_def)
    qed
  next
    case False
    then have "\<not> gated i ?f" using c by (simp add: gated_def status_of_def fake_row_def)
    then have "activating i ?f ?flip" by (intro act_flipping) simp
    then show ?thesis using False by (simp add: k_def)
  qed
  then show ?thesis using s act_answered by (auto split: option.split)
next
  case (act_checking c ev rs r)
  let ?f = "w_state w"
  let ?flip = "prog_flip (NewService FakeStore) i ''active'' ''api'' ev rs (\<lambda>_. Done r)"
  define k where "k = (\<lambda>ius. if \<not> anyNonRevoked ius then Done (RespError (intendedUseRequired (cf_ID c)))
      else if \<not> ts5OK (NewService FakeStore) (cf_ID c) then Done (RespError ts5CheckFailed) else ?flip)"
  have "storing (Fake_ListIntendedUses i) k = Step f"
    using act_checking by (auto simp: prog_check_def k_def split: if_splits)
  from storing_Step [OF this, of w] have s: "w_state (snd (f w)) = ?f" "fst (f w) = k (fake_uses ?f i)"
    by (auto simp: fake_list)
  have "activating i ?f ?flip" if "anyNonRevoked (fake_uses ?f i)"
    using act_checking(2) that by (intro act_flipping) (simp add: fit_def in_use_for_def)
  then show ?thesis using s act_answered by (auto simp: k_def)
next
  case (act_flipping ev rs r)
  let ?f = "w_state w" and ?c = "CallTransition i ''active'' ''api'' ev rs"
  have "storing (Fake_TransitionClient i ''active'' ''api'' ev rs) (\<lambda>_. Done r) = Step f"
    using act_flipping(1) by (simp add: prog_flip_def state_defs)
  note s = storing_Step [OF this, of w]
  have d: "activating i (w_state (snd (f w))) (fst (f w))" using s act_answered by (auto split: sum.split)
  show ?thesis
  proof (cases "fst (exec_call ?c ?f)")
    case None
    then obtain c where c: "fake_row ?f i = Some c" "(cf_Status c, ''active'') \<in> set legalTransitions"
      by (auto simp: fake_transition split: option.splits if_splits)
    then have "gated i ?f" by (auto simp: gated_def status_of_def fake_row_def legalTransitions_def)
    with act_flipping(2) have "api_move ?f ?c"
      by (intro api_move.transition) (auto simp: fit_def identified_def in_use_for_def)
    with None s d show ?thesis by (auto simp: Let_def)
  next
    case (Some err)
    with exec_call_error_frame [OF this] s d show ?thesis by simp
  qed
qed

text \<open>The pool: every activation in it knows what it needs.\<close>

definition pool_gated :: "fake thread list \<Rightarrow> fake \<Rightarrow> bool" where
  "pool_gated ts f \<longleftrightarrow> (\<forall>rq p. (TransitionEndpoint, rq, p) \<in> set ts \<longrightarrow> target rq = Some ''active'' \<longrightarrow>
     activating (rq_id rq) f p)"

definition gate_ok :: "fake thread list \<Rightarrow> fake world \<Rightarrow> bool" where
  "gate_ok ts w \<longleftrightarrow> pool_makes ts \<and> serving_ok (w_state w) \<and> pool_gated ts (w_state w)"

lemma activating_serve:
  assumes "e_Store e = FakeStore" "target rq = Some ''active''"
  shows "activating (rq_id rq) f (prog_serve TransitionEndpoint e rq)"
proof (cases "e_AdminAPIKey e = [] \<or> rq_key rq \<noteq> e_AdminAPIKey e")
  case True
  then have "prog_serve TransitionEndpoint e rq = Done (RespError UnauthorizedError)" by (simp add: prog_serve_def)
  then show ?thesis using act_answered by simp
next
  case False
  then have "e_AdminAPIKey e \<noteq> []" "rq_key rq = e_AdminAPIKey e" by simp_all
  from prog_serve_transition [OF assms(1) this assms(2)] show ?thesis using act_reading by fastforce
qed

lemma pool_gated_call:
  assumes "pool_gated ts f" "serving_ok f" "api_move f c" "fst (exec_call c f) = None"
    "\<And>rq p a ev rs. (TransitionEndpoint, rq, Step p) \<in> set ts \<Longrightarrow> target rq = Some ''active'' \<Longrightarrow>
       c \<noteq> CallTransition (rq_id rq) ''registered'' a ev rs"
  shows "pool_gated ts (snd (exec_call c f))"
  unfolding pool_gated_def
proof (intro allI impI)
  fix rq p assume t: "(TransitionEndpoint, rq, p) \<in> set ts" "target rq = Some ''active''"
  then have act: "activating (rq_id rq) f p" using assms(1) by (simp add: pool_gated_def)
  show "activating (rq_id rq) (snd (exec_call c f)) p"
  proof (cases p)
    case (Step g)
    with assms(5) t have "\<forall>a ev rs. c \<noteq> CallTransition (rq_id rq) ''registered'' a ev rs" by blast
    from activating_call [OF assms(2-4) this act] show ?thesis .
  qed (simp add: act_answered)
qed

lemma gate_ok_move:
  assumes "gate_ok ts w" "quiet ts" "n < length ts" "ts ! n = (ep, rq, Step g)"
    "\<not> (ep = TransitionEndpoint \<and> target rq = Some ''active'')"
    "thread_move ep rq (w_state w) c" "fst (exec_call c (w_state w)) = None"
  shows "serving_ok (snd (exec_call c (w_state w))) \<and> pool_gated ts (snd (exec_call c (w_state w)))"
proof -
  let ?f = "w_state w"
  note ok = assms(1) [unfolded gate_ok_def]
  have mv: "api_move ?f c"
    using assms(5,6) by (auto simp: thread_move_def intro: api_move.transition split: if_splits)
  have "c \<noteq> CallTransition (rq_id rq') ''registered'' a ev rs"
    if t: "(TransitionEndpoint, rq', Step p) \<in> set ts" "target rq' = Some ''active''" for rq' p a ev rs
  proof
    assume "c = CallTransition (rq_id rq') ''registered'' a ev rs"
    with assms(6) have "clash (TransitionEndpoint, rq', Step p) (ep, rq, Step g)"
      using t(2) by (auto simp: thread_move_def)
    moreover have "(ep, rq, Step g) \<in> set ts" using assms(3,4) nth_mem by metis
    ultimately show False using assms(2) t(1) unfolding quiet_def list_all_iff by blast
  qed
  with pool_gated_call [of ts ?f c] serving_ok_move [of ?f c] ok mv assms(7) show ?thesis by blast
qed

lemma gate_ok_step:
  assumes "gate_ok ts w" "quiet ts" "n < length ts" "ts ! n = (ep, rq, Step g)"
  shows "serving_ok (w_state (snd (g w))) \<and> pool_gated (ts[n := (ep, rq, fst (g w))]) (w_state (snd (g w)))"
proof -
  let ?f = "w_state w" and ?f' = "w_state (snd (g w))"
  note ok = assms(1) [unfolded gate_ok_def]
  have inv: "fake_inv ?f" using ok by (simp add: serving_ok_def)
  have mem: "(ep, rq, Step g) \<in> set ts" using assms(3,4) nth_mem by metis
  show ?thesis
  proof (cases "ep = TransitionEndpoint \<and> target rq = Some ''active''")
    case True
    then have act: "activating (rq_id rq) ?f (Step g)" using ok mem by (auto simp: pool_gated_def)
    note st = activating_step [OF inv act]
    have "serving_ok ?f' \<and> pool_gated ts ?f'"
    proof (cases "?f' = ?f")
      case False
      with st obtain ev rs where c: "api_move ?f (CallTransition (rq_id rq) ''active'' ''api'' ev rs)"
        "fst (exec_call (CallTransition (rq_id rq) ''active'' ''api'' ev rs) ?f) = None"
        "?f' = snd (exec_call (CallTransition (rq_id rq) ''active'' ''api'' ev rs) ?f)" by (auto simp: Let_def)
      with pool_gated_call [OF _ _ c(1,2)] serving_ok_move [OF _ c(1,2)] ok show ?thesis by simp
    qed (use ok in simp)
    with st show ?thesis by (auto simp: pool_gated_def dest!: set_pool_update)
  next
    case False
    have "serving_ok ?f' \<and> pool_gated ts ?f'"
    proof (cases "?f' = ?f")
      case neq: False
      with pool_makesD(1) [OF _ assms(3,4) inv] ok obtain c where "thread_move ep rq ?f c"
        "fst (exec_call c ?f) = None" "?f' = snd (exec_call c ?f)" by (auto simp: moves_def)
      with gate_ok_move [OF assms(1-4) False] show ?thesis by simp
    qed (use ok in simp)
    with False show ?thesis by (auto simp: pool_gated_def dest!: set_pool_update)
  qed
qed

lemma gate_ok_happen:
  assumes "e_Store e = FakeStore" "gate_ok ts w" "quiet ts" "happen e ev (ts, w) = (ts', w')"
  shows "gate_ok ts' w'"
proof -
  note ok = assms(2) [unfolded gate_ok_def]
  have makes: "pool_makes ts'" using pool_makes_happen [OF assms(1) _ _ assms(4)] ok by (simp add: serving_ok_def)
  show ?thesis
    using assms(4)
  proof (cases rule: happen_cases)
    case (arrive ep rq)
    with ok activating_serve [OF assms(1)] makes show ?thesis by (auto simp: gate_ok_def pool_gated_def)
  next
    case (step n ep rq g)
    with gate_ok_step [OF assms(2,3) step(1,2)] makes show ?thesis by (simp add: gate_ok_def)
  qed (use assms(2) in simp)
qed

lemma gate_ok_calm:
  "e_Store e = FakeStore \<Longrightarrow> gate_ok ts w \<Longrightarrow> calm e evs (ts, w) \<Longrightarrow> happens e evs (ts, w) = (ts', w') \<Longrightarrow> gate_ok ts' w'"
proof (induction evs arbitrary: ts w)
  case (Cons ev evs)
  obtain ts1 w1 where h: "happen e ev (ts, w) = (ts1, w1)" by fastforce
  with gate_ok_happen [OF Cons.prems(1,2) _ h] Cons show ?case by simp
qed simp

lemma calm_onboarded:
  assumes "e_Store e = FakeStore" "calm e evs ([], new_world clk b)" "happens e evs ([], new_world clk b) = (ts, w)"
  shows "onboarded_ok (w_state w)"
proof -
  have "gate_ok [] (new_world clk b)"
    by (simp add: gate_ok_def pool_makes_def pool_gated_def new_world_def serving_ok_new)
  from gate_ok_calm [OF assms(1) this assms(2,3)] show ?thesis by (simp add: gate_ok_def serving_ok_def)
qed

lemma onboarded_fit:
  assumes "onboarded_ok f" "map_of (clients f) i = Some c" "cf_Status c \<in> {''active'', ''suspended'', ''offboarded''}"
  shows "cf_ClientIdentifier c \<noteq> [] \<and> isAbsoluteHTTPSURL (cf_RegistryURI c) \<and>
    (\<exists>iu \<in> set (listed_uses i f). iu_RevokedAt iu = [])"
proof -
  have "usable_identity c \<and> anyNonRevoked (fake_uses f i)" using assms unfolding onboarded_ok_def fake_row_def by blast
  then show ?thesis by (simp add: usable_identity_def anyNonRevoked_def fake_uses_def list_ex_iff)
qed

text \<open>
  C2 (the gate under concurrent requests): in every schedule in which no request that registers a
  client overlaps one that activates it, every client that is active, suspended or offboarded has a
  client identifier, an absolute https registry URL and an intended use that is not revoked, however
  the steps of all other requests interleave.
\<close>

theorem concurrent_gate:
  assumes "e_Store e = FakeStore" "calm e evs ([], new_world clk b)"
    "happens e evs ([], new_world clk b) = (ts, w)"
    "map_of (clients (w_state w)) i = Some c" "cf_Status c \<in> {''active'', ''suspended'', ''offboarded''}"
  shows "cf_ClientIdentifier c \<noteq> [] \<and> isAbsoluteHTTPSURL (cf_RegistryURI c) \<and>
    (\<exists>iu \<in> set (listed_uses i (w_state w)). iu_RevokedAt iu = [])"
  by (rule onboarded_fit [OF calm_onboarded [OF assms(1-3)] assms(4,5)])

section \<open>Schedules that exist\<close>

text \<open>Requests one after the other are calm, and a filed client without identity can be raced.\<close>

lemma quiet_one: "\<forall>(ep, rq, p) \<in> set ts. \<not> in_flight p \<Longrightarrow> quiet (ts @ [t])"
  by (cases t) (auto simp: quiet_def list_all_iff)

lemma quiet_done: "\<forall>(ep, rq, p) \<in> set ts. \<not> in_flight p \<Longrightarrow> quiet ts"
  by (auto simp: quiet_def list_all_iff)

lemma happen_last: "\<exists>p' w'. happen e (Go (length ts)) (ts @ [(ep, rq, p)], w) = (ts @ [(ep, rq, p')], w')"
  by (cases p) (auto split: prod.split)

lemma calm_in_turn:
  "\<forall>(ep, rq, p) \<in> set ts. \<not> in_flight p \<Longrightarrow> calm e (in_turn (length ts) reqs) (ts, w)"
proof (induction reqs arbitrary: ts w)
  case (Cons r reqs)
  obtain ep rq where r: "r = (ep, rq)" by (cases r)
  let ?n = "length ts" and ?p = "prog_serve ep e rq"
  obtain p1 w1 where 1: "happen e (Go ?n) (ts @ [(ep, rq, ?p)], w) = (ts @ [(ep, rq, p1)], w1)" using happen_last by blast
  obtain p2 w2 where 2: "happen e (Go ?n) (ts @ [(ep, rq, p1)], w1) = (ts @ [(ep, rq, p2)], w2)" using happen_last by blast
  obtain p3 w3 where 3: "happen e (Go ?n) (ts @ [(ep, rq, p2)], w2) = (ts @ [(ep, rq, p3)], w3)" using happen_last by blast
  have "happens e (replicate 3 (Go ?n)) (ts @ [(ep, rq, ?p)], w) = (ts @ [(ep, rq, p3)], w3)"
    using 1 2 3 by (simp add: numeral_3_eq_3 del: happen.simps)
  then have "\<exists>a. p3 = Done a"
    using run_alone [OF within_serve [of ep e rq], of ?n "ts @ [(ep, rq, ?p)]" ep rq e w] by auto
  then have "\<forall>(ep, rq, p) \<in> set (ts @ [(ep, rq, p3)]). \<not> in_flight p" using Cons.prems by auto
  from Cons.IH [OF this] 1 2 3 quiet_one [OF Cons.prems] quiet_done [OF Cons.prems] r
  show ?case by (simp del: happen.simps(2))
qed (simp add: quiet_done)

theorem concurrent_gate_witness:
  "calm demo_env (in_turn 0 demo_requests) ([], new_world (\<lambda>n. int n) []) \<and>
   (\<exists>c. map_of (clients (w_state (snd (happens demo_env (in_turn 0 demo_requests) ([], new_world (\<lambda>n. int n) []))))) (fakeID 1) = Some c \<and>
     cf_ClientIdentifier c \<noteq> [] \<and> isAbsoluteHTTPSURL (cf_RegistryURI c))"
proof -
  let ?w = "new_world (\<lambda>n. int n) []"
  obtain ts where h: "happens demo_env (in_turn 0 demo_requests) ([], ?w) = (ts, serve_all demo_requests demo_env ?w)"
    using in_turn_serve_all [of demo_env "[]"] by auto
  have calm: "calm demo_env (in_turn 0 demo_requests) ([], ?w)" using calm_in_turn [of "[]"] by simp
  obtain c where c: "map_of (clients (w_state (serve_all demo_requests demo_env ?w))) (fakeID 1) = Some c"
    "cf_Status c = ''active''" using demo_served by (auto simp: status_of_def)
  then have "cf_Status c \<in> {''active'', ''suspended'', ''offboarded''}" by simp
  from concurrent_gate [OF demo_env_store calm h c(1) this] calm h c(1) show ?thesis by auto
qed

definition filed_requests :: "(endpoint \<times> request) list" where
  "filed_requests = hd demo_requests # take 2 (drop 3 demo_requests)"

lemma demo_filed:
  "map_option (\<lambda>c. (cf_Status c, cf_ClientIdentifier c, cf_RegistryURI c))
     (map_of (clients (w_state (serve_all filed_requests demo_env (new_world (\<lambda>n. int n) [])))) (fakeID 1)) =
   Some (''filed_with_registrar'', [], [])"
  by code_simp

theorem activation_race_witness:
  "\<exists>rqa rqr ts w c. happens demo_env
       [Arrive TransitionEndpoint rqa, Arrive TransitionEndpoint rqr, Go 0, Go 1, Go 0]
       ([], serve_all filed_requests demo_env (new_world (\<lambda>n. int n) [])) = (ts, w) \<and>
     map_of (clients (w_state w)) (fakeID 1) = Some c \<and> cf_Status c = ''active'' \<and> cf_ClientIdentifier c = [] \<and>
     cf_RegistryURI c = []"
proof -
  let ?w = "serve_all filed_requests demo_env (new_world (\<lambda>n. int n) [])"
  let ?rq = "\<lambda>st. demo_request (body_of [(''targetState'', JStr st)])"
  obtain c where c: "map_of (clients (w_state ?w)) (fakeID 1) = Some c" "cf_Status c = ''filed_with_registrar''"
    "cf_ClientIdentifier c = []" "cf_RegistryURI c = []" using demo_filed by auto
  have t: "target (?rq ''active'') = Some ''active''" "target (?rq ''registered'') = Some ''registered''" by code_simp+
  have e: "e_AdminAPIKey demo_env \<noteq> []" "rq_key (?rq st) = e_AdminAPIKey demo_env" "rq_id (?rq st) = fakeID 1" for st
    by (simp_all add: demo_env_def demo_request_def)
  from activation_race [OF demo_env_store e(1,2) t(1) e(3,2) t(2) e(3) c(1,2)] c(3,4) show ?thesis by fastforce
qed

end
