(* ===== verification/PgService.thy ===== *)
theory PgService
  imports PgMirrorFacts GateRace
begin

text \<open>
  The service on the production store.  On a database that implements the procedures it gives, under
  every schedule of concurrent requests, the answers of the service on the in-memory store, and its
  state stands for the same store.  So what is proved of the service on the in-memory store holds in
  production.
\<close>

section \<open>Corresponding worlds and programs\<close>

definition world_view :: "('s \<Rightarrow> fake) \<Rightarrow> 's world \<Rightarrow> fake world" where
  "world_view view w = \<lparr>w_state = view (w_state w), w_rand = w_rand w, w_ulids = w_ulids w, w_ticks = w_ticks w\<rparr>"

definition in_memory :: "'s env \<Rightarrow> fake env" where
  "in_memory e = \<lparr>e_Store = FakeStore, e_AdminAPIKey = e_AdminAPIKey e, e_marshalPurpose = e_marshalPurpose e,
     e_marshalWRP = e_marshalWRP e, e_ulid = e_ulid e, e_clock = e_clock e, e_idKey = e_idKey e,
     e_argonVersion = e_argonVersion e, e_PingOK = e_PingOK e\<rparr>"

lemma in_memory_sel [simp]:
  "e_Store (in_memory e) = FakeStore" "e_AdminAPIKey (in_memory e) = e_AdminAPIKey e"
  "e_marshalPurpose (in_memory e) = e_marshalPurpose e" "e_marshalWRP (in_memory e) = e_marshalWRP e"
  "e_ulid (in_memory e) = e_ulid e" "e_clock (in_memory e) = e_clock e" "e_idKey (in_memory e) = e_idKey e"
  "e_argonVersion (in_memory e) = e_argonVersion e" "e_PingOK (in_memory e) = e_PingOK e"
  by (simp_all add: in_memory_def)

lemma world_view_sel [simp]:
  "w_state (world_view view w) = view (w_state w)" "w_rand (world_view view w) = w_rand w"
  "w_ulids (world_view view w) = w_ulids w" "w_ticks (world_view view w) = w_ticks w"
  by (simp_all add: world_view_def)

text \<open>The encoders of documents give JSON texts.\<close>

definition documented_encoders :: "'s env \<Rightarrow> bool" where
  "documented_encoders e \<longleftrightarrow>
     (\<forall>p r. e_marshalPurpose e p = Inr r \<longrightarrow> (\<exists>j. r = RawJSON j)) \<and>
     (\<forall>d r. e_marshalWRP e d = Inr r \<longrightarrow> (\<exists>j. r = RawJSON j))"

text \<open>Step for step, the program \<open>p\<close> does to its world what \<open>q\<close> does to the world it stands for.\<close>

inductive mirrors :: "('s \<Rightarrow> fake) \<Rightarrow> 's prog \<Rightarrow> fake prog \<Rightarrow> bool" for view where
  mirrors_Done: "mirrors view (Done r) (Done r)"
| mirrors_Step: "(\<And>w. wire_ok (view (w_state w)) \<Longrightarrow> world_view view (snd (f w)) = snd (g (world_view view w))) \<Longrightarrow>
    (\<And>w. wire_ok (view (w_state w)) \<Longrightarrow> wire_ok (view (w_state (snd (f w))))) \<Longrightarrow>
    (\<And>w. wire_ok (view (w_state w)) \<Longrightarrow> mirrors view (fst (f w)) (fst (g (world_view view w)))) \<Longrightarrow>
    mirrors view (Step f) (Step g)"

inductive_cases mirrors_StepE: "mirrors view (Step f) q"
inductive_cases mirrors_DoneE: "mirrors view (Done r) q"

declare mirrors_Done [simp]

lemma mirrors_atomically:
  assumes "\<And>w. wire_ok (view (w_state w)) \<Longrightarrow> map_prod id (world_view view) (op w) = op' (world_view view w)"
    "\<And>w. wire_ok (view (w_state w)) \<Longrightarrow> wire_ok (view (w_state (snd (op w))))"
    "\<And>w. wire_ok (view (w_state w)) \<Longrightarrow> mirrors view (k (fst (op w))) (k' (fst (op w)))"
  shows "mirrors view (atomically op k) (atomically op' k')"
proof -
  have eq: "fst (op' (world_view view w)) = fst (op w)" "snd (op' (world_view view w)) = world_view view (snd (op w))"
    if "wire_ok (view (w_state w))" for w
    using assms(1) [OF that] by (metis fst_map_prod id_apply snd_map_prod)+
  show ?thesis
    unfolding atomically_def by (rule mirrors_Step) (use assms(2,3) eq in \<open>simp_all add: case_prod_beta\<close>)
qed

text \<open>A store call.\<close>

definition same_call :: "('s \<Rightarrow> fake) \<Rightarrow> ('s \<Rightarrow> 'a \<times> 's) \<Rightarrow> (fake \<Rightarrow> 'a \<times> fake) \<Rightarrow> bool" where
  "same_call view op op' \<longleftrightarrow>
     (\<forall>s. wire_ok (view s) \<longrightarrow> map_prod id view (op s) = op' (view s) \<and> wire_ok (snd (op' (view s))))"

lemma mirrors_storing:
  assumes "same_call view op op'" "\<And>v. mirrors view (k v) (k' v)"
  shows "mirrors view (storing op k) (storing op' k')"
  unfolding storing_def
proof (rule mirrors_atomically)
  fix w :: "'a world" assume ok: "wire_ok (view (w_state w))"
  with assms(1) have c: "map_prod id view (op (w_state w)) = op' (view (w_state w))" "wire_ok (snd (op' (view (w_state w))))"
    by (simp_all add: same_call_def)
  obtain r s' where r: "op (w_state w) = (r, s')" by fastforce
  with c have o': "op' (view (w_state w)) = (r, view s')" by (metis id_apply map_prod_simp)
  show "map_prod id (world_view view) (on_store op w) = on_store op' (world_view view w)"
    by (simp add: on_store_def r o' world_view_def)
  show "wire_ok (view (w_state (snd (on_store op w))))" using c(2) by (simp add: on_store_def r o')
  show "mirrors view (case fst (on_store op w) of Inl err \<Rightarrow> Done (RespError err) | Inr v \<Rightarrow> k v)
      (case fst (on_store op w) of Inl err \<Rightarrow> Done (RespError err) | Inr v \<Rightarrow> k' v)"
    using assms(2) by (simp split: sum.split)
qed

context implementing begin

lemma same_read:
  assumes "\<And>s. wire_ok (view s) \<Longrightarrow> map_prod id view (op s) = op' (view s)" "\<And>f. snd (op' f) = f"
  shows "same_call view op op'"
  using assms by (simp add: same_call_def)

lemma same_write:
  assumes "\<And>s. wire_ok (view s) \<Longrightarrow> map_prod id view (op s) = op' (view s)"
    "\<And>f. exec_call c f = outcome (op' f)" "writes_ok c"
  shows "same_call view op op'"
  using assms wire_ok_exec [OF _ assms(3)] by (simp add: same_call_def del: exec_call.simps)

lemma same_calls:
  "same_call view (PG_GetClientFull db i) (Fake_GetClientFull i)"
  "same_call view (PG_ListClientsByState db) Fake_ListClientsByState"
  "same_call view (PG_ListIntendedUses db i) (Fake_ListIntendedUses i)"
  "same_call view (PG_TransitionClient db i st a ev rs) (Fake_TransitionClient i st a ev rs)"
  "same_call view (PG_CreateDraftClient db nm em a) (Fake_CreateDraftClient nm em a)"
  "same_call view (PG_SetClientRegistrarIdentity db i u ci a) (Fake_SetClientRegistrarIdentity i u ci a)"
  "same_call view (PG_SetClientWebhook db i u a) (Fake_SetClientWebhook i u a)"
  "same_call view (PG_SetClientAllowedOrigins db i os a) (Fake_SetClientAllowedOrigins i os a)"
  "same_call view (PG_SetClientDCAPIMode db i md a) (Fake_SetClientDCAPIMode i md a)"
  "same_call view (PG_CreateAPIKey db i p h) (Fake_CreateAPIKey i p h)"
  "same_call view (PG_PurgeOffboarded db i a) (Fake_PurgeOffboarded i a)"
proof -
  show "same_call view (PG_GetClientFull db i) (Fake_GetClientFull i)"
    by (rule same_read) (simp_all add: GetClient)
  show "same_call view (PG_ListClientsByState db) Fake_ListClientsByState"
    by (rule same_read) (simp_all add: ListClients)
  show "same_call view (PG_ListIntendedUses db i) (Fake_ListIntendedUses i)"
    by (rule same_read) (simp_all add: ListUses)
  show "same_call view (PG_TransitionClient db i st a ev rs) (Fake_TransitionClient i st a ev rs)"
    by (rule same_write [where c = "CallTransition i st a ev rs"]) (simp_all add: Transition)
  show "same_call view (PG_CreateDraftClient db nm em a) (Fake_CreateDraftClient nm em a)"
    by (rule same_write [where c = "CallCreateDraft nm em a"]) (simp_all add: CreateDraft)
  show "same_call view (PG_SetClientRegistrarIdentity db i u ci a) (Fake_SetClientRegistrarIdentity i u ci a)"
    by (rule same_write [where c = "CallSetRegistrarIdentity i u ci a"]) (simp_all add: SetIdentity)
  show "same_call view (PG_SetClientWebhook db i u a) (Fake_SetClientWebhook i u a)"
    by (rule same_write [where c = "CallSetWebhook i u a"]) (simp_all add: SetWebhook)
  show "same_call view (PG_SetClientAllowedOrigins db i os a) (Fake_SetClientAllowedOrigins i os a)"
    by (rule same_write [where c = "CallSetAllowedOrigins i os a"]) (simp_all add: SetOrigins)
  show "same_call view (PG_SetClientDCAPIMode db i md a) (Fake_SetClientDCAPIMode i md a)"
    by (rule same_write [where c = "CallSetDCAPIMode i md a"]) (simp_all add: SetMode)
  show "same_call view (PG_CreateAPIKey db i p h) (Fake_CreateAPIKey i p h)"
    by (rule same_write [where c = "CallCreateAPIKey i p h"]) (simp_all add: CreateKey)
  show "same_call view (PG_PurgeOffboarded db i a) (Fake_PurgeOffboarded i a)"
    by (rule same_write [where c = "CallPurgeOffboarded i a"]) (simp_all add: Purge)
qed

lemma same_save:
  "list_all use_ok ius \<Longrightarrow> same_call view (PG_SaveWRPDocument db i (RawJSON j) ius a) (Fake_SaveWRPDocument i (RawJSON j) ius a)"
  by (rule same_write [where c = "CallSaveWRPDocument i (RawJSON j) ius a"]) (simp_all add: SaveDocument)

section \<open>The programs\<close>

lemma mirrors_flip:
  assumes "sv_Store s = PGStore db" "sv_Store t = FakeStore" "\<And>v. mirrors view (k v) (k' v)"
  shows "mirrors view (prog_flip s i st a ev rs k) (prog_flip t i st a ev rs k')"
  unfolding prog_flip_def assms(1,2) PGStore_sel FakeStore_sel
  by (rule mirrors_storing) (simp_all add: same_calls assms(3) mirrors_storing)

lemma mirrors_check:
  assumes "sv_Store s = PGStore db" "sv_Store t = FakeStore" "\<And>i. ts5OK s i = ts5OK t i" "\<And>v. mirrors view (k v) (k' v)"
  shows "mirrors view (prog_check s c k) (prog_check t c k')"
  using assms by (auto simp: prog_check_def same_calls FakeStore_def intro!: mirrors_storing)

lemma mirrors_Transition:
  assumes "sv_Store s = PGStore db" "sv_Store t = FakeStore" "\<And>i. ts5OK s i = ts5OK t i" "\<And>v. mirrors view (k v) (k' v)"
  shows "mirrors view (prog_Transition s i st a ev rs k) (prog_Transition t i st a ev rs k')"
proof -
  note flip = mirrors_flip [OF assms(1,2,4)]
  have "mirrors view (prog_check s c (\<lambda>_. prog_flip s i st a ev rs k)) (prog_check t c (\<lambda>_. prog_flip t i st a ev rs k'))" for c
    by (rule mirrors_check [OF assms(1-3) flip])
  moreover have "mirrors view (storing (PG_PurgeOffboarded db i a) k) (storing (Fake_PurgeOffboarded i a) k')"
    by (rule mirrors_storing [OF same_calls(11) assms(4)])
  ultimately show ?thesis
    using flip assms(1,2) by (auto simp: prog_Transition_def Let_def same_calls intro!: mirrors_storing)
qed

lemma mirrors_set_and_echo:
  assumes "e_Store e = PGStore db" "same_call view op op'"
  shows "mirrors view (prog_set_and_echo op echo e rq) (prog_set_and_echo op' echo (in_memory e) rq)"
  unfolding prog_set_and_echo_def assms(1) in_memory_sel PGStore_sel FakeStore_sel
  by (rule mirrors_storing [OF assms(2) mirrors_storing [OF same_calls(1)]]) simp

end

section \<open>What the wizard writes\<close>

lemma build_uses_purposes:
  "build_uses mp mk d i fs n = (Inr qs, n') \<Longrightarrow> q \<in> set qs \<Longrightarrow> \<exists>x. mp x = Inr (iu_Purpose (snd q))"
proof (induction fs arbitrary: i n qs)
  case (Cons f fs)
  then obtain p m ps where p: "build_use mp mk d i f n = (Inr p, m)" "build_uses mp mk d (Suc i) fs m = (Inr ps, n')" "qs = p # ps"
    by (auto split: prod.splits sum.splits)
  from p(1) have "mp (iuf_Purpose f) = Inr (iu_Purpose (snd p))"
    by (auto simp: build_use_def Let_def split: sum.splits)
  with Cons.IH [OF p(2)] Cons.prems(2) p(3) show ?case by auto
qed simp

lemma describes_plain: "describes cf c p \<Longrightarrow> claims_plain p"
  by (simp add: describes_def claims_plain_def list_all_iff)

lemma Build_use_ok:
  assumes "Build mp mk now f n = (Inr (doc, ius), n')" "\<forall>x r. mp x = Inr r \<longrightarrow> (\<exists>j. r = RawJSON j)"
  shows "list_all use_ok ius"
  unfolding list_all_iff
proof
  fix iu assume iu: "iu \<in> set ius"
  have "\<exists>x. mp x = Inr (iu_Purpose iu)"
    using assms(1) by (rule Build_value) (use iu build_uses_purposes in fastforce)
  with assms(2) have "\<exists>j. iu_Purpose iu = RawJSON j" by blast
  moreover obtain k where k: "k < length ius" "iu = ius ! k" using iu by (auto simp: in_set_conv_nth)
  with Build_uses [OF assms(1)] have
    "agrees mk (format_date now) (n + k) (fs_IntendedUses f ! k) (wr_IntendedUse doc ! k) iu" by auto
  then have "list_all claims_plain (iu_Credentials iu)"
    by (auto simp: agrees_def list_all_length intro: describes_plain)
  ultimately show "use_ok iu" by (simp add: use_ok_def)
qed

context implementing begin

section \<open>The handlers\<close>

lemma mirrors_apiSetRegistration:
  assumes "e_Store e = PGStore db" "documented_encoders e"
  shows "mirrors view (prog_apiSetRegistration e rq) (prog_apiSetRegistration (in_memory e) rq)"
proof (cases "unmarshal dec_apiRegistrationRequest zero_apiRegistrationRequest (rq_body rq)")
  case (Some req)
  let ?fs = "toFormState req"
  have world: "build_in (in_memory e) ?fs (world_view view w) = map_prod id (world_view view) (build_in e ?fs w)"
    "view (w_state (snd (build_in e ?fs w))) = view (w_state w)" for w
    by (simp_all add: build_in_def world_view_def split: prod.split)
  have use: "list_all use_ok ius" if b: "fst (build_in e ?fs w) = Inr (doc, ius)" for w doc ius
  proof -
    obtain n' where "Build (e_marshalPurpose e) (e_ulid e) (e_clock e (w_ticks w)) ?fs (w_ulids w) = (Inr (doc, ius), n')"
      using b by (auto simp: build_in_def split: prod.splits)
    from Build_use_ok [OF this] assms(2) show ?thesis by (simp add: documented_encoders_def)
  qed
  show ?thesis
    unfolding prog_apiSetRegistration_def Some option.case
  proof (rule mirrors_atomically)
    fix w :: "'s world" assume "wire_ok (view (w_state w))"
    then show "wire_ok (view (w_state (snd (build_in e ?fs w))))" by (simp add: world(2))
    show "map_prod id (world_view view) (build_in e ?fs w) = build_in (in_memory e) ?fs (world_view view w)"
      by (simp add: world(1))
    show "mirrors view
      (case fst (build_in e ?fs w) of
         Inl err \<Rightarrow> Done (RespError (NewProblem ''err:api:registrationInvalid'' [WithDetail [Wrapped err]]))
       | Inr (doc, ius) \<Rightarrow>
      (case e_marshalWRP e doc of
         Inl err \<Rightarrow> Done (RespError err)
       | Inr docJSON \<Rightarrow> storing (SaveWRPDocument (e_Store e) (rq_id rq) docJSON ius ''api'')
           (\<lambda>_. storing (GetClientFull (e_Store e) (rq_id rq))
             (\<lambda>full. Done (RespJSON statusOK (apiRegistrationResult (rq_id rq) (cf_Status full) (length ius)))))))
      (case fst (build_in e ?fs w) of
         Inl err \<Rightarrow> Done (RespError (NewProblem ''err:api:registrationInvalid'' [WithDetail [Wrapped err]]))
       | Inr (doc, ius) \<Rightarrow>
      (case e_marshalWRP (in_memory e) doc of
         Inl err \<Rightarrow> Done (RespError err)
       | Inr docJSON \<Rightarrow> storing (SaveWRPDocument (e_Store (in_memory e)) (rq_id rq) docJSON ius ''api'')
           (\<lambda>_. storing (GetClientFull (e_Store (in_memory e)) (rq_id rq))
             (\<lambda>full. Done (RespJSON statusOK (apiRegistrationResult (rq_id rq) (cf_Status full) (length ius)))))))"
    proof (cases "fst (build_in e ?fs w)")
      case (Inr p)
      obtain doc ius where p: "p = (doc, ius)" by (cases p)
      show ?thesis
      proof (cases "e_marshalWRP e doc")
        case js: (Inr js)
        with assms(2) obtain j where j: "js = RawJSON j" unfolding documented_encoders_def by blast
        have "list_all use_ok ius" using use Inr p by blast
        from same_save [OF this] show ?thesis
          using Inr p js j assms(1) by (auto simp: PGStore_def FakeStore_def same_calls intro!: mirrors_storing)
      qed (use Inr p in simp)
    qed simp
  qed
qed (simp add: prog_apiSetRegistration_def)

lemma mirrors_handle:
  assumes "e_Store e = PGStore db" "documented_encoders e"
  shows "mirrors view (prog_handle ep e rq) (prog_handle ep (in_memory e) rq)"
proof -
  have store: "e_Store e = PGStore db" "e_Store (in_memory e) = FakeStore" using assms(1) by simp_all
  show ?thesis
  proof (cases ep)
    case SetRegistration
    with mirrors_apiSetRegistration [OF assms] show ?thesis by simp
  next
    case TransitionEndpoint
    have "mirrors view (prog_Transition (NewService (PGStore db)) i st a ev rs (\<lambda>_. Done r))
        (prog_Transition (NewService FakeStore) i st a ev rs (\<lambda>_. Done r))" for i st a ev rs r
      by (rule mirrors_Transition) (simp_all add: NewService_def ts5OK_def)
    with TransitionEndpoint store show ?thesis by (simp add: prog_apiTransition_def split: option.split)
  next
    case CreateKey
    have "map_prod id (world_view view) (mint_in e w) = mint_in (in_memory e) (world_view view w)"
      "view (w_state (snd (mint_in e w))) = view (w_state w)" for w
      by (simp_all add: mint_in_def world_view_def split: prod.split)
    with CreateKey store show ?thesis
      by (auto simp: prog_apiCreateKey_def PGStore_def FakeStore_def same_calls split: sum.split
          intro!: mirrors_storing mirrors_atomically)
  next
    case SetWebhook
    with store mirrors_set_and_echo [OF assms(1) same_calls(7)] show ?thesis
      by (simp add: prog_apiSetWebhook_def PGStore_def split: option.split)
  next
    case SetAllowedOrigins
    with store mirrors_set_and_echo [OF assms(1) same_calls(8)] show ?thesis
      by (simp add: prog_apiSetAllowedOrigins_def PGStore_def split: option.split)
  next
    case SetDCAPIRequestMode
    with store mirrors_set_and_echo [OF assms(1) same_calls(9)] show ?thesis
      by (simp add: prog_apiSetDCAPIRequestMode_def PGStore_def split: option.split)
  qed (use store in \<open>auto simp: prog_health_def healthz_def readyz_def prog_apiListClients_def prog_apiCreateClient_def
      prog_apiGetClient_def prog_apiSetRegistrarIdentity_def PGStore_def FakeStore_def same_calls split: option.split
      intro!: mirrors_storing mirrors_atomically\<close>)
qed

lemma mirrors_serve:
  assumes "e_Store e = PGStore db" "documented_encoders e"
  shows "mirrors view (prog_serve ep e rq) (prog_serve ep (in_memory e) rq)"
  using mirrors_handle [OF assms] by (simp add: prog_serve_def)

end

section \<open>Schedules\<close>

definition same_threads :: "('s \<Rightarrow> fake) \<Rightarrow> 's thread list \<Rightarrow> fake thread list \<Rightarrow> bool" where
  "same_threads view = list_all2 (\<lambda>(ep, rq, p) (ep', rq', q). ep = ep' \<and> rq = rq' \<and> mirrors view p q)"

lemma mirrors_answer: "mirrors view p q \<Longrightarrow> p = Done r \<longleftrightarrow> q = Done r"
  by (cases rule: mirrors.cases) auto

context implementing begin

lemma happen_mirrors:
  assumes "e_Store e = PGStore db" "documented_encoders e" "same_threads view ts us" "wire_ok (view (w_state w))"
    "happen e ev (ts, w) = (ts', w')" "happen (in_memory e) ev (us, world_view view w) = (us', v')"
  shows "same_threads view ts' us' \<and> v' = world_view view w' \<and> wire_ok (view (w_state w'))"
proof (cases ev)
  case (Arrive ep rq)
  with assms mirrors_serve [OF assms(1,2)] show ?thesis
    by (auto simp: same_threads_def intro: list_all2_appendI)
next
  case (Go n)
  have len: "length us = length ts" using assms(3) by (simp add: same_threads_def list_all2_lengthD)
  show ?thesis
  proof (cases "n < length ts")
    case True
    obtain ep rq p q where n: "ts ! n = (ep, rq, p)" "us ! n = (ep, rq, q)" "mirrors view p q"
      using list_all2_nthD [OF assms(3) [unfolded same_threads_def] True] by (auto split: prod.splits)
    show ?thesis
    proof (cases p)
      case (Done r)
      with n(3) have "q = Done r" using mirrors_answer by blast
      with Done n len Go assms(3-6) True show ?thesis by simp
    next
      case (Step f)
      with n(3) obtain g where g: "q = Step g" "world_view view (snd (f w)) = snd (g (world_view view w))"
        "wire_ok (view (w_state (snd (f w))))" "mirrors view (fst (f w)) (fst (g (world_view view w)))"
        using assms(4) by (auto elim!: mirrors_StepE)
      have "same_threads view (ts[n := (ep, rq, fst (f w))]) (us[n := (ep, rq, fst (g (world_view view w)))])"
        using assms(3) g(4) by (auto simp: same_threads_def intro: list_all2_update_cong)
      with g Step n len Go assms(5,6) True show ?thesis by (auto simp: case_prod_beta)
    qed
  qed (use Go len assms(3-6) in simp)
qed

lemma happens_mirrors:
  assumes "e_Store e = PGStore db" "documented_encoders e" "same_threads view ts us" "wire_ok (view (w_state w))"
    "happens e evs (ts, w) = (ts', w')" "happens (in_memory e) evs (us, world_view view w) = (us', v')"
  shows "same_threads view ts' us' \<and> v' = world_view view w' \<and> wire_ok (view (w_state w'))"
  using assms(3-6)
proof (induction evs arbitrary: ts us w)
  case (Cons ev evs)
  obtain ts1 w1 where h: "happen e ev (ts, w) = (ts1, w1)" by fastforce
  obtain us1 v1 where h': "happen (in_memory e) ev (us, world_view view w) = (us1, v1)" by fastforce
  from happen_mirrors [OF assms(1,2) Cons.prems(1,2) h h'] Cons.IH [of ts1 us1 w1] Cons.prems(3,4) h h'
  show ?case by simp
qed simp

end

lemma in_flight_Done: "in_flight p \<longleftrightarrow> (\<forall>r. p \<noteq> Done r)"
  by (cases p) simp_all

lemma quiet_mirrors:
  assumes "same_threads view ts us" "quiet ts" shows "quiet us"
proof -
  have "\<not> clash (us ! m) (us ! n)" if mn: "m < length us" "n < length us" for m n
  proof -
    have len: "length us = length ts" using assms(1) by (simp add: same_threads_def list_all2_lengthD)
    have t: "\<exists>ep rq p q. ts ! k = (ep, rq, p) \<and> us ! k = (ep, rq, q) \<and> in_flight p = in_flight q"
      if "k < length us" for k
      using list_all2_nthD [OF assms(1) [unfolded same_threads_def], of k] that len mirrors_answer
      by (fastforce simp: in_flight_Done split: prod.splits)
    have "\<not> clash (ts ! m) (ts ! n)" using assms(2) mn len by (simp add: quiet_def list_all_length)
    with t [OF mn(1)] t [OF mn(2)] show ?thesis by auto
  qed
  then show ?thesis by (simp add: quiet_def list_all_length)
qed

context implementing begin

lemma calm_mirrors:
  assumes "e_Store e = PGStore db" "documented_encoders e" "same_threads view ts us" "wire_ok (view (w_state w))"
    "calm e evs (ts, w)"
  shows "calm (in_memory e) evs (us, world_view view w)"
  using assms(3-5)
proof (induction evs arbitrary: ts us w)
  case Nil
  then show ?case using quiet_mirrors by simp
next
  case (Cons ev evs)
  obtain ts1 w1 where h: "happen e ev (ts, w) = (ts1, w1)" by fastforce
  obtain us1 v1 where h': "happen (in_memory e) ev (us, world_view view w) = (us1, v1)" by fastforce
  from happen_mirrors [OF assms(1,2) Cons.prems(1,2) h h'] Cons.IH [of ts1 us1 w1] Cons.prems h h'
    quiet_mirrors [OF Cons.prems(1)]
  show ?case by simp
qed

end


text \<open>A service on the reference database.\<close>

definition demo_production :: "fake env" where
  "demo_production = demo_env\<lparr>e_Store := PGStore procedures_db\<rparr>"

lemma demo_production_facts:
  "e_Store demo_production = PGStore procedures_db" "documented_encoders demo_production"
  "in_memory demo_production = demo_env" "wire_ok (w_state (new_world (\<lambda>n. 0) []))"
  "world_view (\<lambda>f. f) w = w"
  by (simp_all add: demo_production_def documented_encoders_def demo_env_def demo_mp_def in_memory_def new_world_def
      world_view_def wire_ok_NewFake time_ok_def day_ok_def)


section \<open>A service in production\<close>

lemma demo_served_production:
  "status_of (w_state (serve_all demo_requests demo_env (new_world (\<lambda>n. 0) []))) (fakeID 1) = Some ''active''"
  by code_simp

lemma demo_happens:
  "happens demo_production evs ([], new_world (\<lambda>n. 0) []) = (ts, w) \<Longrightarrow>
   happens demo_env evs ([], new_world (\<lambda>n. 0) []) = (us, v) \<Longrightarrow> v = w"
  using mirror.happens_mirrors [OF demo_production_facts(1,2) _ demo_production_facts(4), of "[]" "[]" evs ts w us v]
  by (simp add: demo_production_facts(3,5) same_threads_def)



end
