(* ===== verification/PgLifecycle.thy ===== *)
theory PgLifecycle
  imports PgMirrorFacts
begin

text \<open>
  The lifecycle service on the production store.  The procedures are not part of the repository; what
  the interface documents of the four the service calls is stated as \<open>documented_procedures\<close>, over an
  abstract database state with client rows and intended uses.
\<close>

section \<open>What the procedures are documented to do\<close>

definition args :: "(string \<times> string) list \<Rightarrow> json" where
  "args kvs = marshal_map (map (\<lambda>(k, v). (k, JStr v)) kvs)"

definition same_rows :: "('s \<Rightarrow> bool) \<Rightarrow> ('s \<Rightarrow> string \<Rightarrow> ClientFull option) \<Rightarrow> ('s \<Rightarrow> string \<Rightarrow> IntendedUse list) \<Rightarrow> 's \<Rightarrow> 's \<Rightarrow> bool" where
  "same_rows ok row uses s s' \<longleftrightarrow> ok s' \<and> row s' = row s \<and> uses s' = uses s"

text \<open>
  Reading a client and its intended uses answers with their rows or fails; the transition procedure,
  when its envelope has no error code, followed an edge of the matrix and set the status of the one
  client, and changes no row when it has one; the purge changes no client row and no intended use.  A
  procedure that fails names its reason (an envelope with the result error has a code).  Any of them
  may fail for reasons of its own.
\<close>

definition documented_procedures ::
  "'s db \<Rightarrow> ('s \<Rightarrow> bool) \<Rightarrow> ('s \<Rightarrow> string \<Rightarrow> ClientFull option) \<Rightarrow> ('s \<Rightarrow> string \<Rightarrow> IntendedUse list) \<Rightarrow> bool" where
  "documented_procedures db ok row uses \<longleftrightarrow>
     (\<forall>s i c. ok s \<longrightarrow> row s i = Some c \<longrightarrow> cf_ID c = i) \<and>
     (\<forall>s i r s'. ok s \<longrightarrow> db (statement ''registry.get_client_full'') (args [(''client_id'', i)]) s = (r, s') \<longrightarrow>
        same_rows ok row uses s s' \<and>
        (\<forall>d c. reply_envelope r = Some (d, []) \<longrightarrow> unmarshal dec_ClientFull zero_ClientFull d = Some c \<longrightarrow> row s i = Some c)) \<and>
     (\<forall>s i r s'. ok s \<longrightarrow> db (statement ''registry.list_intended_uses'') (args [(''client_id'', i)]) s = (r, s') \<longrightarrow>
        same_rows ok row uses s s' \<and>
        (\<forall>d us. reply_envelope r = Some (d, []) \<longrightarrow>
           unmarshal (dec_one ''intended_uses'' (dec_list zero_IntendedUse dec_IntendedUse)) [] d = Some us \<longrightarrow> us = uses s i)) \<and>
     (\<forall>s i st a ev rs r s'. ok s \<longrightarrow> db (statement ''registry.transition_client'')
          (args [(''client_id'', i), (''to_state'', st), (''actor'', a), (''evidence_ref'', ev), (''reason'', rs)]) s = (r, s') \<longrightarrow>
        (if \<exists>d. reply_envelope r = Some (d, [])
         then \<exists>c. row s i = Some c \<and> (cf_Status c, st) \<in> set legalTransitions \<and> ok s' \<and>
                row s' = (row s)(i \<mapsto> c\<lparr>cf_Status := st\<rparr>) \<and> uses s' = uses s
         else same_rows ok row uses s s')) \<and>
     (\<forall>s i a r s'. ok s \<longrightarrow> db (statement ''registry.purge_offboarded'') (args [(''client_id'', i), (''actor'', a)]) s = (r, s') \<longrightarrow>
        same_rows ok row uses s s')"

section \<open>The service over the procedures\<close>

lemma call_strings:
  "call db proc (marshal_strings kvs) s =
     (case db (statement proc) (args kvs) s of (r, s') \<Rightarrow> (fst (call db proc (marshal_strings kvs) s), s'))"
proof -
  have "snd (call db proc (marshal_strings kvs) s) = snd (db (statement proc) (args kvs) s)"
    by (simp add: call_frame marshal_strings_def args_def)
  then show ?thesis by (simp add: case_prod_beta prod_eq_iff)
qed

lemma call_ok_envelope:
  assumes "call db proc (marshal_strings kvs) s = (Inr d, s')"
  shows "\<exists>r d'. db (statement proc) (args kvs) s = (r, s') \<and> reply_envelope r = Some (d', []) \<and> (d = d' \<or> d = RawNil)"
proof -
  obtain r s1 where r: "db (statement proc) (args kvs) s = (r, s1)" by fastforce
  with assms have "s1 = s'" using call_strings [of db proc kvs s] by simp
  with assms r call_reply [of db proc "args kvs" s r s1, OF r] show ?thesis
    by (cases r rule: reply_text.cases)
       (auto simp: marshal_strings_def args_def reply_envelope_def split: sum.splits prod.splits if_splits)
qed

lemma call_err_envelope:
  assumes "call db proc (marshal_strings kvs) s = (Inl e, s')"
  shows "\<exists>r. db (statement proc) (args kvs) s = (r, s') \<and> (\<nexists>d. reply_envelope r = Some (d, []))"
proof -
  obtain r s1 where r: "db (statement proc) (args kvs) s = (r, s1)" by fastforce
  with assms have "s1 = s'" using call_strings [of db proc kvs s] by simp
  with assms r call_reply [of db proc "args kvs" s r s1, OF r] show ?thesis
    by (cases r rule: reply_text.cases)
       (auto simp: marshal_strings_def args_def reply_envelope_def split: sum.splits prod.splits if_splits)
qed

lemma call_replied: "call db proc (marshal_strings kvs) s = (q, s') \<Longrightarrow> \<exists>r. db (statement proc) (args kvs) s = (r, s')"
  using call_strings [of db proc kvs s] by (auto split: prod.splits)

lemma decoded_ok:
  assumes "decoded dec z p = (Inr v, s')"
  shows "\<exists>j. p = (Inr (RawJSON j), s') \<and> unmarshal dec z (RawJSON j) = Some v"
  using assms by (auto simp: decoded_def unmarshal_def split: prod.splits sum.splits option.splits raw.splits)

lemma decoded_state: "decoded dec z p = (q, s') \<Longrightarrow> \<exists>q'. p = (q', s')"
  by (auto simp: decoded_def split: prod.splits sum.splits option.splits)

lemma only_error_ok: "only_error p = (Inr (), s') \<Longrightarrow> \<exists>d. p = (Inr d, s')"
  by (auto simp: only_error_def split: prod.splits sum.splits)

lemma only_error_err: "only_error p = (Inl e, s') \<Longrightarrow> p = (Inl e, s')"
  by (auto simp: only_error_def split: prod.splits sum.splits)

lemma only_error_state: "only_error p = (q, s') \<Longrightarrow> \<exists>q'. p = (q', s')"
  by (auto simp: only_error_def split: prod.splits sum.splits)

lemma decoded_reply:
  assumes "decoded dec z (call db proc (marshal_strings kvs) s) = (q, s')"
  obtains r where "db (statement proc) (args kvs) s = (r, s')"
  using decoded_state [OF assms] call_replied by metis

lemma only_error_reply:
  assumes "only_error (call db proc (marshal_strings kvs) s) = (q, s')"
  obtains r where "db (statement proc) (args kvs) s = (r, s')"
  using only_error_state [OF assms] call_replied by metis

lemma decoded_envelope:
  assumes "decoded dec z (call db proc (marshal_strings kvs) s) = (Inr v, s')"
  obtains r j where "db (statement proc) (args kvs) s = (r, s')" "reply_envelope r = Some (RawJSON j, [])"
    "unmarshal dec z (RawJSON j) = Some v"
proof -
  obtain j where j: "call db proc (marshal_strings kvs) s = (Inr (RawJSON j), s')" "unmarshal dec z (RawJSON j) = Some v"
    using decoded_ok [OF assms] by blast
  from call_ok_envelope [OF j(1)] obtain r where "db (statement proc) (args kvs) s = (r, s')"
    "reply_envelope r = Some (RawJSON j, [])" by auto
  with that j(2) show thesis by blast
qed

lemma only_error_envelope:
  assumes "only_error (call db proc (marshal_strings kvs) s) = (q, s')"
  obtains r where "db (statement proc) (args kvs) s = (r, s')" "q = Inr () \<longleftrightarrow> (\<exists>d. reply_envelope r = Some (d, []))"
proof (cases q)
  case (Inl e)
  from call_err_envelope [OF only_error_err [OF assms [unfolded Inl]]] that Inl show thesis by auto
next
  case (Inr u)
  with assms have "only_error (call db proc (marshal_strings kvs) s) = (Inr (), s')" by simp
  from only_error_ok [OF this] obtain d where "call db proc (marshal_strings kvs) s = (Inr d, s')" by blast
  from call_ok_envelope [OF this] that Inr show thesis by auto
qed

lemma documentedD:
  assumes "documented_procedures db ok row uses" "ok s"
  shows "row s i = Some c \<Longrightarrow> cf_ID c = i"
    "db (statement ''registry.get_client_full'') (args [(''client_id'', i)]) s = (r, s') \<Longrightarrow> same_rows ok row uses s s'"
    "db (statement ''registry.get_client_full'') (args [(''client_id'', i)]) s = (r, s') \<Longrightarrow>
       reply_envelope r = Some (d, []) \<Longrightarrow> unmarshal dec_ClientFull zero_ClientFull d = Some c \<Longrightarrow> row s i = Some c"
    "db (statement ''registry.list_intended_uses'') (args [(''client_id'', i)]) s = (r, s') \<Longrightarrow> same_rows ok row uses s s'"
    "db (statement ''registry.list_intended_uses'') (args [(''client_id'', i)]) s = (r, s') \<Longrightarrow>
       reply_envelope r = Some (d, []) \<Longrightarrow>
       unmarshal (dec_one ''intended_uses'' (dec_list zero_IntendedUse dec_IntendedUse)) [] d = Some us \<Longrightarrow> us = uses s i"
    "db (statement ''registry.transition_client'')
       (args [(''client_id'', i), (''to_state'', st), (''actor'', a), (''evidence_ref'', ev), (''reason'', rs)]) s = (r, s') \<Longrightarrow>
     if \<exists>d. reply_envelope r = Some (d, [])
     then \<exists>c. row s i = Some c \<and> (cf_Status c, st) \<in> set legalTransitions \<and> ok s' \<and>
            row s' = (row s)(i \<mapsto> c\<lparr>cf_Status := st\<rparr>) \<and> uses s' = uses s
     else same_rows ok row uses s s'"
    "db (statement ''registry.purge_offboarded'') (args [(''client_id'', i), (''actor'', a)]) s = (r, s') \<Longrightarrow>
       same_rows ok row uses s s'"
proof -
  note doc = assms(1) [unfolded documented_procedures_def]
  note get = doc [THEN conjunct2, THEN conjunct1, rule_format, OF assms(2)]
    and list = doc [THEN conjunct2, THEN conjunct2, THEN conjunct1, rule_format, OF assms(2)]
  show "row s i = Some c \<Longrightarrow> cf_ID c = i" by (rule doc [THEN conjunct1, rule_format, OF assms(2)])
  show "db (statement ''registry.get_client_full'') (args [(''client_id'', i)]) s = (r, s') \<Longrightarrow> same_rows ok row uses s s'"
    by (rule get [THEN conjunct1])
  show "db (statement ''registry.get_client_full'') (args [(''client_id'', i)]) s = (r, s') \<Longrightarrow>
       reply_envelope r = Some (d, []) \<Longrightarrow> unmarshal dec_ClientFull zero_ClientFull d = Some c \<Longrightarrow> row s i = Some c"
    by (rule get [THEN conjunct2, rule_format])
  show "db (statement ''registry.list_intended_uses'') (args [(''client_id'', i)]) s = (r, s') \<Longrightarrow> same_rows ok row uses s s'"
    by (rule list [THEN conjunct1])
  show "db (statement ''registry.list_intended_uses'') (args [(''client_id'', i)]) s = (r, s') \<Longrightarrow>
       reply_envelope r = Some (d, []) \<Longrightarrow>
       unmarshal (dec_one ''intended_uses'' (dec_list zero_IntendedUse dec_IntendedUse)) [] d = Some us \<Longrightarrow> us = uses s i"
    by (rule list [THEN conjunct2, rule_format])
  show "db (statement ''registry.transition_client'')
       (args [(''client_id'', i), (''to_state'', st), (''actor'', a), (''evidence_ref'', ev), (''reason'', rs)]) s = (r, s') \<Longrightarrow>
     if \<exists>d. reply_envelope r = Some (d, [])
     then \<exists>c. row s i = Some c \<and> (cf_Status c, st) \<in> set legalTransitions \<and> ok s' \<and>
            row s' = (row s)(i \<mapsto> c\<lparr>cf_Status := st\<rparr>) \<and> uses s' = uses s
     else same_rows ok row uses s s'"
    by (rule doc [THEN conjunct2, THEN conjunct2, THEN conjunct2, THEN conjunct1, rule_format, OF assms(2)])
  show "db (statement ''registry.purge_offboarded'') (args [(''client_id'', i), (''actor'', a)]) s = (r, s') \<Longrightarrow>
       same_rows ok row uses s s'"
    by (rule doc [THEN conjunct2, THEN conjunct2, THEN conjunct2, THEN conjunct2, rule_format, OF assms(2)])
qed

lemma production_get:
  assumes "documented_procedures db ok row uses" "ok s" "PG_GetClientFull db i s = (r, s')"
  shows "same_rows ok row uses s s'" "r = Inr c \<Longrightarrow> row s i = Some c"
proof -
  note p = assms(3) [unfolded PG_GetClientFull_def]
  obtain q where "db (statement ''registry.get_client_full'') (args [(''client_id'', i)]) s = (q, s')"
    using p by (rule decoded_reply)
  from documentedD(2) [OF assms(1,2) this] show "same_rows ok row uses s s'" .
  assume "r = Inr c"
  with p have p: "decoded dec_ClientFull zero_ClientFull
      (call db ''registry.get_client_full'' (marshal_strings [(''client_id'', i)]) s) = (Inr c, s')" by simp
  obtain q j where q: "db (statement ''registry.get_client_full'') (args [(''client_id'', i)]) s = (q, s')"
    "reply_envelope q = Some (RawJSON j, [])" "unmarshal dec_ClientFull zero_ClientFull (RawJSON j) = Some c"
    using p by (rule decoded_envelope)
  from documentedD(3) [OF assms(1,2) q] show "row s i = Some c" .
qed

lemma production_list:
  assumes "documented_procedures db ok row uses" "ok s" "PG_ListIntendedUses db i s = (r, s')"
  shows "same_rows ok row uses s s'" "r = Inr us \<Longrightarrow> us = uses s i"
proof -
  note p = assms(3) [unfolded PG_ListIntendedUses_def]
  obtain q where "db (statement ''registry.list_intended_uses'') (args [(''client_id'', i)]) s = (q, s')"
    using p by (rule decoded_reply)
  from documentedD(4) [OF assms(1,2) this] show "same_rows ok row uses s s'" .
  assume "r = Inr us"
  with p have p: "decoded (dec_one ''intended_uses'' (dec_list zero_IntendedUse dec_IntendedUse)) []
      (call db ''registry.list_intended_uses'' (marshal_strings [(''client_id'', i)]) s) = (Inr us, s')" by simp
  obtain q j where q: "db (statement ''registry.list_intended_uses'') (args [(''client_id'', i)]) s = (q, s')"
    "reply_envelope q = Some (RawJSON j, [])"
    "unmarshal (dec_one ''intended_uses'' (dec_list zero_IntendedUse dec_IntendedUse)) [] (RawJSON j) = Some us"
    using p by (rule decoded_envelope)
  from documentedD(5) [OF assms(1,2) q] show "us = uses s i" .
qed

lemma production_transition:
  assumes "documented_procedures db ok row uses" "ok s" "PG_TransitionClient db i st a ev rs s = (r, s')"
  shows "if r = Inr () then \<exists>c. row s i = Some c \<and> (cf_Status c, st) \<in> set legalTransitions \<and> ok s' \<and>
        row s' = (row s)(i \<mapsto> c\<lparr>cf_Status := st\<rparr>) \<and> uses s' = uses s
     else same_rows ok row uses s s'"
proof -
  obtain q where q: "db (statement ''registry.transition_client'')
       (args [(''client_id'', i), (''to_state'', st), (''actor'', a), (''evidence_ref'', ev), (''reason'', rs)]) s = (q, s')"
     "r = Inr () \<longleftrightarrow> (\<exists>d. reply_envelope q = Some (d, []))"
    using assms(3) [unfolded PG_TransitionClient_def] by (rule only_error_envelope)
  from documentedD(6) [OF assms(1,2) q(1)] q(2) show ?thesis by simp
qed

lemma production_purge:
  assumes "documented_procedures db ok row uses" "ok s" "PG_PurgeOffboarded db i a s = (r, s')"
  shows "same_rows ok row uses s s'"
proof -
  obtain q where "db (statement ''registry.purge_offboarded'') (args [(''client_id'', i), (''actor'', a)]) s = (q, s')"
    using assms(3) [unfolded PG_PurgeOffboarded_def] by (rule only_error_reply)
  from documentedD(7) [OF assms(1,2) this] show ?thesis .
qed

text \<open>The contract of the lifecycle service holds of the production store.\<close>

lemma production_lifecycle_store:
  assumes doc: "documented_procedures db ok row uses"
  shows "lifecycle_store (PGStore db) ok row uses (set legalTransitions)"
proof unfold_locales
  fix s i c show "ok s \<Longrightarrow> row s i = Some c \<Longrightarrow> cf_ID c = i" by (rule documentedD(1) [OF doc])
next
  fix s i st a ev rs s' assume "ok s" "TransitionClient (PGStore db) i st a ev rs s = (Inr (), s')"
  then show "\<exists>c. row s i = Some c \<and> (cf_Status c, st) \<in> set legalTransitions \<and> ok s' \<and>
      row s' = (row s)(i \<mapsto> c\<lparr>cf_Status := st\<rparr>) \<and> uses s' = uses s"
    using production_transition [OF doc, of s i st a ev rs "Inr ()" s'] by simp
next
  fix s i st a ev rs e s' assume "ok s" "TransitionClient (PGStore db) i st a ev rs s = (Inl e, s')"
  then show "ok s' \<and> row s' = row s \<and> uses s' = uses s"
    using production_transition [OF doc, of s i st a ev rs "Inl e" s'] by (simp add: same_rows_def)
next
  fix s i r s' assume "ok s" "GetClientFull (PGStore db) i s = (r, s')"
  then show "ok s' \<and> row s' = row s \<and> uses s' = uses s"
    using production_get(1) [OF doc, of s i r s'] by (simp add: same_rows_def)
next
  fix s i c s' assume "ok s" "GetClientFull (PGStore db) i s = (Inr c, s')"
  then show "row s i = Some c" using production_get(2) [OF doc, of s i "Inr c" s' c] by simp
next
  fix s i q s' assume "ok s" "ListIntendedUses (PGStore db) i s = (q, s')"
  then show "ok s' \<and> row s' = row s \<and> uses s' = uses s"
    using production_list(1) [OF doc, of s i q s'] by (simp add: same_rows_def)
next
  fix s i us s' assume "ok s" "ListIntendedUses (PGStore db) i s = (Inr us, s')"
  then show "us = uses s i" using production_list(2) [OF doc, of s i "Inr us" s' us] by simp
next
  fix s i a p s' assume "ok s" "PurgeOffboarded (PGStore db) i a s = (p, s')"
  then show "ok s' \<and> row s' = row s \<and> uses s' = uses s"
    using production_purge [OF doc, of s i a p s'] by (simp add: same_rows_def)
qed

text \<open>
  C10 (the lifecycle on the production store): under the documented behaviour of the procedures, a
  transition that succeeds moved exactly the one client, along an edge of the matrix or staying
  offboarded; if it went to active, the client had a client identifier, an absolute https registry URL
  and a non-revoked intended use at that moment.  A transition that fails moved nothing, except that
  an offboarding whose purge failed did move the client.
\<close>

theorem production_transition_gate:
  assumes "documented_procedures db ok row uses" "ok s"
    "Transition (NewService (PGStore db)) i st a ev rs s = (r, s')"
  shows "ok s' \<and> uses s' = uses s \<and>
    (if r = Inr ()
     then \<exists>c. row s i = Some c \<and> row s' = (row s)(i \<mapsto> c\<lparr>cf_Status := st\<rparr>) \<and>
       ((cf_Status c, st) \<in> set legalTransitions \<or> st = ''offboarded'' \<and> cf_Status c = ''offboarded'') \<and>
       (st = ''active'' \<longrightarrow> cf_ClientIdentifier c \<noteq> [] \<and> isAbsoluteHTTPSURL (cf_RegistryURI c) \<and>
          (\<exists>iu \<in> set (uses s i). iu_RevokedAt iu = []))
     else row s' = row s \<or> st = ''offboarded'' \<and>
       (\<exists>c. row s i = Some c \<and> (cf_Status c, st) \<in> set legalTransitions \<and> row s' = (row s)(i \<mapsto> c\<lparr>cf_Status := st\<rparr>)))"
proof -
  note ls = production_lifecycle_store [OF assms(1)]
  have sv: "sv_Store (NewService (PGStore db)) = PGStore db" by (simp add: NewService_def)
  note eff = lifecycle_store.Transition_effect [OF ls sv assms(2,3)]
  have pred: "(b, ''active'') \<in> set legalTransitions \<Longrightarrow> b \<in> {''registered'', ''suspended''}" for b
    by (auto simp: legalTransitions_def)
  show ?thesis
  proof (cases "r = Inr ()")
    case True
    with eff obtain c where c: "row s i = Some c" "row s' = (row s)(i \<mapsto> c\<lparr>cf_Status := st\<rparr>)"
      "(cf_Status c, st) \<in> set legalTransitions \<or> st = ''offboarded'' \<and> cf_Status c = ''offboarded''"
      "st = ''active'' \<and> cf_Status c \<in> {''registered'', ''suspended''} \<longrightarrow> gate (NewService (PGStore db)) (uses s i) c"
      by (auto simp: lifecycle_store.success_def [OF ls] lifecycle_store.moved_def [OF ls] state_defs)
    have "st = ''active'' \<Longrightarrow> gate (NewService (PGStore db)) (uses s i) c" using c(3,4) pred [of "cf_Status c"] by auto
    with c(1-3) eff True show ?thesis
      by (auto simp: gate_def usable_identity_def anyNonRevoked_def list_ex_iff intro!: exI [of _ c])
  next
    case False
    with eff show ?thesis
      by (auto simp: lifecycle_store.failure_def [OF ls] lifecycle_store.moved_def [OF ls] state_defs)
  qed
qed

section \<open>The reference database has these procedures\<close>

lemma reply_envelopes [simp]:
  "reply_envelope (success_reply j) = Some (RawJSON j, [])"
  "reply_envelope (raised code) = Some (RawNil, code)"
  "reply_envelope (QueryError e None) = None"
  by (simp_all add: reply_envelope_def success_reply_def parse_success raised_def parse_raised)

lemma answering_fail [simp]: "answering row (fail code, s) = (raised code, s)"
  by (simp add: fail_def)

lemma procedures_called:
  "procedures_db (statement ''registry.get_client_full'') (args [(''client_id'', i)]) s =
     answering client_json (Fake_GetClientFull i s)"
  "procedures_db (statement ''registry.list_intended_uses'') (args [(''client_id'', i)]) s =
     answering (rows_json ''intended_uses'' use_json) (Fake_ListIntendedUses i s)"
  "procedures_db (statement ''registry.transition_client'')
     (args [(''client_id'', i), (''to_state'', st), (''actor'', a), (''evidence_ref'', ev), (''reason'', rs)]) s =
     answering done_json (Fake_TransitionClient i st a ev rs s)"
  "procedures_db (statement ''registry.purge_offboarded'') (args [(''client_id'', i), (''actor'', a)]) s =
     answering done_json (Fake_PurgeOffboarded i a s)"
  by (simp_all add: procedure_simps args_def)

definition carried :: "fake \<Rightarrow> bool" where
  "carried f \<longleftrightarrow> fake_inv f \<and> wire_ok f"

lemma carried_exec: "carried f \<Longrightarrow> writes_ok c \<Longrightarrow> carried (snd (exec_call c f))"
  by (simp add: carried_def exec_call_inv wire_ok_exec)

lemma reference_documented: "documented_procedures procedures_db carried fake_row fake_uses"
  unfolding documented_procedures_def
proof (intro conjI allI impI)
  fix s i c show "carried s \<Longrightarrow> fake_row s i = Some c \<Longrightarrow> cf_ID c = i" unfolding carried_def using fk.row_id by blast
next
  fix s s' :: fake and i r
  assume s: "carried s" "procedures_db (statement ''registry.get_client_full'') (args [(''client_id'', i)]) s = (r, s')"
  then show "same_rows carried fake_row fake_uses s s'"
    by (auto simp: procedures_called fake_get same_rows_def split: option.splits)
  fix d c
  assume "reply_envelope r = Some (d, [])" "unmarshal dec_ClientFull zero_ClientFull d = Some c"
  with s show "fake_row s i = Some c"
    using wire_ok_client [of s i]
    by (auto simp: procedures_called fake_get fake_row_def unmarshal_def client_wire carried_def split: option.splits)
next
  fix s s' :: fake and i r
  assume s: "carried s" "procedures_db (statement ''registry.list_intended_uses'') (args [(''client_id'', i)]) s = (r, s')"
  then show "same_rows carried fake_row fake_uses s s'" by (simp add: procedures_called Fake_ListIntendedUses_def same_rows_def)
  fix d us
  assume d: "reply_envelope r = Some (d, [])"
    "unmarshal (dec_one ''intended_uses'' (dec_list zero_IntendedUse dec_IntendedUse)) [] d = Some us"
  have "d = RawJSON (rows_json ''intended_uses'' use_json (listed_uses i s))"
    using s d(1) by (auto simp: procedures_called Fake_ListIntendedUses_def)
  moreover have "unmarshal (dec_one ''intended_uses'' (dec_list zero_IntendedUse dec_IntendedUse)) []
      (RawJSON (rows_json ''intended_uses'' use_json (listed_uses i s))) = Some (listed_uses i s)"
    by (rule rows_wire) (use s(1) wire_ok_uses use_wire in \<open>auto simp: carried_def\<close>)
  ultimately show "us = fake_uses s i" using d(2) by (simp add: fake_uses_def)
next
  fix s s' :: fake and i st a ev rs r
  assume s: "carried s" "procedures_db (statement ''registry.transition_client'')
    (args [(''client_id'', i), (''to_state'', st), (''actor'', a), (''evidence_ref'', ev), (''reason'', rs)]) s = (r, s')"
  have "carried (snd (exec_call (CallTransition i st a ev rs) s))" by (rule carried_exec [OF s(1)]) simp
  with s show "if \<exists>d. reply_envelope r = Some (d, [])
    then \<exists>c. fake_row s i = Some c \<and> (cf_Status c, st) \<in> set legalTransitions \<and> carried s' \<and>
      fake_row s' = (fake_row s)(i \<mapsto> c\<lparr>cf_Status := st\<rparr>) \<and> fake_uses s' = fake_uses s
    else same_rows carried fake_row fake_uses s s'"
    by (auto simp: procedures_called fake_transition same_rows_def split: option.splits if_splits)
next
  fix s s' :: fake and i a r
  assume s: "carried s" "procedures_db (statement ''registry.purge_offboarded'') (args [(''client_id'', i), (''actor'', a)]) s = (r, s')"
  have "carried (snd (exec_call (CallPurgeOffboarded i a) s))" by (rule carried_exec [OF s(1)]) simp
  with s show "same_rows carried fake_row fake_uses s s'"
    by (auto simp: procedures_called fake_purge same_rows_def split: option.splits if_splits)
qed

lemma ready_carried: "carried ready_store"
proof -
  have "wire_ok ready_store"
    unfolding ready_store_def
    by (rule wire_ok_run)
       (simp_all add: wire_ok_NewFake time_ok_def day_ok_def ready_calls_def use_ok_def demo_use_def)
  then show ?thesis using ready_inv by (simp add: carried_def)
qed

lemma ready_activation:
  "fst (Transition (NewService (PGStore procedures_db)) (fakeID 1) ''active'' ''op'' [] [] ready_store) = Inr ()"
proof -
  obtain c where c: "fake_row ready_store (fakeID 1) = Some c" "cf_Status c = ''registered''"
    "gate (NewService FakeStore) (fake_uses ready_store (fakeID 1)) c" using ready_gate by blast
  have id: "cf_ID c = fakeID 1" by (rule fk.row_id [OF ready_inv c(1)])
  have wire: "wire_ok ready_store" using ready_carried by (simp add: carried_def)
  have same: "map_prod id (\<lambda>f. f) p = p" for p :: "'a \<times> fake" by (cases p) simp
  have get: "PG_GetClientFull procedures_db (fakeID 1) ready_store = (Inr c, ready_store)"
    using mirror.GetClient [OF wire, of "fakeID 1"] c(1) by (simp add: same fake_get)
  have list: "PG_ListIntendedUses procedures_db (fakeID 1) ready_store = (Inr (fake_uses ready_store (fakeID 1)), ready_store)"
    using mirror.ListUses [OF wire, of "fakeID 1"] by (simp add: same Fake_ListIntendedUses_def fake_uses_def)
  have "(cf_Status c, ''active'') \<in> set legalTransitions" using c(2) by (simp add: legalTransitions_def)
  with mirror.Transition [of "fakeID 1" "''active''" "''op''" "[]" "[]" ready_store] c(1) obtain g where
    "PG_TransitionClient procedures_db (fakeID 1) ''active'' ''op'' [] [] ready_store = (Inr (), g)"
    by (auto simp: same fake_transition)
  then have "flip_and_purge (NewService (PGStore procedures_db)) (fakeID 1) ''active'' ''op'' [] [] ready_store = (Inr (), g)"
    by (simp add: flip_and_purge_def NewService_def state_defs)
  moreover have "checkActivationPreconditions (NewService (PGStore procedures_db)) c ready_store = (Inr (), ready_store)"
    using c(3) list id by (simp add: checkActivationPreconditions_def gate_def usable_identity_def NewService_def ts5OK_def)
  ultimately show ?thesis
    using get c(2) by (simp add: Transition_def transition_from_def NewService_def state_defs)
qed

theorem production_transition_gate_witness:
  "\<exists>c. fake_row ready_store (fakeID 1) = Some c \<and> isAbsoluteHTTPSURL (cf_RegistryURI c) \<and>
     fake_row (snd (Transition (NewService (PGStore procedures_db)) (fakeID 1) ''active'' ''op'' [] [] ready_store)) (fakeID 1) =
       Some (c\<lparr>cf_Status := ''active''\<rparr>)"
proof -
  let ?t = "Transition (NewService (PGStore procedures_db)) (fakeID 1) ''active'' ''op'' [] [] ready_store"
  have "?t = (Inr (), snd ?t)" using ready_activation by (metis prod.collapse)
  from production_transition_gate [OF reference_documented ready_carried this] show ?thesis by auto
qed

end
