(* ===== verification/Boot.thy ===== *)
theory Boot
  imports PgStore Server "HOL-Library.Sublist"
begin

text \<open>
  Starting the service: \<^verbatim>\<open>config.go\<close>, \<^verbatim>\<open>redaction.go\<close>, \<^verbatim>\<open>app.go\<close>, the command line of \<^verbatim>\<open>cmd/server\<close> and the
  test application of \<^verbatim>\<open>testing.go\<close>.
  The framework, the configuration library, the validation library, the platform kit and the
  connection pool are parameters, the fields of \<open>platform\<close>; what the code relies on is stated as
  \<open>documented_platform\<close> and \<open>documented_viper\<close>.
\<close>

section \<open>Configuration\<close>

text \<open>The embedded base configuration is the kit's, of any type.\<close>

record 'b Configuration =
  cfg_Base :: 'b
  cfg_PostgresDSN :: string
  cfg_AdminAPIKey :: string

record ('v, 'b, 's) platform =
  pf_NewBase :: 'b
  pf_BaseBind :: "'v \<Rightarrow> 'v"
  pf_SetDefault :: "string \<Rightarrow> string \<Rightarrow> 'v \<Rightarrow> 'v"
  pf_BindEnv :: "string \<Rightarrow> string \<Rightarrow> 'v \<Rightarrow> 'v"
  pf_LoadRemoteSecret :: "string \<Rightarrow> string result"
  pf_BaseValidate :: "'b \<Rightarrow> gerror option"
  pf_Struct :: "'b Configuration \<Rightarrow> gerror option"
  pf_DefaultDropKeys :: "string list"
  pf_serverNew :: "string \<Rightarrow> string \<Rightarrow> 'b Configuration \<Rightarrow> ('v \<Rightarrow> 'v) \<Rightarrow> ('b Configuration \<Rightarrow> gerror option) \<Rightarrow> 'b Configuration result"
  pf_Setup :: "'b \<Rightarrow> string list \<Rightarrow> bool \<Rightarrow> gerror option"
  pf_poolNew :: "string \<Rightarrow> 's db result"

definition NewConfiguration :: "('v, 'b, 's) platform \<Rightarrow> 'b Configuration" where
  "NewConfiguration pf = \<lparr>cfg_Base = pf_NewBase pf, cfg_PostgresDSN = [], cfg_AdminAPIKey = []\<rparr>"

definition loadSecret :: "('v, 'b, 's) platform \<Rightarrow> string \<Rightarrow> string \<Rightarrow> 'v \<Rightarrow> 'v" where
  "loadSecret pf key name v =
     (case pf_LoadRemoteSecret pf name of
        Inl err \<Rightarrow> v
      | Inr secret \<Rightarrow> if secret \<noteq> [] then pf_SetDefault pf key secret v else v)"

definition Bind :: "('v, 'b, 's) platform \<Rightarrow> 'v \<Rightarrow> 'v" where
  "Bind pf v =
     (let v = pf_BaseBind pf v;
          v = loadSecret pf ''postgres_dsn'' ''POSTGRES_DSN'' v;
          v = loadSecret pf ''admin_api_key'' ''ADMIN_API_KEY'' v;
          v = pf_BindEnv pf ''postgres_dsn'' ''POSTGRES_DSN'' v
      in pf_BindEnv pf ''admin_api_key'' ''ADMIN_API_KEY'' v)"

definition Validate :: "('v, 'b, 's) platform \<Rightarrow> 'b Configuration \<Rightarrow> gerror option" where
  "Validate pf c = (case pf_BaseValidate pf (cfg_Base c) of Some err \<Rightarrow> Some err | None \<Rightarrow> pf_Struct pf c)"

section \<open>Redaction\<close>

definition redacted_keys :: "string list" where
  "redacted_keys =
     [''claim'', ''disclosure'', ''salt'', ''vp_token'', ''kb_jwt'', ''device_signature'', ''deviceauth'',
      ''portrait'', ''biometric'', ''document_number'', ''documentnumber'', ''credentials'', ''result'',
      ''result_jwe'', ''subject'']"

text \<open>The drop keys of the policy, from those of the kit's default.\<close>

definition RedactionPolicy :: "string list \<Rightarrow> string list" where
  "RedactionPolicy base = base @ redacted_keys"

section \<open>The application\<close>

text \<open>Reason, status, title, and whether a built-in reason may be overridden.\<close>

definition registered_reasons :: "(string \<times> nat \<times> string \<times> bool) list" where
  "registered_reasons =
     [(''intendedUseRequired'', 422, ''Intended use required'', False),
      (''registrarIdentityRequired'', 422, ''Client registrar identity required'', False),
      (''ts5CheckFailed'', 422, ''ARF TS5 verification check failed'', False),
      (''illegalTransition'', 409, ''Illegal client-lifecycle transition'', False),
      (''invalidBody'', 400, ''Invalid request body'', False),
      (''registrationInvalid'', 422, ''Registration document invalid'', False),
      (''notFound'', 404, ''Not found'', True)]"

record ('b, 's) App =
  app_config :: "'b Configuration"
  app_reasons :: "(string \<times> nat \<times> string \<times> bool) list"
  app_db :: "'s db"
  app_store :: "'s Store"

definition init_app :: "('v, 'b, 's) platform \<Rightarrow> 'b Configuration \<Rightarrow> ('b, 's) App result" where
  "init_app pf config =
     (case pf_Setup pf (cfg_Base config) (RedactionPolicy (pf_DefaultDropKeys pf)) True of
        Some err \<Rightarrow> Inl err
      | None \<Rightarrow>
     (case pf_poolNew pf (cfg_PostgresDSN config) of
        Inl err \<Rightarrow> Inl err
      | Inr db \<Rightarrow> Inr \<lparr>app_config = config, app_reasons = registered_reasons, app_db = db, app_store = PGStore db\<rparr>))"

definition New :: "('v, 'b, 's) platform \<Rightarrow> string \<Rightarrow> ('b, 's) App result" where
  "New pf version =
     (case pf_serverNew pf ''Registration API'' version (NewConfiguration pf) (Bind pf) (Validate pf) of
        Inl err \<Rightarrow> Inl err
      | Inr config \<Rightarrow> init_app pf config)"

text \<open>What the handlers of a started application see; the gate captures the key when the routes are
  registered.\<close>

definition app_env :: "('b, 's) App \<Rightarrow> 's env \<Rightarrow> 's env" where
  "app_env app e = e\<lparr>e_Store := app_store app, e_AdminAPIKey := cfg_AdminAPIKey (app_config app)\<rparr>"

text \<open>The command starts the application and registers the routes, which never fails.\<close>

definition Version :: string where "Version = ''0.1.0-dev''"

definition Init :: "('b, 's) App \<Rightarrow> 's env \<Rightarrow> (endpoint \<Rightarrow> 's handler) result" where
  "Init app e = Inr (\<lambda>ep _. serve ep (app_env app e))"

definition runWeb :: "('v, 'b, 's) platform \<Rightarrow> 's env \<Rightarrow> (endpoint \<Rightarrow> 's handler) result" where
  "runWeb pf e = (case New pf Version of Inl err \<Rightarrow> Inl err | Inr app \<Rightarrow> Init app e)"

text \<open>Tests swap the store.\<close>

definition SetStoreForTest :: "'s Store \<Rightarrow> ('b, 's) App \<Rightarrow> ('b, 's) App" where
  "SetStoreForTest S app = app\<lparr>app_store := S\<rparr>"

text \<open>A test application: an environment of its own, and an empty in-memory store.\<close>

type_synonym environ = "string \<rightharpoonup> string"

definition test_environ :: "environ \<Rightarrow> environ" where
  "test_environ env = env
     (''ENVIRONMENT'' \<mapsto> ''development'', ''SERVICE_NAME'' \<mapsto> ''eudi-api-registration'', ''METRICS_ENABLED'' \<mapsto> ''false'',
      ''POSTGRES_DSN'' \<mapsto> ''postgres://registration_api_public:x@127.0.0.1:1/verifier'', ''ADMIN_API_KEY'' \<mapsto> ''test-admin-key'')"

definition NewTestApp ::
  "(environ \<Rightarrow> ('v, 'b, fake) platform) \<Rightarrow> (nat \<Rightarrow> time) \<Rightarrow> environ \<Rightarrow> (('b, fake) App \<times> fake) result" where
  "NewTestApp pf clk env =
     (case New (pf (test_environ env)) ''0.0.0-test'' of
        Inl err \<Rightarrow> Inl err
      | Inr app \<Rightarrow> Inr (SetStoreForTest FakeStore app, NewFake clk))"

lemma test_app_store: "NewTestApp pf clk env = Inr (app, f) \<Longrightarrow> e_Store (app_env app e) = FakeStore \<and> f = NewFake clk"
  by (auto simp: NewTestApp_def SetStoreForTest_def app_env_def split: sum.splits)

section \<open>The command line\<close>

text \<open>The framework's command line is a parameter: it gets the environment, the options and the registered
  commands.  The files of the package register theirs in the order of their names.\<close>

record cli_options =
  opt_Use :: string
  opt_Short :: string
  opt_Version :: string

datatype 'b command = HealthCommand string string string "'b Configuration" | Command string string bool

definition init_health :: "('v, 'b, 's) platform \<Rightarrow> 'b command list \<Rightarrow> 'b command list" where
  "init_health pf cmds = cmds @ [HealthCommand ''/healthz'' ''Registration API'' Version (NewConfiguration pf)]"

definition init_web :: "'b command list \<Rightarrow> 'b command list" where
  "init_web cmds = cmds @ [Command ''web'' ''Start web server'' True]"

definition main_environ :: "environ \<Rightarrow> environ" where
  "main_environ env =
     (if env ''SERVER_URLS'' = None then env(''SERVER_URLS'' \<mapsto> ''http://0.0.0.0:8080'') else env)"

definition main_program ::
  "('v, 'b, 's) platform \<Rightarrow> (environ \<Rightarrow> cli_options \<Rightarrow> 'b command list \<Rightarrow> 'r) \<Rightarrow> environ \<Rightarrow> 'r" where
  "main_program pf cli_Run env =
     cli_Run (main_environ env)
       \<lparr>opt_Use = ''eudi-api-registration'', opt_Short = ''EUDI Wallet verifier registration API'', opt_Version = Version\<rparr>
       (init_web (init_health pf []))"

text \<open>The path the health command asks for is a route outside the key gate, and its answer does not depend
  on the key or the database.\<close>

lemma health_command_route:
  "HealthCommand path name ver config \<in> set (init_web (init_health pf [])) \<Longrightarrow>
   \<exists>ep. (''GET'', path, ep) \<in> set routes \<and>
     (\<forall>e rq w. serve ep e rq w = (RespJSON statusOK (JObj [(''status'', JStr ''ok'')]), w))"
  by (intro exI [of _ Healthz])
     (simp add: init_web_def init_health_def routes_def serve_def healthz_def marshal_map_def)

lemma main_environ_other: "n \<noteq> ''SERVER_URLS'' \<Longrightarrow> main_environ env n = env n"
  by (simp add: main_environ_def)

section \<open>A started service is guarded\<close>

text \<open>The framework starts with a configuration that was validated, and the validation library
  rejects a field tagged \<^verbatim>\<open>required\<close> that is empty.\<close>

definition documented_platform :: "('v, 'b, 's) platform \<Rightarrow> bool" where
  "documented_platform pf \<longleftrightarrow>
     (\<forall>name ver c0 bind validate c. pf_serverNew pf name ver c0 bind validate = Inr c \<longrightarrow> validate c = None) \<and>
     (\<forall>c. pf_Struct pf c = None \<longrightarrow> cfg_PostgresDSN c \<noteq> [] \<and> cfg_AdminAPIKey c \<noteq> [])"

lemma New_config:
  assumes "documented_platform pf" "New pf version = Inr app"
  shows "cfg_PostgresDSN (app_config app) \<noteq> []" "cfg_AdminAPIKey (app_config app) \<noteq> []"
    "app_store app = PGStore (app_db app)"
proof -
  obtain c where c: "pf_serverNew pf ''Registration API'' version (NewConfiguration pf) (Bind pf) (Validate pf) = Inr c" "init_app pf c = Inr app"
    using assms(2) by (auto simp: New_def split: sum.splits)
  have "Validate pf c = None" using assms(1) c(1) unfolding documented_platform_def by blast
  then have "pf_Struct pf c = None" by (simp add: Validate_def split: option.splits)
  then have "cfg_PostgresDSN c \<noteq> []" "cfg_AdminAPIKey c \<noteq> []" using assms(1) by (simp_all add: documented_platform_def)
  moreover have "app_config app = c" "app_store app = PGStore (app_db app)"
    using c(2) by (auto simp: init_app_def split: sum.splits option.splits)
  ultimately show "cfg_PostgresDSN (app_config app) \<noteq> []" "cfg_AdminAPIKey (app_config app) \<noteq> []"
    "app_store app = PGStore (app_db app)" by simp_all
qed

text \<open>
  C30 (a started service is guarded and usable): the service starts only with a non-empty key.  From
  then on a request to the admin API reaches its handler, with the production store, exactly when it
  carries that key; any other is answered by the unauthorized error.  The gate's own check for an
  empty key never fires.
\<close>

theorem started_service_guarded:
  assumes "documented_platform pf" "runWeb pf e = Inr srv" "ep \<notin> {Healthz, Readyz}"
  shows "\<exists>app. New pf Version = Inr app \<and> cfg_AdminAPIKey (app_config app) \<noteq> [] \<and> e_Store (app_env app e) = PGStore (app_db app) \<and>
    srv ep e' rq w =
      (if rq_key rq = cfg_AdminAPIKey (app_config app) then handle ep (app_env app e) rq w
       else (RespError UnauthorizedError, w))"
proof -
  from assms(2) obtain app where app: "New pf Version = Inr app" "srv = (\<lambda>ep _. serve ep (app_env app e))"
    by (auto simp: runWeb_def Init_def split: sum.splits)
  from New_config [OF assms(1) app(1)] app assms(3) show ?thesis
    by (auto simp: serve_def requireAPIKey_def app_env_def Let_def)
qed

text \<open>What the configuration library does: a value bound to an environment variable that is set and not
  empty is that variable, and otherwise the default of its key.\<close>

definition documented_viper ::
  "('v, 'b, 's) platform \<Rightarrow> (string \<Rightarrow> string) \<Rightarrow> ('v \<Rightarrow> string \<Rightarrow> string) \<Rightarrow>
   ('v \<Rightarrow> string \<Rightarrow> string option) \<Rightarrow> ('v \<Rightarrow> string \<Rightarrow> string option) \<Rightarrow> bool" where
  "documented_viper pf environ get defaults bound \<longleftrightarrow>
     (\<forall>k x v. defaults (pf_SetDefault pf k x v) = (defaults v)(k \<mapsto> x) \<and> bound (pf_SetDefault pf k x v) = bound v) \<and>
     (\<forall>k n v. bound v k = None \<longrightarrow>
        bound (pf_BindEnv pf k n v) = (bound v)(k \<mapsto> n) \<and> defaults (pf_BindEnv pf k n v) = defaults v) \<and>
     (\<forall>k n v. bound v k = Some n \<longrightarrow>
        get v k = (if environ n \<noteq> [] then environ n else case defaults v k of Some x \<Rightarrow> x | None \<Rightarrow> [])) \<and>
     (\<forall>k v. k \<in> {''postgres_dsn'', ''admin_api_key''} \<longrightarrow>
        bound (pf_BaseBind pf v) k = None \<and> defaults (pf_BaseBind pf v) k = None)"

text \<open>The content of a secret file, if there is one that is not empty.\<close>

definition secret_of :: "('v, 'b, 's) platform \<Rightarrow> string \<Rightarrow> string" where
  "secret_of pf name = (case pf_LoadRemoteSecret pf name of Inl err \<Rightarrow> [] | Inr secret \<Rightarrow> secret)"

lemma loadSecret_viper:
  assumes "documented_viper pf environ get defaults bound"
  shows "bound (loadSecret pf k n v) = bound v"
    "defaults (loadSecret pf k n v) = (if secret_of pf n = [] then defaults v else (defaults v)(k \<mapsto> secret_of pf n))"
  using assms by (auto simp: loadSecret_def secret_of_def documented_viper_def split: sum.split)

text \<open>
  C31 (where the secrets come from): after binding, each of the two secrets is its environment variable
  if that is set and not empty, otherwise the content of its secret file if there is one, and
  otherwise empty, which validation refuses.
\<close>

theorem secret_precedence:
  assumes "documented_viper pf environ get defaults bound"
    "(k, n) \<in> {(''postgres_dsn'', ''POSTGRES_DSN''), (''admin_api_key'', ''ADMIN_API_KEY'')}"
  shows "get (Bind pf v) k = (if environ n \<noteq> [] then environ n else secret_of pf n)"
proof -
  note d = assms(1) [unfolded documented_viper_def]
  let ?b = "pf_BaseBind pf v"
  let ?s = "loadSecret pf ''admin_api_key'' ''ADMIN_API_KEY'' (loadSecret pf ''postgres_dsn'' ''POSTGRES_DSN'' ?b)"
  let ?p = "pf_BindEnv pf ''postgres_dsn'' ''POSTGRES_DSN'' ?s"
  note s = loadSecret_viper [OF assms(1)]
  have base: "bound ?b ''postgres_dsn'' = None" "bound ?b ''admin_api_key'' = None"
    "defaults ?b ''postgres_dsn'' = None" "defaults ?b ''admin_api_key'' = None" using d by auto
  have p: "bound ?p = (bound ?b)(''postgres_dsn'' \<mapsto> ''POSTGRES_DSN'')" "defaults ?p = defaults ?s"
    using d base s(1) by auto
  have q: "bound (Bind pf v) = (bound ?b)(''postgres_dsn'' \<mapsto> ''POSTGRES_DSN'', ''admin_api_key'' \<mapsto> ''ADMIN_API_KEY'')"
    "defaults (Bind pf v) = defaults ?s"
    using d base p by (auto simp: Bind_def Let_def)
  have "bound (Bind pf v) k = Some n" using assms(2) q(1) by auto
  then have "get (Bind pf v) k = (if environ n \<noteq> [] then environ n else case defaults (Bind pf v) k of Some x \<Rightarrow> x | None \<Rightarrow> [])"
    using d by blast
  moreover have "(case defaults (Bind pf v) k of Some x \<Rightarrow> x | None \<Rightarrow> []) = secret_of pf n"
    using assms(2) base by (auto simp: q(2) s(2))
  ultimately show ?thesis by simp
qed

section \<open>What is redacted\<close>

text \<open>Matching is the kit's: case-insensitive, by substring, on the key of a field.\<close>

definition drops :: "(string \<Rightarrow> string \<Rightarrow> bool) \<Rightarrow> string list \<Rightarrow> string \<Rightarrow> bool" where
  "drops matches keys field = list_ex (\<lambda>k. matches k field) keys"

lemma added_keys:
  "\<not> list_ex (\<lambda>k. sublist (to_lower k) (to_lower ''attribute_names'')) redacted_keys"
  "list_all (\<lambda>f. list_ex (\<lambda>k. sublist (to_lower k) (to_lower f)) redacted_keys)
     [''claims'', ''claim_value'', ''disclosure_salt'', ''vp_token'', ''kb_jwt_payload'', ''documentNumber'',
      ''deviceAuth'', ''result_jwe'', ''Credentials'', ''subject'']"
  by code_simp+

text \<open>
  The redaction policy: with the documented matching, the policy drops every field the default
  drops and the fields that carry claim values; it does not drop \<^verbatim>\<open>attribute_names\<close>, which the service
  has to log, unless the default does.
\<close>

theorem redaction_extends:
  assumes "\<forall>k f. matches k f = sublist (to_lower k) (to_lower f)"
  shows "(drops matches base f \<longrightarrow> drops matches (RedactionPolicy base) f) \<and>
    drops matches (RedactionPolicy base) ''attribute_names'' = drops matches base ''attribute_names'' \<and>
    (f \<in> {''claims'', ''claim_value'', ''disclosure_salt'', ''vp_token'', ''kb_jwt_payload'', ''documentNumber'',
      ''deviceAuth'', ''result_jwe'', ''Credentials'', ''subject''} \<longrightarrow> drops matches (RedactionPolicy base) f)"
proof (intro conjI impI)
  have split: "drops matches (RedactionPolicy base) g \<longleftrightarrow> drops matches base g \<or> drops matches redacted_keys g" for g
    by (simp add: drops_def RedactionPolicy_def)
  show "drops matches base f \<Longrightarrow> drops matches (RedactionPolicy base) f" by (simp add: split)
  have "\<not> drops matches redacted_keys ''attribute_names''"
    unfolding drops_def assms [THEN spec, THEN spec] by (rule added_keys(1))
  then show "drops matches (RedactionPolicy base) ''attribute_names'' = drops matches base ''attribute_names''"
    by (simp add: split)
  assume f: "f \<in> {''claims'', ''claim_value'', ''disclosure_salt'', ''vp_token'', ''kb_jwt_payload'', ''documentNumber'',
      ''deviceAuth'', ''result_jwe'', ''Credentials'', ''subject''}"
  have "drops matches redacted_keys f"
    unfolding drops_def assms [THEN spec, THEN spec] using added_keys(2) f
    by (simp only: list_all_iff list.set)
  then show "drops matches (RedactionPolicy base) f" by (simp add: split)
qed

section \<open>A platform\<close>

text \<open>A configuration library that keeps the defaults and the bindings, and a framework that reads the two
  fields from it and validates them.\<close>

definition demo_environ :: "string \<Rightarrow> string" where
  "demo_environ n = (if n = ''POSTGRES_DSN'' then ''postgres://db'' else [])"

definition demo_get :: "(string \<rightharpoonup> string) \<times> (string \<rightharpoonup> string) \<Rightarrow> string \<Rightarrow> string" where
  "demo_get v k = (case snd v k of
     None \<Rightarrow> []
   | Some n \<Rightarrow> if demo_environ n \<noteq> [] then demo_environ n else case fst v k of Some x \<Rightarrow> x | None \<Rightarrow> [])"

definition demo_platform :: "((string \<rightharpoonup> string) \<times> (string \<rightharpoonup> string), unit, unit) platform" where
  "demo_platform =
     \<lparr>pf_NewBase = (),
      pf_BaseBind = (\<lambda>_. (Map.empty, Map.empty)),
      pf_SetDefault = (\<lambda>k x v. ((fst v)(k \<mapsto> x), snd v)),
      pf_BindEnv = (\<lambda>k n v. (fst v, (snd v)(k \<mapsto> n))),
      pf_LoadRemoteSecret = (\<lambda>n. if n = ''ADMIN_API_KEY'' then Inr ''k3y'' else Inl (LibError ''no file'')),
      pf_BaseValidate = (\<lambda>_. None),
      pf_Struct = (\<lambda>c. if cfg_PostgresDSN c = [] \<or> cfg_AdminAPIKey c = [] then Some (LibError ''required'') else None),
      pf_DefaultDropKeys = [''session''],
      pf_serverNew = (\<lambda>_ _ c0 bnd val.
        let v = bnd (Map.empty, Map.empty);
            c = c0\<lparr>cfg_PostgresDSN := demo_get v ''postgres_dsn'', cfg_AdminAPIKey := demo_get v ''admin_api_key''\<rparr>
        in case val c of Some err \<Rightarrow> Inl err | None \<Rightarrow> Inr c),
      pf_Setup = (\<lambda>_ _ _. None),
      pf_poolNew = (\<lambda>dsn. Inr (\<lambda>_ _ s. (QueryError (LibError ''down'') None, s)))\<rparr>"

lemma demo_documented: "documented_platform demo_platform" "documented_viper demo_platform demo_environ demo_get fst snd"
  by (auto simp: documented_platform_def documented_viper_def demo_platform_def demo_get_def Let_def split: option.splits if_splits)

theorem secret_precedence_witness:
  "demo_get (Bind demo_platform (Map.empty, Map.empty)) ''admin_api_key'' = ''k3y'' \<and>
   demo_get (Bind demo_platform (Map.empty, Map.empty)) ''postgres_dsn'' = ''postgres://db''"
  using secret_precedence [OF demo_documented(2), of "''admin_api_key''" "''ADMIN_API_KEY''" "(Map.empty, Map.empty)"]
    secret_precedence [OF demo_documented(2), of "''postgres_dsn''" "''POSTGRES_DSN''" "(Map.empty, Map.empty)"]
  by (simp add: demo_environ_def secret_of_def demo_platform_def)

definition demo_pg_env :: "unit env" where
  "demo_pg_env = \<lparr>e_Store = PGStore (\<lambda>_ _ s. (QueryError (LibError ''down'') None, s)), e_AdminAPIKey = [],
     e_marshalPurpose = (\<lambda>_. Inr RawNil), e_marshalWRP = (\<lambda>_. Inr RawNil), e_ulid = (\<lambda>_. []), e_clock = (\<lambda>_. 0),
     e_idKey = (\<lambda>_ _ _ _ _ _. []), e_argonVersion = 19, e_PingOK = False\<rparr>"

lemma demo_started: "is_ok (New demo_platform version)"
  by (simp add: New_def init_app_def Validate_def Bind_def loadSecret_def demo_platform_def demo_get_def demo_environ_def Let_def)

theorem started_service_guarded_witness:
  "\<exists>srv. runWeb demo_platform demo_pg_env = Inr srv \<and>
     srv ListClients demo_pg_env \<lparr>rq_id = [], rq_state = None, rq_key = [], rq_body = RawNil\<rparr>
       \<lparr>w_state = (), w_rand = [], w_ulids = 0, w_ticks = 0\<rparr> =
     (RespError UnauthorizedError, \<lparr>w_state = (), w_rand = [], w_ulids = 0, w_ticks = 0\<rparr>)"
proof -
  obtain app where "New demo_platform Version = Inr app" using demo_started by (auto simp: is_ok_iff)
  then have "\<exists>srv. runWeb demo_platform demo_pg_env = Inr srv" by (simp add: runWeb_def Init_def)
  then obtain srv where srv: "runWeb demo_platform demo_pg_env = Inr srv" by blast
  have "ListClients \<notin> {Healthz, Readyz}" by simp
  let ?rq = "\<lparr>rq_id = [], rq_state = None, rq_key = [], rq_body = RawNil\<rparr>"
    and ?w = "\<lparr>w_state = (), w_rand = [], w_ulids = 0, w_ticks = 0\<rparr>"
  from started_service_guarded [OF demo_documented(1) srv \<open>ListClients \<notin> _\<close>, of demo_pg_env ?rq ?w] obtain app where
    "New demo_platform Version = Inr app" "cfg_AdminAPIKey (app_config app) \<noteq> []"
    "srv ListClients demo_pg_env ?rq ?w =
       (if rq_key ?rq = cfg_AdminAPIKey (app_config app) then handle ListClients (app_env app demo_pg_env) ?rq ?w
        else (RespError UnauthorizedError, ?w))" by blast
  then have "srv ListClients demo_pg_env ?rq ?w = (RespError UnauthorizedError, ?w)" by simp
  with srv show ?thesis by (intro exI [of _ srv] conjI)
qed

theorem redaction_extends_witness:
  "drops (\<lambda>k f. sublist (to_lower k) (to_lower f)) (RedactionPolicy [''session'']) ''documentNumber'' \<and>
   \<not> drops (\<lambda>k f. sublist (to_lower k) (to_lower f)) (RedactionPolicy [''session'']) ''attribute_names''"
proof -
  define m where "m = (\<lambda>k f. sublist (to_lower k) (to_lower f))"
  have m: "\<forall>k f. m k f = sublist (to_lower k) (to_lower f)" by (simp add: m_def)
  have "\<not> m ''session'' ''attribute_names''" unfolding m_def by code_simp
  then have "\<not> drops m [''session''] ''attribute_names''" by (simp add: drops_def)
  with redaction_extends [OF m, of "[''session'']" "''documentNumber''"]
  have "drops m (RedactionPolicy [''session'']) ''documentNumber'' \<and> \<not> drops m (RedactionPolicy [''session'']) ''attribute_names''"
    by simp
  then show ?thesis unfolding m_def .
qed

end
