(* ===== verification/ErrorCatalogue.thy ===== *)
theory ErrorCatalogue
  imports Concurrency Boot
begin

text \<open>
  The errors the service answers with.  Every problem it raises itself has a reason that the
  application registers at its start (\<^verbatim>\<open>app.go\<close>, "every code this service produces"), whatever the
  requests and however they interleave.
\<close>

section \<open>The catalogue\<close>

definition registered_problem :: "gerror \<Rightarrow> bool" where
  "registered_problem err \<longleftrightarrow>
     (\<exists>d r os. err = NewProblem (''err:'' @ d @ '':'' @ r) os \<and> r \<in> fst ` set registered_reasons)"

text \<open>The codes the store answers with in a running service.\<close>

definition store_error :: "gerror \<Rightarrow> bool" where
  "store_error err \<longleftrightarrow> err \<in> {FromResultCode ''err:registry:not_found'', FromResultCode ''err:registry:invalid'',
     FromResultCode ''err:registry:illegal_transition''}"

text \<open>An error of a library: the random source, or the encoder of the document.\<close>

definition library_error :: "'s env \<Rightarrow> gerror \<Rightarrow> bool" where
  "library_error e err \<longleftrightarrow> (\<exists>doc. e_marshalWRP e doc = Inl err) \<or>
     (\<exists>what eof. err = mint_error what (LibError eof) \<and> what \<in> {''prefix'', ''secret'', ''salt''})"

definition catalogued :: "'s env \<Rightarrow> response \<Rightarrow> bool" where
  "catalogued e r \<longleftrightarrow> (\<forall>err. r = RespError err \<longrightarrow>
     err = UnauthorizedError \<or> registered_problem err \<or> store_error err \<or> library_error e err)"

lemma catalogued_simps [simp]:
  "catalogued e (RespJSON n j)" "catalogued e (RespStatus n)" "catalogued e RespUnencodable"
  "catalogued e (RespError UnauthorizedError)" "store_error err \<Longrightarrow> catalogued e (RespError err)"
  "registered_problem err \<Longrightarrow> catalogued e (RespError err)" "library_error e err \<Longrightarrow> catalogued e (RespError err)"
  by (simp_all add: catalogued_def)

lemma raised_problems:
  "registered_problem (NewProblem ''err:api:invalidBody'' os)"
  "registered_problem (NewProblem ''err:api:registrationInvalid'' os)"
  "registered_problem registrarIdentityRequired" "registered_problem (intendedUseRequired i)"
  "registered_problem ts5CheckFailed"
proof -
  have reg: "registered_problem (NewProblem (''err:'' @ d @ '':'' @ r) os)" if "r \<in> fst ` set registered_reasons" for d r os
    using that by (auto simp: registered_problem_def)
  note in_reasons = registered_reasons_def
  show "registered_problem (NewProblem ''err:api:invalidBody'' os)"
    using reg [of "''invalidBody''" "''api''" os] by (simp add: in_reasons)
  show "registered_problem (NewProblem ''err:api:registrationInvalid'' os)"
    using reg [of "''registrationInvalid''" "''api''" os] by (simp add: in_reasons)
  show "registered_problem registrarIdentityRequired" "registered_problem (intendedUseRequired i)" "registered_problem ts5CheckFailed"
    using reg [of "''registrarIdentityRequired''" "''client''"] reg [of "''intendedUseRequired''" "''client''"]
      reg [of "''ts5CheckFailed''" "''client''"]
    by (simp_all add: in_reasons registrarIdentityRequired_def intendedUseRequired_def ts5CheckFailed_def)
qed

lemma catalogued_body [simp]: "catalogued e notJSON" "catalogued e (invalidBody os)"
  by (simp_all add: notJSON_def invalidBody_def raised_problems)

section \<open>The answers of a program\<close>

text \<open>\<open>says I Q p\<close>: run in states that satisfy \<open>I\<close>, the program \<open>p\<close> gives an answer that satisfies \<open>Q\<close>.\<close>

inductive says :: "(fake \<Rightarrow> bool) \<Rightarrow> (response \<Rightarrow> bool) \<Rightarrow> fake prog \<Rightarrow> bool" for I Q where
  says_Done: "Q r \<Longrightarrow> says I Q (Done r)"
| says_Step: "(\<And>w. I (w_state w) \<Longrightarrow> says I Q (fst (f w))) \<Longrightarrow> says I Q (Step f)"

inductive_cases says_StepE: "says I Q (Step f)"
inductive_simps says_Done_iff [simp]: "says I Q (Done r)"

lemma says_atomically: "(\<And>w. I (w_state w) \<Longrightarrow> says I Q (k (fst (op w)))) \<Longrightarrow> says I Q (atomically op k)"
  unfolding atomically_def by (rule says_Step) (simp add: case_prod_beta)

lemma says_storing:
  assumes "\<And>f err. I f \<Longrightarrow> fst (op f) = Inl err \<Longrightarrow> Q (RespError err)" "\<And>v. says I Q (k v)"
  shows "says I Q (storing op k)"
  unfolding storing_def by (rule says_atomically) (use assms in \<open>auto simp: on_store_eq split: sum.split\<close>)

lemma store_errors:
  "fst (Fake_GetClientFull i f) = Inl err \<Longrightarrow> store_error err"
  "fst (Fake_ListIntendedUses i f) = Inl err \<Longrightarrow> store_error err"
  "fst (Fake_ListClientsByState f) = Inl err \<Longrightarrow> store_error err"
  "fst (Fake_CreateDraftClient nm em a f) = Inl err \<Longrightarrow> store_error err"
  "fst (Fake_TransitionClient i st a ev rs f) = Inl err \<Longrightarrow> store_error err"
  "fst (Fake_SetClientRegistrarIdentity i u ci a f) = Inl err \<Longrightarrow> store_error err"
  "fst (Fake_SetClientWebhook i u a f) = Inl err \<Longrightarrow> store_error err"
  "fst (Fake_SetClientAllowedOrigins i os a f) = Inl err \<Longrightarrow> store_error err"
  "fst (Fake_CreateAPIKey i p h f) = Inl err \<Longrightarrow> store_error err"
  "fst (Fake_SaveWRPDocument i doc ius a f) = Inl err \<Longrightarrow> store_error err"
  "fst (Fake_PurgeOffboarded i a f) = Inl err \<Longrightarrow> store_error err"
  by (auto simp: fake_get fake_list fake_transition fake_purge Fake_ListClientsByState_def Fake_CreateDraftClient_def
      Fake_SetClientRegistrarIdentity_def Fake_SetClientWebhook_def Fake_SetClientAllowedOrigins_def
      Fake_CreateAPIKey_def Fake_SaveWRPDocument_def Let_def nextID_eq fail_def store_error_def
      split: option.splits if_splits)

lemma mode_errors: "own_policies f \<Longrightarrow> fst (Fake_SetClientDCAPIMode i md a f) = Inl err \<Longrightarrow> store_error err"
  using merge_own_policy
  by (auto simp: Fake_SetClientDCAPIMode_def own_policies_def fake_row_def Let_def fail_def store_error_def
      split: option.splits if_splits sum.splits)

section \<open>The answers of the handlers\<close>

lemma says_read:
  "(\<And>v. says I (catalogued e) (k v)) \<Longrightarrow> says I (catalogued e) (storing (Fake_GetClientFull i) k)"
  by (rule says_storing) (auto dest: store_errors)

lemma says_Transition:
  assumes "sv_Store s = FakeStore" "\<And>v. says I (catalogued e) (k v)"
  shows "says I (catalogued e) (prog_Transition s i st a ev rs k)"
proof -
  have purge: "says I (catalogued e) (storing (Fake_PurgeOffboarded i a) k)"
    by (rule says_storing) (auto dest: store_errors simp: assms(2))
  then have flip: "says I (catalogued e) (prog_flip s i st a ev rs k)"
    unfolding prog_flip_def assms(1) by (intro says_storing) (auto dest: store_errors simp: assms(2))
  then have "says I (catalogued e) (prog_check s c (\<lambda>_. prog_flip s i st a ev rs k))" for c
    unfolding prog_check_def assms(1)
    by (auto simp: raised_problems dest: store_errors intro!: says_storing)
  with purge flip show ?thesis
    unfolding prog_Transition_def assms(1) by (auto simp: Let_def intro!: says_read)
qed

lemma says_set_and_echo:
  assumes "e_Store e = FakeStore" "\<And>f err. I f \<Longrightarrow> fst (op f) = Inl err \<Longrightarrow> store_error err"
  shows "says I (catalogued e) (prog_set_and_echo op echo e rq)"
  unfolding prog_set_and_echo_def assms(1)
  by (rule says_storing) (use assms(2) in \<open>auto intro!: says_read\<close>)

lemma Mint_errors: "fst (mint_in e w) = Inl err \<Longrightarrow> library_error e err"
  by (auto simp: mint_in_def Mint_eq library_error_def split: prod.splits if_splits)

lemma says_handle:
  assumes "e_Store e = FakeStore"
  shows "says own_policies (catalogued e) (prog_handle ep e rq)"
proof (cases ep)
  case SetRegistration
  have saved: "says own_policies (catalogued e) (storing (Fake_SaveWRPDocument (rq_id rq) doc ius ''api'') k)"
    if "\<And>v. says own_policies (catalogued e) (k v)" for doc ius k
    by (rule says_storing) (use that in \<open>auto dest: store_errors\<close>)
  have wrp: "e_marshalWRP e doc = Inl err \<Longrightarrow> catalogued e (RespError err)" for doc err
    by (rule catalogued_simps(7)) (auto simp: library_error_def)
  show ?thesis
    using SetRegistration
    by (auto simp: prog_apiSetRegistration_def assms raised_problems wrp split: option.split sum.split
        intro!: says_atomically saved says_read)
next
  case CreateKey
  have keyed: "says own_policies (catalogued e) (storing (Fake_CreateAPIKey i p h) k)"
    if "\<And>v. says own_policies (catalogued e) (k v)" for i p h k
    by (rule says_storing) (use that in \<open>auto dest: store_errors\<close>)
  show ?thesis
    using CreateKey
    by (auto simp: prog_apiCreateKey_def assms Mint_errors split: sum.split intro!: says_read says_atomically keyed)
next
  case SetDCAPIRequestMode
  then show ?thesis
    using assms mode_errors
    by (auto simp: prog_apiSetDCAPIRequestMode_def split: option.split intro!: says_set_and_echo)
next
  case TransitionEndpoint
  then show ?thesis
    using assms by (auto simp: prog_apiTransition_def NewService_def split: option.split intro!: says_Transition)
qed (use assms in \<open>auto simp: prog_health_def healthz_def readyz_def prog_apiListClients_def prog_apiCreateClient_def
      prog_apiGetClient_def prog_apiSetRegistrarIdentity_def prog_apiSetWebhook_def prog_apiSetAllowedOrigins_def
      split: option.split dest: store_errors intro!: says_atomically says_storing says_set_and_echo\<close>)

lemma says_serve: "e_Store e = FakeStore \<Longrightarrow> says own_policies (catalogued e) (prog_serve ep e rq)"
  using says_handle by (simp add: prog_serve_def)

section \<open>The answers of the service\<close>

lemma thread_move_own_policies:
  assumes "thread_move ep rq f c" "fst (exec_call c f) = None" "own_policies f"
  shows "own_policies (snd (exec_call c f))"
proof (cases "api_move f c")
  case False
  then obtain st ev rs where c: "c = CallTransition (rq_id rq) st ''api'' ev rs"
    using assms(1) by (auto simp: thread_move_def split: if_splits)
  with assms(2) obtain c0 where c0: "fake_row f (rq_id rq) = Some c0" "(cf_Status c0, st) \<in> set legalTransitions"
    by (auto simp: fake_transition split: option.splits if_splits)
  then have "own_policy (cf_Policy (c0\<lparr>cf_Status := st\<rparr>))" using assms(3) by (simp add: own_policies_def)
  from own_policies_put [OF assms(3) this] c c0 show ?thesis by (simp add: fake_transition)
qed (use move_own_policies assms(2,3) in blast)

definition answers_ok :: "fake env \<Rightarrow> fake thread list \<Rightarrow> fake world \<Rightarrow> bool" where
  "answers_ok e ts w \<longleftrightarrow> pool_makes ts \<and> logged_ok (w_state w) \<and> own_policies (w_state w) \<and>
     (\<forall>ep rq p. (ep, rq, p) \<in> set ts \<longrightarrow> says own_policies (catalogued e) p)"

lemma answers_ok_happen:
  assumes "e_Store e = FakeStore" "answers_ok e ts w" "happen e ev (ts, w) = (ts', w')"
  shows "answers_ok e ts' w'"
proof -
  note ok = assms(2) [unfolded answers_ok_def]
  have inv: "fake_inv (w_state w)" using ok by (simp add: logged_ok_def)
  have base: "pool_makes ts'" "logged_ok (w_state w')"
    using pool_makes_happen [OF assms(1) _ inv assms(3)] logged_ok_happen [OF _ _ assms(3)] ok by blast+
  show ?thesis
    using assms(3)
  proof (cases rule: happen_cases)
    case (arrive ep rq)
    with ok says_serve [OF assms(1)] base show ?thesis by (auto simp: answers_ok_def)
  next
    case (step n ep rq g)
    then have mem: "(ep, rq, Step g) \<in> set ts" using nth_mem by metis
    then have "says own_policies (catalogued e) (Step g)" using ok by blast
    then have "says own_policies (catalogued e) (fst (g w))" using ok by (auto elim: says_StepE)
    moreover have "own_policies (w_state w')"
      using pool_makesD(1) [OF _ step(1,2) inv] ok step(4) thread_move_own_policies
      by (auto simp: moves_def simp del: exec_call.simps)
    ultimately show ?thesis
      using step(3) ok base by (auto simp: answers_ok_def dest!: set_pool_update)
  qed (use assms(2) in simp)
qed

text \<open>
  C15 (the errors of the service): whatever requests arrive at a new service and however their steps
  interleave, every error it answers with is the unauthorized error, a problem whose reason the
  application registered at its start, one of three codes of the store (not found, invalid, illegal
  transition), or an error of the random source or of the document encoder.  In particular no handler
  panics, and the store's internal error never occurs.
\<close>

theorem errors_are_catalogued:
  assumes "e_Store e = FakeStore" "happens e evs ([], new_world clk b) = (ts, w)"
    "n < length ts" "ts ! n = (ep, rq, Done (RespError err))"
  shows "err = UnauthorizedError \<or>
    (\<exists>d r os. err = NewProblem (''err:'' @ d @ '':'' @ r) os \<and> r \<in> fst ` set registered_reasons) \<or>
    err \<in> {FromResultCode ''err:registry:not_found'', FromResultCode ''err:registry:invalid'',
      FromResultCode ''err:registry:illegal_transition''} \<or>
    (\<exists>doc. e_marshalWRP e doc = Inl err) \<or>
    (\<exists>what eof. err = mint_error what (LibError eof) \<and> what \<in> {''prefix'', ''secret'', ''salt''})"
proof -
  have "answers_ok e ts w"
  proof (rule happens_invariant [where I = "answers_ok e", OF _ _ assms(2)])
    show "answers_ok e [] (new_world clk b)"
      by (simp add: answers_ok_def pool_makes_def new_world_def logged_ok_new own_policies_def fake_row_def)
        (simp add: NewFake_def)
  qed (rule answers_ok_happen [OF assms(1)])
  then have "says own_policies (catalogued e) (Done (RespError err))"
    using assms(3,4) nth_mem unfolding answers_ok_def by metis
  then show ?thesis by (simp add: catalogued_def registered_problem_def store_error_def library_error_def)
qed

theorem errors_are_catalogued_witness:
  "\<exists>os. fst (happens demo_env [Arrive CreateClient (demo_request RawNil)] ([], new_world (\<lambda>n. int n) [])) ! 0 =
     (CreateClient, demo_request RawNil, Done (RespError (NewProblem ''err:api:invalidBody'' os))) \<and>
   ''invalidBody'' \<in> fst ` set registered_reasons"
proof -
  let ?ts = "[(CreateClient, demo_request RawNil, prog_serve CreateClient demo_env (demo_request RawNil))]"
  have p: "prog_serve CreateClient demo_env (demo_request RawNil) =
      Done (RespError (NewProblem ''err:api:invalidBody'' [WithDetail [Txt ''body is not valid JSON'']]))"
    by (simp add: prog_serve_def demo_env_def demo_request_def prog_apiCreateClient_def unmarshal_def notJSON_def
        invalidBody_def)
  have "happens demo_env [Arrive CreateClient (demo_request RawNil)] ([], new_world (\<lambda>n. int n) []) =
      (?ts, new_world (\<lambda>n. int n) [])" by simp
  from errors_are_catalogued [OF demo_env_store this, of 0] p show ?thesis
    by (simp add: registered_reasons_def)
qed

end
