(* ===== verification/Spec2Isabelle.thy ===== *)
theory Spec2Isabelle
  imports PgService PgLifecycle GateRace ErrorCatalogue
begin

text \<open>
  A verification library for the client-registration admin API of the EUDI verifier
  (\<^verbatim>\<open>eudi-api-registration\<close>, written in Go).

  The program.  The service registers relying parties (clients).  A client goes through a lifecycle
  (draft, evidence submitted, filed with registrar, registered, active, suspended, offboarded), carries
  a registration document with its intended uses, a registrar identity, a webhook, allowed origins, a
  policy and API keys, and every change is written to an audit log.  An HTTP request passes the key
  gate (\<^verbatim>\<open>routes/apiauth.go\<close>), a handler (\<^verbatim>\<open>routes/api*.go\<close>) decodes the body and checks it, the
  lifecycle service (\<^verbatim>\<open>internal/lifecycle\<close>), the wizard (\<^verbatim>\<open>internal/wizard\<close>) or the key minter
  (\<^verbatim>\<open>internal/apikeys\<close>) does the work, and a store (\<^verbatim>\<open>internal/registrydb\<close>) keeps the state.  The store
  is an interface with an in-memory implementation (\<^verbatim>\<open>fake.go\<close>) and a PostgreSQL one (\<^verbatim>\<open>repo.go\<close>).

  Theories and sources.
  \<^item> \<open>Prelude\<close>, \<open>GoStrings\<close>, \<open>GoUrl\<close>, \<open>GoJson\<close>, \<open>GoTime\<close>, \<open>GoEncoding\<close>: Go errors and results, and what the
    program uses of the standard library: byte strings, \<^verbatim>\<open>net/url.Parse\<close>, \<^verbatim>\<open>encoding/json\<close> over JSON
    values, date formats, base32 and base64, \<^verbatim>\<open>io.ReadFull\<close>.
  \<^item> \<open>Registry\<close>: the row types, the error codes and the \<open>Store\<close> interface of \<^verbatim>\<open>repo.go\<close> and \<^verbatim>\<open>db.go\<close>, as a
    record of operations over an arbitrary state.
  \<^item> \<open>Fake\<close>: \<^verbatim>\<open>fake.go\<close>, method by method, over one record of its maps.  \<open>FakeFacts\<close> (slugs),
    \<open>FakeInv\<close> (the store invariant; the calls as data and runs of calls), \<open>FakeHistory\<close> (the lifecycle:
    the audit log as a legal path, the abstract machine and the refinement), \<open>FakeOps\<close> (errors change
    nothing, auditing, the replace-all of intended uses), \<open>FakeData\<close> (evidence, purge, listing, keys,
    policy, URLs).
  \<^item> \<open>Lifecycle\<close>: \<^verbatim>\<open>lifecycle.go\<close> over any store; what it relies on is the locale \<open>lifecycle_store\<close> and,
    for exact results, \<open>reliable_store\<close>; both are interpreted on the in-memory store (\<open>fk\<close>).
    \<open>LifecycleEffects\<close>: offboarding, purge and retry.
  \<^item> \<open>Wizard\<close>: \<^verbatim>\<open>wizard.go\<close>.  \<open>WizardFacts\<close>: the verdict on a form and the contents of a document.
  \<^item> \<open>ApiKeys\<close>: \<^verbatim>\<open>apikeys.go\<close> and the shape of a key.
  \<^item> \<open>Routes\<close>, \<open>Registration\<close>, \<open>Server\<close>: the handlers, the wire types, the route table, the key gate and
    the health endpoints; \<open>serve\<close> is the service as a function of endpoint, environment, request and
    world.  \<open>ServerFacts\<close>: every request is a run of allowed store calls.  \<open>ServerInv\<close>: invariants of the
    running service.  \<open>ServerOps\<close>, \<open>ServerFlows\<close>: what single endpoints and sequences of them do.
  \<^item> \<open>Programs\<close>: the same handlers as programs of atomic steps (a store call, the making of a key, the
    building of a document), because the server runs requests concurrently.  \<open>Interleaving\<close>: schedules of
    arrivals and steps; a program that runs alone is \<open>serve\<close>, and no request takes more than three
    steps.  \<open>Concurrency\<close>: what holds after every schedule.  \<open>GateRace\<close>: the activation gate can be passed
    by when a registration overlaps an activation of the same client, and only then.
    \<open>ErrorCatalogue\<close>: the errors the service can answer with.
  \<^item> \<open>PgCall\<close>, \<open>PgStore\<close>: \<^verbatim>\<open>db.go\<close> and the methods of \<open>PG\<close> in \<^verbatim>\<open>repo.go\<close>, the production store, with the
    encoding of arguments and the decoding of rows.  \<open>PgFacts\<close>: the statements it executes and the round
    trips of what it writes.  \<open>GoTimeFacts\<close>: a time written in RFC 3339 is read back, so timestamps
    survive the wire.
  \<^item> \<open>PgProcedures\<close>: the contract of the twenty procedures, as the interface comments and the in-memory
    store state it, in executable form: \<open>procedures_db\<close> reads the arguments of a call, runs the in-memory
    operation and answers with the rows the decoders of \<^verbatim>\<open>repo.go\<close> expect.  It is not a model of code of the
    repository but the instance the hypothesis \<open>implements\<close> is stated with.  \<open>PgMirror\<close>: rows that fit
    the wire (\<open>wire_ok\<close>) are decoded to themselves.  \<open>PgMirrorStore\<close>: the locale \<open>implementing\<close>, in
    which every method of \<open>PG\<close> agrees with the method of the in-memory store.  \<open>PgMirrorFacts\<close>: the
    agreement, its one exception (the separate audit call of a replace-all), and the calls that keep
    rows fit for the wire; \<open>implementing\<close> is interpreted on \<open>procedures_db\<close> (\<open>mirror\<close>).
  \<^item> \<open>PgLifecycle\<close>: the production store satisfies \<open>lifecycle_store\<close> under the documented behaviour of the
    four procedures the lifecycle service calls, so the service keeps its promises on it.  \<open>PgService\<close>:
    the whole service on the production store, under every schedule, answers as on the in-memory store,
    so what is proved of the one holds of the other.
  \<^item> \<open>Boot\<close>: configuration, redaction policy, start of the application, the command line of \<^verbatim>\<open>cmd/server\<close> and
    the test application of \<^verbatim>\<open>testing.go\<close>.

  Parameters.  Code outside the repository is an argument: argon2id (\<open>e_idKey\<close>, \<open>e_argonVersion\<close>), the
  ULID generator (\<open>e_ulid\<close>), the clock (\<open>e_clock\<close>, and \<open>clk\<close> of the in-memory store), the random bytes, the
  encoders of the third-party document types (\<open>e_marshalPurpose\<close>, \<open>e_marshalWRP\<close>), the answer of the
  database ping, the database itself (\<open>'s db\<close>, a function of the statement, its argument and the state),
  the framework, kit and configuration library (\<open>platform\<close>), and the command dispatcher.  What a theorem
  needs of one of them is a named hypothesis: that purposes can be encoded, that two ULIDs differ,
  \<open>documented_procedures\<close> (what the interface says of the four procedures the lifecycle service calls),
  \<open>implements\<close> (the database behaves as the procedures do; \<open>procedures_db\<close> satisfies both),
  \<open>documented_encoders\<close> (the document encoders make JSON texts; \<open>demo_production\<close> satisfies it), that the
  clock is within the years RFC 3339 can write (\<open>time_ok\<close>), \<open>documented_platform\<close> and \<open>documented_viper\<close>
  (\<open>demo_platform\<close> satisfies both).

  Conventions.  Go strings are byte strings; a JSON text is represented by its value; nil and empty
  slices are both the empty list; a Go map is an association list, and no theorem depends on its order
  where Go's iteration order is unspecified.  The in-memory store holds its mutex from the start to the
  end of every method, so methods are atomic state transformers, and a procedure call of the production
  store is one transaction.  Loops are structural recursion or functions with a termination proof; there
  is no fuel.

  Not modelled.  The framework (URL matching, headers, rendering of problems as HTTP, reading a body's
  bytes as JSON), the replacement of invalid UTF-8 by the JSON encoder, dates the decoder accepts beyond
  RFC 3339, the dispatch of commands by the framework, contexts and their timeouts, the end of a test
  (its cleanup), and the observability kit.
\<close>

end
